(* ===== verification/Prelude.thy ===== *)
theory Prelude
  imports Complex_Main "HOL-Library.Sublist"
begin

text \<open>
  Shared vocabulary of the snapshot development: the named lemma collections the
  component theories feed, the type names used for addresses and identifiers, and
  generic facts about left folds, intervals and prefixes of lists that the scanner,
  the batcher and the submitter all rely on.
\<close>

named_theorems scan_simps "characteristic equations of the holder scanner"
named_theorems enc_simps "characteristic equations of the payload encoders"

type_synonym address = string

subsection \<open>Left folds\<close>

text \<open>
  The script processes pages of candidates with nested \<open>forEach\<close> loops; a fold of
  folds is one fold over the concatenation.
\<close>

lemma foldl_nested_concat:
  "foldl (\<lambda>s xs. foldl f s (g xs)) s xss = foldl f s (concat (map g xss))"
  by (induction xss arbitrary: s) auto

lemma foldl_invariant:
  assumes "P s" and "\<And>s x. P s \<Longrightarrow> x \<in> set xs \<Longrightarrow> P (f s x)"
  shows "P (foldl f s xs)"
  using assms by (induction xs arbitrary: s) auto

lemma foldl_cong_set:
  assumes "\<And>s x. x \<in> set xs \<Longrightarrow> f s x = g s x"
  shows "foldl f s xs = foldl g s xs"
  using assms by (induction xs arbitrary: s) auto

subsection \<open>Lists of option results\<close>

lemma those_map_Some: "those (map (\<lambda>x. Some (f x)) xs) = Some (map f xs)"
  by (induction xs) simp_all

subsection \<open>Intervals of page numbers\<close>

lemma takeWhile_upt_length_le:
  "length (takeWhile P [p..<q]) \<le> q - p"
  by (metis length_takeWhile_le length_upt)

subsection \<open>Lists of chunks\<close>

lemma take_drop_add:
  "take n (drop i xs) @ drop (i + n) xs = drop i xs"
  by (metis append_take_drop_id drop_drop add.commute)

subsection \<open>Positions in a list without repetitions\<close>

lemma takeWhile_nth_distinct:
  "distinct xs \<Longrightarrow> i < length xs \<Longrightarrow> length (takeWhile (\<lambda>x. x \<noteq> xs ! i) xs) = i"
proof (induction xs arbitrary: i)
  case Nil
  then show ?case by simp
next
  case (Cons y ys)
  show ?case
  proof (cases i)
    case 0
    then show ?thesis by simp
  next
    case (Suc j)
    with Cons.prems have "ys ! j \<noteq> y" using nth_mem by fastforce
    with Cons Suc show ?thesis by simp
  qed
qed

subsection \<open>Lists of argument pairs\<close>

text \<open>Each entry of a batch contributes two arguments to a payload.\<close>

lemma sum_list_concat_pairs:
  "sum_list (concat (map (\<lambda>x. [f x, g x]) xs)) = (\<Sum>x\<leftarrow>xs. f x + g x)"
  by (induction xs) (simp_all add: add.assoc)

lemma length_concat_pairs:
  "length (concat (map (\<lambda>x. [f x, g x]) xs)) = 2 * length xs"
  by (induction xs) simp_all

lemma map_filter_append [simp]:
  "List.map_filter f (xs @ ys) = List.map_filter f xs @ List.map_filter f ys"
  by (simp add: map_filter_def)

subsection \<open>Trimming a trailing run\<close>

text \<open>\<open>rev (dropWhile P (rev w))\<close> drops the trailing run of \<open>P\<close> (a right trim).\<close>

lemma rtrim_Cons:
  assumes "\<not> P c"
  shows "rev (dropWhile P (rev (c # w))) = c # rev (dropWhile P (rev w))"
proof (cases "\<forall>x \<in> set w. P x")
  case True
  then have "dropWhile P (rev w @ [c]) = dropWhile P [c]" by (intro dropWhile_append2) simp
  with assms have "dropWhile P (rev w @ [c]) = [c]" by simp
  moreover have "dropWhile P (rev w) = []" using True by simp
  ultimately show ?thesis by simp
next
  case False
  then obtain x where "x \<in> set (rev w)" "\<not> P x" by auto
  then have "dropWhile P (rev w @ [c]) = dropWhile P (rev w) @ [c]" by (rule dropWhile_append1)
  then show ?thesis by simp
qed

lemma rtrim_head: "rev (dropWhile P (rev w)) = c # r \<Longrightarrow> \<exists>w'. w = c # w'"
proof -
  assume h: "rev (dropWhile P (rev w)) = c # r"
  have "w = rev (dropWhile P (rev w)) @ rev (takeWhile P (rev w))"
    by (metis rev_append rev_rev_ident takeWhile_dropWhile_id)
  with h show ?thesis by auto
qed

end
