(* ===== verification/JsValues.thy ===== *)
theory JsValues
  imports Prelude
begin

text \<open>
  The JavaScript and bignumber.js values the script computes with.
  \<^item> \<open>numval\<close> is a number as bignumber.js stores it: a coefficient and a count of
    decimal places (\<open>Dec m s\<close> is \<open>m / 10^s\<close>), \<open>NaN\<close>, or an infinity. The same type
    carries the JavaScript numbers the script compares against: the minimum holding
    threshold is a literal of the configuration, which \<open>gte\<close> reads back exactly.
  \<^item> \<open>xnum\<close>, the rationals with both infinities, ordered (an instance of
    \<open>linorder\<close>), is what a number denotes (\<open>ext_value\<close>; \<open>num_value\<close> for the finite
    ones); comparison and shift are proved against it.
  \<^item> \<open>jval\<close> is a scalar value of the parsed JSON configuration, with its truthiness.
  \<^item> the decimal grammar \<open>[-]digits[.digits][(e|E)[+|-]digits]\<close> shared by bignumber.js
    and JavaScript's \<open>ToNumber\<close> (\<open>parse_decimal\<close>, \<open>bn_decimal\<close>). The readers of
    whole strings are in \<open>NumberReaders\<close>.
  Strings are lists of 8-bit characters: white space is the ASCII one (tab, line feed,
  vertical tab, form feed, carriage return, space).
\<close>

datatype numval = NaN | Dec int nat | PInf | NInf

datatype jval = JStr string | JNum int nat | JBool bool | JNull

fun num_value :: "numval \<Rightarrow> rat option" where
  "num_value (Dec m s) = Some (of_int m / 10 ^ s)"
| "num_value _ = None"

text \<open>The extended rationals, ordered as bignumber.js's \<open>comparedTo\<close> orders numbers.\<close>

datatype xnum = NegInf | Fin rat | PosInf

instantiation xnum :: linorder
begin

fun less_eq_xnum :: "xnum \<Rightarrow> xnum \<Rightarrow> bool" where
  "less_eq_xnum NegInf _ = True"
| "less_eq_xnum _ PosInf = True"
| "less_eq_xnum (Fin a) (Fin b) = (a \<le> b)"
| "less_eq_xnum _ _ = False"

definition less_xnum :: "xnum \<Rightarrow> xnum \<Rightarrow> bool" where
  "less_xnum x y \<longleftrightarrow> x \<le> y \<and> \<not> y \<le> x"

instance
proof
  fix x y z :: xnum
  show "x < y \<longleftrightarrow> x \<le> y \<and> \<not> y \<le> x"
    unfolding less_xnum_def ..
  show "x \<le> x"
    by (cases x) simp_all
  show "x \<le> z" if "x \<le> y" and "y \<le> z"
    using that by (cases x; cases y; cases z) simp_all
  show "x = y" if "x \<le> y" and "y \<le> x"
    using that by (cases x; cases y) simp_all
  show "x \<le> y \<or> y \<le> x"
    by (cases x; cases y) (simp_all add: linear)
qed

end

fun ext_value :: "numval \<Rightarrow> xnum option" where
  "ext_value NaN = None"
| "ext_value (Dec m s) = Some (Fin (of_int m / 10 ^ s))"
| "ext_value PInf = Some PosInf"
| "ext_value NInf = Some NegInf"

subsection \<open>bignumber.js operations used by the scanner\<close>

text \<open>
  \<open>x.shiftedBy(k)\<close>: multiply by \<open>10^k\<close> (\<open>x.times('1e' + k)\<close>); \<open>NaN\<close> and the
  infinities stay what they are.
\<close>

fun bn_shiftedBy :: "numval \<Rightarrow> int \<Rightarrow> numval" where
  "bn_shiftedBy NaN k = NaN"
| "bn_shiftedBy (Dec m s) k =
     (if 0 \<le> k then Dec (m * 10 ^ nat k) s else Dec m (s + nat (- k)))"
| "bn_shiftedBy PInf k = PInf"
| "bn_shiftedBy NInf k = NInf"

text \<open>
  \<open>x.gte(y)\<close>: \<open>comparedTo\<close> is \<open>null\<close> as soon as either side is \<open>NaN\<close>, which makes
  \<open>gte\<close> false; \<open>Infinity\<close> is above and \<open>-Infinity\<close> below every other number, and
  equal to itself.
\<close>

fun bn_gte :: "numval \<Rightarrow> numval \<Rightarrow> bool" where
  "bn_gte NaN y = False"
| "bn_gte x NaN = False"
| "bn_gte PInf y = True"
| "bn_gte x NInf = True"
| "bn_gte NInf y = False"
| "bn_gte x PInf = False"
| "bn_gte (Dec m1 s1) (Dec m2 s2) = (m2 * 10 ^ s1 \<le> m1 * 10 ^ s2)"

fun bn_neg :: "numval \<Rightarrow> numval" where
  "bn_neg NaN = NaN"
| "bn_neg (Dec m s) = Dec (- m) s"
| "bn_neg PInf = NInf"
| "bn_neg NInf = PInf"

subsection \<open>Parsing decimal strings\<close>

definition is_digit :: "char \<Rightarrow> bool" where
  "is_digit c \<longleftrightarrow> (48::nat) \<le> of_char c \<and> of_char c \<le> (57::nat)"

definition digit_value :: "char \<Rightarrow> nat" where
  "digit_value c = of_char c - 48"

definition digits_value :: "string \<Rightarrow> nat" where
  "digits_value ds = foldl (\<lambda>n c. 10 * n + digit_value c) 0 ds"

text \<open>
  An unsigned decimal: digits, optionally a point and more digits, at least one digit
  in all. The coefficient is the digit string without the point, the scale the number
  of digits after it.
\<close>

definition parse_unsigned :: "string \<Rightarrow> numval" where
  "parse_unsigned str =
     (let ip = takeWhile (\<lambda>c. c \<noteq> CHR ''.'') str;
          fp = drop 1 (dropWhile (\<lambda>c. c \<noteq> CHR ''.'') str)
      in if list_all is_digit ip \<and> list_all is_digit fp \<and> ip @ fp \<noteq> []
         then Dec (int (digits_value (ip @ fp))) (length fp)
         else NaN)"

text \<open>
  The exponent part of a decimal literal, after \<open>e\<close> or \<open>E\<close>: an optional sign and at
  least one digit (the \<open>ExponentPart\<close> of JavaScript's \<open>StrDecimalLiteral\<close> and of
  bignumber.js's decimal pattern).
\<close>

definition is_exp_char :: "char \<Rightarrow> bool" where
  "is_exp_char c \<longleftrightarrow> c = CHR ''e'' \<or> c = CHR ''E''"

definition digits_int :: "string \<Rightarrow> int option" where
  "digits_int ds = (if ds \<noteq> [] \<and> list_all is_digit ds then Some (int (digits_value ds)) else None)"

definition parse_exponent :: "string \<Rightarrow> int option" where
  "parse_exponent str =
     (case str of
        c # rest \<Rightarrow>
          (if c = CHR ''+'' then digits_int rest
           else if c = CHR ''-'' then map_option uminus (digits_int rest)
           else digits_int str)
      | [] \<Rightarrow> None)"

text \<open>
  An unsigned decimal literal: the mantissa, then optionally an exponent, which shifts
  the mantissa by that many decimal places.
\<close>

definition parse_decimal :: "string \<Rightarrow> numval" where
  "parse_decimal str =
     (let mant = takeWhile (\<lambda>c. \<not> is_exp_char c) str;
          rest = dropWhile (\<lambda>c. \<not> is_exp_char c) str
      in if rest = [] then parse_unsigned mant
         else (case parse_exponent (tl rest) of
                 None \<Rightarrow> NaN
               | Some k \<Rightarrow> bn_shiftedBy (parse_unsigned mant) k))"

text \<open>
  The decimal pattern of the \<open>BigNumber\<close> constructor (\<open>isNumeric\<close>): an optional minus
  sign, then a decimal literal. It is \<open>NaN\<close> exactly on the strings that do not match.
\<close>

definition bn_decimal :: "string \<Rightarrow> numval" where
  "bn_decimal str =
     (case str of
        c # rest \<Rightarrow> (if c = CHR ''-'' then bn_neg (parse_decimal rest) else parse_decimal str)
      | [] \<Rightarrow> NaN)"

definition is_js_space :: "char \<Rightarrow> bool" where
  "is_js_space c \<longleftrightarrow> c \<in> {CHR '' '', CHR 0x09, CHR 0x0A, CHR 0x0B, CHR 0x0C, CHR 0x0D}"

definition js_trim :: "string \<Rightarrow> string" where
  "js_trim str = rev (dropWhile is_js_space (rev (dropWhile is_js_space str)))"

text \<open>JavaScript truthiness of a configuration entry, as the \<open>!x\<close> tests use it.\<close>

fun js_truthy :: "jval option \<Rightarrow> bool" where
  "js_truthy None = False"
| "js_truthy (Some JNull) = False"
| "js_truthy (Some (JBool b)) = b"
| "js_truthy (Some (JNum m s)) = (m \<noteq> 0)"
| "js_truthy (Some (JStr str)) = (str \<noteq> [])"

text \<open>A shift of an extended rational by \<open>10^k\<close>; the infinities stay.\<close>

fun xshift :: "int \<Rightarrow> xnum \<Rightarrow> xnum" where
  "xshift k (Fin r) = Fin (r * 10 powi k)"
| "xshift k x = x"

subsection \<open>The operations against their rational values\<close>

text \<open>\<open>gte\<close> compares the two decimals exactly, by cross-multiplying the coefficients.\<close>

lemma dec_le_iff:
  "(of_int m2 / 10 ^ s2 \<le> (of_int m1 / 10 ^ s1 :: rat)) \<longleftrightarrow> m2 * 10 ^ s1 \<le> m1 * 10 ^ s2"
proof -
  have p1: "(0::rat) < 10 ^ s1" and p2: "(0::rat) < 10 ^ s2" by simp_all
  have "(of_int m2 / 10 ^ s2 \<le> (of_int m1 / 10 ^ s1 :: rat)) \<longleftrightarrow>
        (of_int m2 * 10 ^ s1 \<le> (of_int m1 * 10 ^ s2 :: rat))"
    using p1 p2 by (simp add: divide_le_eq le_divide_eq mult.commute mult.left_commute)
  also have "\<dots> \<longleftrightarrow> of_int (m2 * 10 ^ s1) \<le> (of_int (m1 * 10 ^ s2) :: rat)"
    by simp
  also have "\<dots> \<longleftrightarrow> m2 * 10 ^ s1 \<le> m1 * 10 ^ s2"
    by (rule of_int_le_iff)
  finally show ?thesis .
qed

lemma bn_gte_value:
  "bn_gte x y \<longleftrightarrow> (\<exists>a b. ext_value x = Some a \<and> ext_value y = Some b \<and> b \<le> a)"
  by (cases x; cases y) (auto simp: dec_le_iff)

lemma bn_shiftedBy_value:
  "num_value (bn_shiftedBy x k) = map_option (\<lambda>v. v * 10 powi k) (num_value x)"
proof (cases x)
  case (Dec m s)
  show ?thesis
  proof (cases "0 \<le> k")
    case True
    then have "(10::rat) powi k = 10 ^ nat k" by (simp add: power_int_def)
    with True Dec show ?thesis by simp
  next
    case False
    then have "(10::rat) powi k = 1 / 10 ^ nat (- k)" by (simp add: power_int_def field_simps)
    with False Dec show ?thesis by (simp add: power_add)
  qed
qed simp_all

lemma bn_shiftedBy_ext_value:
  "ext_value (bn_shiftedBy x k) = map_option (xshift k) (ext_value x)"
proof (cases x)
  case (Dec m s)
  obtain m' s' where d: "bn_shiftedBy x k = Dec m' s'"
    using Dec by (cases "0 \<le> k") auto
  have "num_value (Dec m' s') = Some (of_int m / 10 ^ s * 10 powi k)"
    using bn_shiftedBy_value [of x k] Dec d by simp
  then show ?thesis using Dec d by simp
qed simp_all

lemma is_digit_not_exp: "is_digit c \<Longrightarrow> \<not> is_exp_char c"
  by (auto simp: is_digit_def is_exp_char_def)

lemma parse_decimal_no_exp:
  assumes "\<forall>c \<in> set str. \<not> is_exp_char c"
  shows "parse_decimal str = parse_unsigned str"
proof -
  have tw: "takeWhile (\<lambda>c. \<not> is_exp_char c) str = str"
    using assms by (subst takeWhile_eq_all_conv) blast
  have dw: "dropWhile (\<lambda>c. \<not> is_exp_char c) str = []"
    using assms by (subst dropWhile_eq_Nil_conv) blast
  show ?thesis by (simp only: parse_decimal_def Let_def tw dw) simp
qed

lemma js_trim_id:
  assumes "str \<noteq> []" "\<not> is_js_space (hd str)" "\<not> is_js_space (last str)"
  shows "js_trim str = str"
proof -
  obtain c cs where str: "str = c # cs" using assms(1) by (cases str) auto
  have "dropWhile is_js_space str = str" using assms(2) by (simp add: str)
  moreover have "dropWhile is_js_space (rev str) = rev str"
    using assms(1,3) by (cases "rev str") (auto simp flip: last_rev)
  ultimately show ?thesis by (simp add: js_trim_def)
qed

lemma parse_decimal_exp:
  assumes "\<forall>c \<in> set mant. \<not> is_exp_char c" and "is_exp_char e"
  shows "parse_decimal (mant @ e # rest) =
           (case parse_exponent rest of None \<Rightarrow> NaN | Some k \<Rightarrow> bn_shiftedBy (parse_unsigned mant) k)"
proof -
  have tw: "takeWhile (\<lambda>c. \<not> is_exp_char c) (mant @ e # rest) = mant"
    using assms by (simp add: takeWhile_append2)
  have dw: "dropWhile (\<lambda>c. \<not> is_exp_char c) (mant @ e # rest) = e # rest"
    using assms by (simp add: dropWhile_append3)
  show ?thesis by (simp add: parse_decimal_def tw dw)
qed

end
