(* ===== verification/BigNumberLex.thy ===== *)
theory BigNumberLex
  imports JsValues
begin

text \<open>
  The string handling of bignumber.js's \<open>parseNumeric\<close>, the fallback the \<open>BigNumber\<close>
  constructor takes for a string that is not a plain decimal: the regular expressions it
  applies (white space and a leading \<open>+\<close>; the special values; the \<open>0x\<close>, \<open>0b\<close>,
  \<open>0o\<close> prefixes; a point at either end), the validity check and the conversion of a
  literal in another base. \<open>bn_retry\<close> is the string the constructor retries with;
  \<open>retry_decreases\<close> shows that every retry decreases \<open>retry_measure\<close>, which makes
  the constructor (\<open>bn_base\<close> in \<open>NumberReaders\<close>) terminate.
\<close>

subsection \<open>The pieces of \<open>parseNumeric\<close>\<close>

definition is_alpha :: "char \<Rightarrow> bool" where
  "is_alpha c \<longleftrightarrow> ((65::nat) \<le> of_char c \<and> of_char c \<le> (90::nat)) \<or> ((97::nat) \<le> of_char c \<and> of_char c \<le> (122::nat))"

definition is_word_char :: "char \<Rightarrow> bool" where
  "is_word_char c \<longleftrightarrow> is_digit c \<or> is_alpha c \<or> c = CHR ''_''"

text \<open>
  \<open>str.replace(/^\s*\+(?=[\w.])|^\s+|\s+$/g, '')\<close>: the leading white space goes, and
  with it a \<open>+\<close> that a word character or a point follows; then the trailing white space.
\<close>

definition lead_plus :: "string \<Rightarrow> string" where
  "lead_plus s =
     (case s of
        c # d # rest \<Rightarrow> if c = CHR ''+'' \<and> (is_word_char d \<or> d = CHR ''.'') then d # rest else s
      | _ \<Rightarrow> s)"

definition bn_strip :: "string \<Rightarrow> string" where
  "bn_strip str = rev (dropWhile is_js_space (rev (lead_plus (dropWhile is_js_space str))))"

text \<open>\<open>/^-?(Infinity|NaN)$/\<close>: the special values, read without an exception.\<close>

definition bn_special :: "string \<Rightarrow> numval option" where
  "bn_special s =
     (if s = ''Infinity'' then Some PInf
      else if s = ''-Infinity'' then Some NInf
      else if s = ''NaN'' \<or> s = ''-NaN'' then Some NaN
      else None)"

definition base_of_char :: "char \<Rightarrow> nat option" where
  "base_of_char c =
     (if c = CHR ''x'' \<or> c = CHR ''X'' then Some 16
      else if c = CHR ''b'' \<or> c = CHR ''B'' then Some 2
      else if c = CHR ''o'' \<or> c = CHR ''O'' then Some 8
      else None)"

text \<open>
  \<open>/^(-?)0([xbo])(?=\w[\w.]*$)/i\<close>: the sign, the base, and the digits after the prefix,
  which start with a word character and hold only word characters and points.
\<close>

definition base_prefix :: "string \<Rightarrow> (bool \<times> nat \<times> string) option" where
  "base_prefix s =
     (let neg = (take 1 s = ''-''); t = (if neg then tl s else s) in
      case t of
        z # x # ds \<Rightarrow>
          (case base_of_char x of
             Some b \<Rightarrow>
               if z = CHR ''0'' \<and> ds \<noteq> [] \<and> is_word_char (hd ds) \<and>
                  list_all (\<lambda>c. is_word_char c \<or> c = CHR ''.'') ds
               then Some (neg, b, ds) else None
           | None \<Rightarrow> None)
      | _ \<Rightarrow> None)"

definition to_lower :: "char \<Rightarrow> char" where
  "to_lower c = (if (65::nat) \<le> of_char c \<and> of_char c \<le> (90::nat) then char_of (of_char c + (32::nat)) else c)"

definition to_upper :: "char \<Rightarrow> char" where
  "to_upper c = (if (97::nat) \<le> of_char c \<and> of_char c \<le> (122::nat) then char_of (of_char c - (32::nat)) else c)"

text \<open>The digits of base \<open>b\<close>: the first \<open>b\<close> characters of \<open>0123456789abc...z\<close>.\<close>

definition base_digit_value :: "char \<Rightarrow> nat" where
  "base_digit_value c = (if is_digit c then digit_value c else of_char c - 87)"

definition in_alphabet :: "nat \<Rightarrow> char \<Rightarrow> bool" where
  "in_alphabet b c \<longleftrightarrow>
     (is_digit c \<or> ((97::nat) \<le> of_char c \<and> of_char c \<le> (122::nat))) \<and> base_digit_value c < b"

text \<open>
  The validity loop of the constructor with a base: every character is a digit of the
  base, except one point that is not the first character.
\<close>

definition base_chars_ok :: "nat \<Rightarrow> string \<Rightarrow> bool" where
  "base_chars_ok b s =
     (let ip = takeWhile (\<lambda>c. c \<noteq> CHR ''.'') s; rest = dropWhile (\<lambda>c. c \<noteq> CHR ''.'') s in
      list_all (in_alphabet b) ip \<and> (rest = [] \<or> (ip \<noteq> [] \<and> list_all (in_alphabet b) (tl rest))))"

text \<open>
  At the first invalid character the loop changes the case of the whole string once,
  when the string is all upper case (to lower case) or all lower case (to upper case).
\<close>

definition base_norm :: "nat \<Rightarrow> string \<Rightarrow> string option" where
  "base_norm b s =
     (if base_chars_ok b s then Some s
      else if s = map to_upper s \<and> base_chars_ok b (map to_lower s) then Some (map to_lower s)
      else if s = map to_lower s \<and> base_chars_ok b (map to_upper s) then Some (map to_upper s)
      else None)"

definition base_value :: "nat \<Rightarrow> string \<Rightarrow> nat" where
  "base_value b ds = foldl (\<lambda>n c. b * n + base_digit_value c) 0 ds"

text \<open>
  \<open>convertBase\<close>: an integer is exact; with a point the value is divided by \<open>b\<close> to the
  number of fraction digits and rounded to \<open>DECIMAL_PLACES = 20\<close> places, half up
  (\<open>ROUNDING_MODE = 4\<close>, on the magnitude).
\<close>

definition base_number :: "nat \<Rightarrow> bool \<Rightarrow> string \<Rightarrow> numval" where
  "base_number b neg s =
     (let ip = takeWhile (\<lambda>c. c \<noteq> CHR ''.'') s;
          fp = drop 1 (dropWhile (\<lambda>c. c \<noteq> CHR ''.'') s);
          n = base_value b (ip @ fp);
          sgn = (\<lambda>m::int. if neg then - m else m)
      in if CHR ''.'' \<notin> set s then Dec (sgn (int n)) 0
         else Dec (sgn (int ((2 * n * 10 ^ 20 + b ^ length fp) div (2 * b ^ length fp)))) 20)"

text \<open>\<open>/^([^.]+)\.$/\<close> to \<open>'$1'\<close> and \<open>/^\.([^.]+)$/\<close> to \<open>'0.$1'\<close>.\<close>

definition dot_after :: "string \<Rightarrow> string" where
  "dot_after s =
     (if s \<noteq> [] \<and> last s = CHR ''.'' \<and> butlast s \<noteq> [] \<and> CHR ''.'' \<notin> set (butlast s)
      then butlast s else s)"

definition dot_before :: "string \<Rightarrow> string" where
  "dot_before s =
     (case s of
        c # rest \<Rightarrow> if c = CHR ''.'' \<and> rest \<noteq> [] \<and> CHR ''.'' \<notin> set rest then CHR ''0'' # s else s
      | [] \<Rightarrow> s)"

text \<open>
  \<open>parseNumeric\<close> with a base \<open>b\<close>: the string is stripped, a prefix of the same base is
  dropped, and a point at either end completed; the constructor retries with the result
  when it differs from the string it was given.
\<close>

definition bn_retry :: "nat \<Rightarrow> string \<Rightarrow> string" where
  "bn_retry b v =
     (let t = bn_strip v;
          t1 = (case base_prefix t of
                  Some (n, b', ds) \<Rightarrow> if b' = b then (if n then ''-'' else []) @ ds else t
                | None \<Rightarrow> t)
      in dot_before (dot_after t1))"

definition retry_measure :: "string \<Rightarrow> nat" where
  "retry_measure v =
     length v + (if take 1 (dropWhile (\<lambda>c. is_js_space c \<or> c = CHR ''+'') v) = ''.'' then 2 else 0)"

subsection \<open>Retries decrease\<close>

lemma dropWhile_shorter: "dropWhile P xs = xs \<or> length (dropWhile P xs) < length xs"
  by (induction xs) (auto simp: le_imp_less_Suc length_dropWhile_le)

lemma dropWhile_absorb: "(\<And>x. P x \<Longrightarrow> Q x) \<Longrightarrow> dropWhile Q (dropWhile P xs) = dropWhile Q xs"
  by (induction xs) auto

lemma dropWhile_append_nonempty:
  "dropWhile P xs \<noteq> [] \<Longrightarrow> dropWhile P (xs @ ys) = dropWhile P xs @ ys"
  by (induction xs) auto

lemma rtrim_prefix: "rev (dropWhile P (rev y)) @ rev (takeWhile P (rev y)) = y"
  by (metis rev_append rev_rev_ident takeWhile_dropWhile_id)

lemma word_char_plain: "is_word_char c \<Longrightarrow> \<not> is_js_space c \<and> c \<noteq> CHR ''+'' \<and> c \<noteq> CHR ''.'' \<and> c \<noteq> CHR ''-''"
  by (auto simp: is_word_char_def is_digit_def is_alpha_def is_js_space_def)

lemma lead_plus_cases: "lead_plus s = s \<or> (\<exists>d r. s = CHR ''+'' # d # r \<and> lead_plus s = d # r)"
  by (auto simp: lead_plus_def split: list.split)

lemma bn_strip_shorter: "bn_strip v = v \<or> length (bn_strip v) < length v"
proof -
  let ?a = "dropWhile is_js_space v"
  let ?d = "dropWhile is_js_space (rev (lead_plus ?a))"
  have a: "?a = v \<or> length ?a < length v" by (rule dropWhile_shorter)
  have b: "lead_plus ?a = ?a \<or> length (lead_plus ?a) < length ?a"
    using lead_plus_cases [of ?a] by auto
  have d: "?d = rev (lead_plus ?a) \<or> length ?d < length (lead_plus ?a)"
    using dropWhile_shorter [of is_js_space "rev (lead_plus ?a)"] by simp
  from a b d show ?thesis unfolding bn_strip_def by auto
qed

lemma bn_strip_less: "bn_strip v \<noteq> v \<Longrightarrow> length (bn_strip v) < length v"
  using bn_strip_shorter [of v] by auto

abbreviation ws_or_plus :: "char \<Rightarrow> bool" where
  "ws_or_plus c \<equiv> is_js_space c \<or> c = CHR ''+''"

lemma lead_dot_strip:
  assumes "take 1 (dropWhile ws_or_plus (bn_strip v)) = ''.''"
  shows "take 1 (dropWhile ws_or_plus v) = ''.''"
proof -
  let ?y = "lead_plus (dropWhile is_js_space v)"
  let ?A = "dropWhile ws_or_plus (bn_strip v)"
  from assms have ne: "?A \<noteq> []"
    by (metis take_Nil list.distinct(1))
  have "dropWhile ws_or_plus ?y = ?A @ rev (takeWhile is_js_space (rev ?y))"
    using dropWhile_append_nonempty [OF ne [unfolded bn_strip_def]] rtrim_prefix [of is_js_space ?y]
    unfolding bn_strip_def by metis
  then have "take 1 (dropWhile ws_or_plus ?y) = take 1 ?A"
    using ne by (cases ?A) auto
  with assms have y: "take 1 (dropWhile ws_or_plus ?y) = ''.''" by simp
  have "dropWhile ws_or_plus ?y = dropWhile ws_or_plus (dropWhile is_js_space v)"
    using lead_plus_cases [of "dropWhile is_js_space v"] by auto
  also have "\<dots> = dropWhile ws_or_plus v" by (rule dropWhile_absorb) simp
  finally show ?thesis using y by simp
qed

lemma base_prefix_Some:
  assumes "base_prefix t = Some (n, b, ds)"
  shows "length t = length ((if n then ''-'' else []) @ ds) + 2 \<and> ds \<noteq> [] \<and> is_word_char (hd ds)"
  using assms
  by (cases t) (auto simp: base_prefix_def Let_def split: list.splits option.splits if_splits)

lemma dot_after_cases:
  "dot_after w = w \<or>
   (length (dot_after w) < length w \<and> CHR ''.'' \<notin> set (dot_after w) \<and> dot_after w \<noteq> [] \<and>
    take 1 (dot_after w) = take 1 w)"
proof (cases "dot_after w = w")
  case False
  then have "w \<noteq> [] \<and> butlast w \<noteq> [] \<and> CHR ''.'' \<notin> set (butlast w) \<and> dot_after w = butlast w"
    by (auto simp: dot_after_def split: if_splits)
  moreover have "butlast w \<noteq> [] \<Longrightarrow> take 1 (butlast w) = take 1 w"
    by (cases w) (auto simp: butlast.simps split: list.split)
  ultimately show ?thesis by auto
qed simp

lemma dot_before_cases:
  "dot_before w = w \<or> (\<exists>r. w = CHR ''.'' # r \<and> dot_before w = CHR ''0'' # w)"
  by (auto simp: dot_before_def split: list.split)

lemma retry_decreases:
  assumes "bn_retry b v \<noteq> v"
  shows "retry_measure (bn_retry b v) < retry_measure v"
proof -
  define t where "t = bn_strip v"
  define t1 where "t1 = (case base_prefix t of
                           Some (n, b', ds) \<Rightarrow> if b' = b then (if n then ''-'' else []) @ ds else t
                         | None \<Rightarrow> t)"
  define t2 where "t2 = dot_after t1"
  have r: "bn_retry b v = dot_before t2"
    unfolding bn_retry_def Let_def t2_def t1_def t_def by (rule refl)
  have t1: "t1 = t \<or> (length t1 + 2 = length t \<and> (\<exists>c r. t1 = c # r \<and> \<not> ws_or_plus c \<and> c \<noteq> CHR ''.''))"
  proof (cases "base_prefix t")
    case (Some p)
    obtain n b' ds where p: "p = (n, b', ds)" by (cases p)
    with Some base_prefix_Some [of t n b' ds]
    have "length t = length ((if n then ''-'' else []) @ ds) + 2" "ds \<noteq> []" "is_word_char (hd ds)" by auto
    then show ?thesis using Some p word_char_plain [of "hd ds"]
      by (cases ds) (auto simp: t1_def is_js_space_def)
  qed (simp add: t1_def)
  have tv: "length t \<le> length v" "length t = length v \<Longrightarrow> t = v"
    using bn_strip_shorter [of v] by (auto simp: t_def)
  have t2: "t2 = t1 \<or> (length t2 < length t1 \<and> CHR ''.'' \<notin> set t2 \<and> t2 \<noteq> [] \<and> take 1 t2 = take 1 t1)"
    using dot_after_cases [of t1] by (simp add: t2_def)
  have plain_head: "take 1 (dropWhile ws_or_plus (c # r)) = [c]" if "\<not> ws_or_plus c" for c r
    using that by simp
  show ?thesis
  proof (cases "dot_before t2 = t2")
    case False
    then obtain rr where t2d: "t2 = CHR ''.'' # rr" and db: "dot_before t2 = CHR ''0'' # t2"
      using dot_before_cases [of t2] by auto
    have "t2 = t1" using t2 t2d by auto
    moreover have "t1 = t" using t1 t2d \<open>t2 = t1\<close> by auto
    ultimately have tt: "t = CHR ''.'' # rr" using t2d by simp
    then have "take 1 (dropWhile ws_or_plus (bn_strip v)) = ''.''"
      by (simp add: t_def [symmetric] is_js_space_def)
    then have "take 1 (dropWhile ws_or_plus v) = ''.''" by (rule lead_dot_strip)
    moreover have "take 1 (dropWhile ws_or_plus (CHR ''0'' # t2)) = ''0''"
      by (simp add: is_js_space_def)
    moreover have "length t2 \<le> length v" using tv(1) \<open>t2 = t1\<close> \<open>t1 = t\<close> by simp
    ultimately show ?thesis using r db by (simp add: retry_measure_def)
  next
    case True
    have len: "length t2 < length v"
    proof -
      have "length t2 \<le> length v" using t1 t2 tv(1) by auto
      moreover have "t2 \<noteq> v" using assms r True by simp
      ultimately show ?thesis using t1 t2 tv by fastforce
    qed
    have ind: "take 1 (dropWhile ws_or_plus v) = ''.''" if dot: "take 1 (dropWhile ws_or_plus t2) = ''.''"
    proof (cases "t1 = t")
      case False
      with t1 obtain c r where c: "t1 = c # r" "\<not> ws_or_plus c" "c \<noteq> CHR ''.''" by auto
      from t2 c obtain r' where "t2 = c # r'" by (cases t2) auto
      with c dot plain_head show ?thesis by simp
    next
      case t1t: True
      show ?thesis
      proof (cases "t2 = t1")
        case True
        with t1t dot have "take 1 (dropWhile ws_or_plus (bn_strip v)) = ''.''" by (simp add: t_def)
        then show ?thesis by (rule lead_dot_strip)
      next
        case False
        with t2 have "CHR ''.'' \<notin> set t2" by simp
        then have "CHR ''.'' \<notin> set (dropWhile ws_or_plus t2)" by (meson set_dropWhileD)
        with dot show ?thesis by (cases "dropWhile ws_or_plus t2") auto
      qed
    qed
    show ?thesis using r True len ind by (auto simp: retry_measure_def)
  qed
qed

end
