(* ===== verification/NumberReaders.thy ===== *)
theory NumberReaders
  imports BigNumberLex
begin

text \<open>
  The two readers of numbers in strings that the script uses: \<open>new BigNumber(str)\<close> for
  the balances of the API (line 58 of \<^verbatim>\<open>src/snapshot/register-snapshot.ts\<close>) and
  unary \<open>+\<close> for the minimum holding of the configuration (line 27). \<open>bn_base\<close> is the
  constructor with a base, \<open>bignumber_of_string\<close> the constructor without one; both
  retry with a rewritten string as bignumber.js does, and terminate by the measures of
  \<open>BigNumberLex\<close>. \<open>string_to_number\<close> is JavaScript's \<open>ToNumber\<close> on a string.
\<close>

text \<open>
  \<open>new BigNumber(v, b)\<close> for a base \<open>b\<close> of a prefix: a leading minus sign, then the
  validity loop; an invalid string goes to \<open>parseNumeric(x, v, false, b)\<close>, which gives
  the special values or retries with the rewritten string.
\<close>

function bn_base :: "nat \<Rightarrow> string \<Rightarrow> numval" where
  "bn_base b v =
     (let neg = (take 1 v = ''-''); s = (if neg then tl v else v) in
      case base_norm b s of
        Some s' \<Rightarrow> base_number b neg s'
      | None \<Rightarrow>
          (case bn_special (bn_strip v) of
             Some x \<Rightarrow> x
           | None \<Rightarrow> (let v' = bn_retry b v in if v' \<noteq> v then bn_base b v' else NaN)))"
  by pat_completeness auto
termination
  by (relation "measure (\<lambda>(b, v). retry_measure v)") (auto intro: retry_decreases)

declare bn_base.simps [simp del]

text \<open>
  \<open>new BigNumber(str)\<close>: a string of the decimal pattern is read directly; otherwise
  \<open>parseNumeric(x, str, false)\<close> strips it, reads the special values, hands a prefixed
  literal to the constructor with its base, and retries with the stripped string when
  stripping changed it.
\<close>

function bignumber_of_string :: "string \<Rightarrow> numval" where
  "bignumber_of_string str =
     (if bn_decimal str \<noteq> NaN then bn_decimal str
      else (let s = bn_strip str in
            case bn_special s of
              Some x \<Rightarrow> x
            | None \<Rightarrow>
                (case base_prefix s of
                   Some (neg, b, ds) \<Rightarrow> bn_base b ((if neg then ''-'' else []) @ ds)
                 | None \<Rightarrow> if s \<noteq> str then bignumber_of_string s else NaN)))"
  by pat_completeness auto
termination
  by (relation "measure length") (auto intro: bn_strip_less)

declare bignumber_of_string.simps [simp del]

text \<open>
  JavaScript \<open>ToNumber\<close> of a string, used by the unary \<open>+\<close> of
  \<^verbatim>\<open>+mxpyConfig[env]['itheum-min-hold-amount']\<close>: the \<open>StringNumericLiteral\<close> grammar.
  White space around is ignored and the empty string is \<open>0\<close>; a \<open>StrDecimalLiteral\<close> is
  an optional sign before \<open>Infinity\<close> or an unsigned decimal; a
  \<open>NonDecimalIntegerLiteral\<close> (\<open>0x\<close>, \<open>0b\<close>, \<open>0o\<close>, any case) has no sign and no point.
\<close>

definition str_unsigned_decimal :: "string \<Rightarrow> numval" where
  "str_unsigned_decimal u = (if u = ''Infinity'' then PInf else parse_decimal u)"

definition nondecimal_literal :: "string \<Rightarrow> numval option" where
  "nondecimal_literal t =
     (case t of
        z # x # ds \<Rightarrow>
          (case base_of_char x of
             Some b \<Rightarrow>
               if z = CHR ''0'' \<and> ds \<noteq> [] \<and> list_all (\<lambda>c. in_alphabet b (to_lower c)) ds
               then Some (Dec (int (base_value b (map to_lower ds))) 0) else None
           | None \<Rightarrow> None)
      | _ \<Rightarrow> None)"

definition string_to_number :: "string \<Rightarrow> numval" where
  "string_to_number str =
     (let t = js_trim str in
      case t of
        [] \<Rightarrow> Dec 0 0
      | c # rest \<Rightarrow>
          (if c = CHR ''+'' then str_unsigned_decimal rest
           else if c = CHR ''-'' then bn_neg (str_unsigned_decimal rest)
           else (case nondecimal_literal t of Some x \<Rightarrow> x | None \<Rightarrow> str_unsigned_decimal t)))"

text \<open>Unary \<open>+\<close> on a configuration entry; a missing entry is \<open>undefined\<close>.\<close>

fun js_to_number :: "jval option \<Rightarrow> numval" where
  "js_to_number None = NaN"
| "js_to_number (Some JNull) = Dec 0 0"
| "js_to_number (Some (JBool b)) = Dec (if b then 1 else 0) 0"
| "js_to_number (Some (JNum m s)) = Dec m s"
| "js_to_number (Some (JStr str)) = string_to_number str"

abbreviation dec_char :: "char \<Rightarrow> bool" where
  "dec_char c \<equiv> is_digit c \<or> c = CHR ''.'' \<or> is_exp_char c \<or> c = CHR ''+'' \<or> c = CHR ''-''"

subsection \<open>Strings of the decimal pattern\<close>

lemma parse_unsigned_shape:
  assumes "parse_unsigned s \<noteq> NaN"
  shows "s \<noteq> [] \<and> (is_digit (hd s) \<or> hd s = CHR ''.'') \<and> (\<forall>c \<in> set s. is_digit c \<or> c = CHR ''.'')"
proof -
  define ip where "ip = takeWhile (\<lambda>c. c \<noteq> CHR ''.'') s"
  define rest where "rest = dropWhile (\<lambda>c. c \<noteq> CHR ''.'') s"
  have s: "s = ip @ rest" by (simp add: ip_def rest_def)
  have ok: "list_all is_digit ip" "list_all is_digit (drop 1 rest)" "ip @ drop 1 rest \<noteq> []"
    using assms unfolding parse_unsigned_def Let_def ip_def [symmetric] rest_def [symmetric]
    by (auto split: if_splits)
  have rest: "rest = [] \<or> rest = CHR ''.'' # drop 1 rest"
  proof (cases rest)
    case (Cons c r)
    then have "c = CHR ''.''" using hd_dropWhile [of "\<lambda>c. c \<noteq> CHR ''.''" s] by (simp add: rest_def)
    with Cons show ?thesis by simp
  qed simp
  have hd: "s \<noteq> [] \<and> (is_digit (hd s) \<or> hd s = CHR ''.'')"
  proof (cases ip)
    case Nil
    with ok(3) rest obtain r where "rest = CHR ''.'' # r" by auto
    with Nil s show ?thesis by simp
  next
    case (Cons c r)
    with ok(1) s show ?thesis by simp
  qed
  have "set rest \<subseteq> insert (CHR ''.'') (set (drop 1 rest))"
  proof (cases rest)
    case (Cons c r)
    with rest show ?thesis by auto
  qed simp
  then have "\<forall>c \<in> set s. is_digit c \<or> c = CHR ''.''"
    using ok(1,2) s by (auto simp: list_all_iff)
  with hd show ?thesis by blast
qed

lemma parse_exponent_chars:
  "parse_exponent r = Some k \<Longrightarrow> \<forall>c \<in> set r. is_digit c \<or> c = CHR ''+'' \<or> c = CHR ''-''"
  by (cases r) (auto simp: parse_exponent_def digits_int_def list_all_iff split: if_splits)

lemma parse_decimal_shape:
  assumes "parse_decimal u \<noteq> NaN"
  shows "u \<noteq> [] \<and> (is_digit (hd u) \<or> hd u = CHR ''.'') \<and> (\<forall>c \<in> set u. dec_char c)"
proof -
  let ?m = "takeWhile (\<lambda>c. \<not> is_exp_char c) u" and ?r = "dropWhile (\<lambda>c. \<not> is_exp_char c) u"
  have u: "u = ?m @ ?r" by simp
  have m: "parse_unsigned ?m \<noteq> NaN"
    using assms by (auto simp: parse_decimal_def Let_def split: if_splits option.splits)
  have r: "\<forall>c \<in> set ?r. dec_char c"
  proof (cases ?r)
    case (Cons e r')
    then have e: "is_exp_char e" by (metis hd_dropWhile list.distinct(1) list.sel(1))
    from Cons assms obtain k where "parse_exponent r' = Some k"
      by (auto simp: parse_decimal_def Let_def split: option.splits)
    with Cons e show ?thesis by (auto dest: parse_exponent_chars)
  qed (simp del: dropWhile_eq_Nil_conv)
  from parse_unsigned_shape [OF m]
  have mne: "?m \<noteq> []" and mhd: "is_digit (hd ?m) \<or> hd ?m = CHR ''.''"
    and mset: "\<forall>c \<in> set ?m. dec_char c" by auto
  have "hd u = hd ?m" using mne by (metis u hd_append2)
  moreover have "set u = set ?m \<union> set ?r" by (metis u set_append)
  moreover have "u \<noteq> []" using mne by (metis u Nil_is_append_conv)
  ultimately show ?thesis using mhd mset r by auto
qed

lemma bn_decimal_shape:
  assumes "bn_decimal u \<noteq> NaN"
  shows "u \<noteq> [] \<and> (hd u = CHR ''-'' \<or> is_digit (hd u) \<or> hd u = CHR ''.'') \<and> (\<forall>c \<in> set u. dec_char c)"
proof (cases u)
  case (Cons c rest)
  show ?thesis
  proof (cases "c = CHR ''-''")
    case True
    with assms Cons have "parse_decimal rest \<noteq> NaN" by (auto simp: bn_decimal_def)
    with True Cons show ?thesis by (auto dest: parse_decimal_shape)
  next
    case False
    with assms Cons have "parse_decimal u \<noteq> NaN" by (simp add: bn_decimal_def)
    then show ?thesis by (auto dest: parse_decimal_shape)
  qed
qed (use assms in \<open>simp add: bn_decimal_def\<close>)

lemma char_eq_nat: "c = d \<longleftrightarrow> (of_char c :: nat) = of_char d"
  by (simp add: of_char_eq_iff)

lemma dec_char_plain:
  assumes "dec_char c"
  shows "\<not> is_js_space c \<and> base_of_char c = None \<and> c \<noteq> CHR ''I'' \<and> c \<noteq> CHR ''N''"
  using assms unfolding is_digit_def is_js_space_def is_exp_char_def base_of_char_def
  by (auto simp: char_eq_nat)

lemma in_alphabet_plain:
  assumes "in_alphabet b c"
  shows "is_word_char c \<and> \<not> is_js_space c \<and> c \<noteq> CHR ''.'' \<and> c \<noteq> CHR ''-'' \<and> to_lower c = c"
proof -
  have r: "(48::nat) \<le> of_char c \<and> of_char c \<le> (57::nat) \<or> (97::nat) \<le> of_char c \<and> of_char c \<le> (122::nat)"
    using assms by (auto simp: in_alphabet_def is_digit_def)
  have "is_word_char c" using r by (auto simp: is_word_char_def is_digit_def is_alpha_def)
  moreover have "\<not> is_js_space c \<and> c \<noteq> CHR ''.'' \<and> c \<noteq> CHR ''-''"
    using r unfolding is_js_space_def by (auto simp: char_eq_nat)
  moreover have "to_lower c = c" using r by (auto simp: to_lower_def)
  ultimately show ?thesis by blast
qed

lemma not_dec_NaN: "c \<in> set u \<Longrightarrow> \<not> dec_char c \<Longrightarrow> bn_decimal u = NaN"
  using bn_decimal_shape [of u] by blast

lemma bn_strip_id:
  assumes "u \<noteq> []" "\<not> is_js_space (hd u)" "hd u \<noteq> CHR ''+''" "\<not> is_js_space (last u)"
  shows "bn_strip u = u"
proof -
  have "dropWhile is_js_space u = u" using assms(1,2) by (cases u) auto
  moreover have "lead_plus u = u" using assms(1,3) by (cases u) (auto simp: lead_plus_def split: list.split)
  ultimately show ?thesis using js_trim_id [OF assms(1,2,4)] by (simp add: bn_strip_def js_trim_def)
qed

lemma base_prefix_None:
  assumes "\<forall>c \<in> set u. base_of_char c = None"
  shows "base_prefix u = None"
proof -
  define t where "t = (if take 1 u = ''-'' then tl u else u)"
  have "set t \<subseteq> set u" by (cases u) (auto simp: t_def)
  with assms have t: "\<forall>c \<in> set t. base_of_char c = None" by blast
  have "(case t of z # x # ds \<Rightarrow> (case base_of_char x of Some b \<Rightarrow> if z = CHR ''0'' \<and> ds \<noteq> [] \<and>
            is_word_char (hd ds) \<and> list_all (\<lambda>c. is_word_char c \<or> c = CHR ''.'') ds
          then Some (take 1 u = ''-'', b, ds) else None | None \<Rightarrow> None) | _ \<Rightarrow> None) = None"
  proof (cases t)
    case (Cons z r)
    with t show ?thesis by (cases r) auto
  qed simp
  then show ?thesis unfolding base_prefix_def Let_def t_def .
qed

lemma nondecimal_literal_None:
  assumes "\<forall>c \<in> set u. base_of_char c = None"
  shows "nondecimal_literal u = None"
proof (cases u)
  case (Cons z r)
  with assms show ?thesis by (cases r) (auto simp: nondecimal_literal_def)
qed (simp add: nondecimal_literal_def)

lemma bn_special_None:
  assumes "CHR ''I'' \<notin> set u" "CHR ''N'' \<notin> set u"
  shows "bn_special u = None"
proof -
  have "CHR ''I'' \<in> set ''Infinity''" "CHR ''I'' \<in> set ''-Infinity''"
       "CHR ''N'' \<in> set ''NaN''" "CHR ''N'' \<in> set ''-NaN''"
    by (simp_all only: list.set insert_iff simp_thms)
  with assms have "u \<noteq> ''Infinity'' \<and> u \<noteq> ''-Infinity'' \<and> u \<noteq> ''NaN'' \<and> u \<noteq> ''-NaN''" by blast
  then show ?thesis unfolding bn_special_def by simp
qed

lemma decimal_string_facts:
  assumes "bn_decimal u \<noteq> NaN"
  shows "bn_strip u = u \<and> js_trim u = u \<and> base_prefix u = None \<and> bn_special u = None \<and>
         nondecimal_literal u = None"
proof -
  from bn_decimal_shape [OF assms] have ne: "u \<noteq> []"
    and hd: "hd u = CHR ''-'' \<or> is_digit (hd u) \<or> hd u = CHR ''.''" and all: "\<forall>c \<in> set u. dec_char c"
    by auto
  have plain: "\<forall>c \<in> set u. \<not> is_js_space c \<and> base_of_char c = None \<and> c \<noteq> CHR ''I'' \<and> c \<noteq> CHR ''N''"
    using all dec_char_plain by blast
  have hws: "\<not> is_js_space (hd u)" and lws: "\<not> is_js_space (last u)"
    using plain ne by simp_all
  have "hd u \<noteq> CHR ''+''" using hd unfolding is_digit_def by (auto simp: char_eq_nat)
  then have "bn_strip u = u" using bn_strip_id ne hws lws by blast
  moreover have "base_prefix u = None" using plain by (intro base_prefix_None) blast
  moreover have "nondecimal_literal u = None" using plain by (intro nondecimal_literal_None) blast
  moreover have "bn_special u = None" using plain by (intro bn_special_None) blast+
  ultimately show ?thesis using js_trim_id [OF ne hws lws] by blast
qed

lemma bignumber_of_string_decimal: "bn_decimal str \<noteq> NaN \<Longrightarrow> bignumber_of_string str = bn_decimal str"
  by (subst bignumber_of_string.simps) simp

lemma bignumber_of_string_fallback:
  "bn_decimal str = NaN \<Longrightarrow>
   bignumber_of_string str =
     (case bn_special (bn_strip str) of
        Some x \<Rightarrow> x
      | None \<Rightarrow>
          (case base_prefix (bn_strip str) of
             Some (neg, b, ds) \<Rightarrow> bn_base b ((if neg then ''-'' else []) @ ds)
           | None \<Rightarrow> if bn_strip str \<noteq> str then bignumber_of_string (bn_strip str) else NaN))"
  by (subst bignumber_of_string.simps) (simp add: Let_def)

subsection \<open>Both readers on a decimal literal or an infinity\<close>

lemma specials_plain:
  "parse_decimal ''Infinity'' = NaN" "\<forall>c \<in> set ''Infinity''. base_of_char c = None"
  "bn_decimal ''Infinity'' = NaN" "bn_decimal ''-Infinity'' = NaN" "is_word_char CHR ''I''"
  by (simp_all add: base_of_char_def bn_decimal_def parse_decimal_def parse_unsigned_def is_exp_char_def
      is_digit_def is_word_char_def is_alpha_def Let_def)

lemma str_unsigned_parse: "parse_decimal u \<noteq> NaN \<Longrightarrow> str_unsigned_decimal u = parse_decimal u"
  using specials_plain(1) by (auto simp: str_unsigned_decimal_def)

lemma bn_decimal_pos: "bn_decimal u \<noteq> NaN \<Longrightarrow> take 1 u \<noteq> ''-'' \<Longrightarrow> bn_decimal u = parse_decimal u"
  by (cases u) (auto simp: bn_decimal_def)

lemma bn_decimal_hd:
  "bn_decimal u \<noteq> NaN \<Longrightarrow> u \<noteq> [] \<and> hd u \<noteq> CHR ''+'' \<and> (hd u \<noteq> CHR ''-'' \<longrightarrow> is_word_char (hd u) \<or> hd u = CHR ''.'')"
  using bn_decimal_shape [of u] unfolding is_digit_def is_word_char_def by (auto simp: char_eq_nat)

text \<open>What \<open>js_trim\<close> leaves is what \<open>bn_strip\<close> leaves, up to a \<open>+\<close> before a word.\<close>

lemma bn_strip_trim:
  assumes "js_trim str = u" "u = [] \<or> hd u \<noteq> CHR ''+''"
  shows "bn_strip str = u"
proof (cases "lead_plus (dropWhile is_js_space str) = dropWhile is_js_space str")
  case True
  with assms(1) show ?thesis by (simp add: bn_strip_def js_trim_def)
next
  case False
  then obtain d r where l: "dropWhile is_js_space str = CHR ''+'' # d # r"
    using lead_plus_cases [of "dropWhile is_js_space str"] by auto
  have "js_trim str = rev (dropWhile is_js_space (rev (CHR ''+'' # d # r)))"
    by (simp only: js_trim_def l)
  also have "\<dots> = CHR ''+'' # rev (dropWhile is_js_space (rev (d # r)))"
    by (rule rtrim_Cons) (simp add: is_js_space_def)
  finally show ?thesis using assms by simp
qed

lemma bn_strip_trim_plus:
  assumes "js_trim str = CHR ''+'' # u" "u \<noteq> []" "is_word_char (hd u) \<or> hd u = CHR ''.''"
  shows "bn_strip str = u"
proof -
  obtain w where w: "dropWhile is_js_space str = CHR ''+'' # w"
    using assms(1) rtrim_head [of is_js_space "dropWhile is_js_space str"] by (auto simp: js_trim_def)
  have "js_trim str = rev (dropWhile is_js_space (rev (CHR ''+'' # w)))"
    by (simp only: js_trim_def w)
  also have "\<dots> = CHR ''+'' # rev (dropWhile is_js_space (rev w))"
    by (rule rtrim_Cons) (simp add: is_js_space_def)
  finally have u: "rev (dropWhile is_js_space (rev w)) = u" using assms(1) by simp
  with assms(2) obtain w' where w': "w = hd u # w'"
    using rtrim_head [of is_js_space w "hd u" "tl u"] by auto
  have "lead_plus (CHR ''+'' # w) = w" using assms(3) w' by (simp add: lead_plus_def)
  with w u show ?thesis by (simp add: bn_strip_def)
qed

lemma not_dec_parse: "c \<in> set u \<Longrightarrow> \<not> dec_char c \<Longrightarrow> parse_decimal u = NaN"
  using parse_decimal_shape [of u] by blast

lemma string_to_number_literal:
  assumes t: "js_trim str = u \<or> (js_trim str = CHR ''+'' # u \<and> take 1 u \<noteq> ''-'')"
    and u: "bn_decimal u \<noteq> NaN \<or> u = ''Infinity'' \<or> u = ''-Infinity''"
  shows "string_to_number str =
           (if u = ''Infinity'' then PInf else if u = ''-Infinity'' then NInf else bn_decimal u)"
  using t
proof
  assume tu: "js_trim str = u"
  from u consider (inf) "u = ''Infinity''" | (ninf) "u = ''-Infinity''" | (dec) "bn_decimal u \<noteq> NaN"
    by blast
  then show ?thesis
  proof cases
    case inf
    then have "nondecimal_literal u = None" using specials_plain(2) by (simp add: nondecimal_literal_None)
    with tu inf show ?thesis by (simp add: string_to_number_def str_unsigned_decimal_def)
  next
    case ninf
    with tu show ?thesis by (simp add: string_to_number_def str_unsigned_decimal_def)
  next
    case dec
    have nd: "nondecimal_literal u = None" using decimal_string_facts [OF dec] by blast
    have not: "u \<noteq> ''Infinity'' \<and> u \<noteq> ''-Infinity''" using dec specials_plain(3,4) by auto
    obtain c rest where ucr: "u = c # rest" using bn_decimal_hd [OF dec] by (cases u) auto
    have rhs: "(if u = ''Infinity'' then PInf else if u = ''-Infinity'' then NInf else bn_decimal u) = bn_decimal u"
      using not by simp
    have "string_to_number str = bn_decimal u"
    proof (cases "c = CHR ''-''")
      case True
      with dec ucr have "parse_decimal rest \<noteq> NaN" "bn_decimal u = bn_neg (parse_decimal rest)"
        by (auto simp: bn_decimal_def)
      moreover have "rest \<noteq> ''Infinity''" using not ucr True by simp
      ultimately show ?thesis using tu ucr True by (simp add: string_to_number_def str_unsigned_parse)
    next
      case False
      have "c \<noteq> CHR ''+''" using bn_decimal_hd [OF dec] ucr by simp
      moreover have "bn_decimal u = parse_decimal u" using ucr False by (simp add: bn_decimal_def)
      ultimately show ?thesis using tu ucr False nd dec by (simp add: string_to_number_def str_unsigned_parse)
    qed
    with rhs show ?thesis by simp
  qed
next
  assume tp: "js_trim str = CHR ''+'' # u \<and> take 1 u \<noteq> ''-''"
  then have sn: "string_to_number str = str_unsigned_decimal u" by (simp add: string_to_number_def)
  from u consider (inf) "u = ''Infinity''" | (dec) "bn_decimal u \<noteq> NaN" using tp by auto
  then show ?thesis
  proof cases
    case inf
    with sn show ?thesis by (simp add: str_unsigned_decimal_def)
  next
    case dec
    have not: "u \<noteq> ''Infinity'' \<and> u \<noteq> ''-Infinity''" using dec specials_plain(3,4) by auto
    have "bn_decimal u = parse_decimal u" using tp by (intro bn_decimal_pos [OF dec]) blast
    with sn not dec show ?thesis by (simp add: str_unsigned_parse)
  qed
qed

lemma bignumber_of_string_literal:
  assumes t: "js_trim str = u \<or> (js_trim str = CHR ''+'' # u \<and> take 1 u \<noteq> ''-'')"
    and u: "bn_decimal u \<noteq> NaN \<or> u = ''Infinity'' \<or> u = ''-Infinity''"
  shows "bignumber_of_string str =
           (if u = ''Infinity'' then PInf else if u = ''-Infinity'' then NInf else bn_decimal u)"
proof (cases "bn_decimal str = NaN")
  case False
  have "js_trim str = str" using decimal_string_facts [OF False] by blast
  moreover have "hd str \<noteq> CHR ''+''" using bn_decimal_hd [OF False] by blast
  ultimately have su: "str = u" using t by auto
  with False specials_plain(3,4) have "u \<noteq> ''Infinity'' \<and> u \<noteq> ''-Infinity''" by auto
  with su False show ?thesis by (simp add: bignumber_of_string_decimal)
next
  case True
  have strip: "bn_strip str = u"
    using t
  proof
    assume tu: "js_trim str = u"
    have "u = [] \<or> hd u \<noteq> CHR ''+''" using u bn_decimal_hd by auto
    with tu show ?thesis by (rule bn_strip_trim)
  next
    assume tp: "js_trim str = CHR ''+'' # u \<and> take 1 u \<noteq> ''-''"
    have "u \<noteq> [] \<and> (is_word_char (hd u) \<or> hd u = CHR ''.'')"
    proof (cases "bn_decimal u = NaN")
      case True
      with u tp have "u = ''Infinity''" by auto
      with specials_plain(5) show ?thesis by simp
    next
      case False
      with tp bn_decimal_hd [OF False] show ?thesis by (cases u) auto
    qed
    with tp show ?thesis using bn_strip_trim_plus by blast
  qed
  from u consider (inf) "u = ''Infinity''" | (ninf) "u = ''-Infinity''" | (dec) "bn_decimal u \<noteq> NaN"
    by blast
  then show ?thesis
  proof cases
    case inf
    with True strip show ?thesis by (simp add: bignumber_of_string_fallback bn_special_def)
  next
    case ninf
    with True strip show ?thesis by (simp add: bignumber_of_string_fallback bn_special_def)
  next
    case dec
    have f: "bn_special u = None" "base_prefix u = None" using decimal_string_facts [OF dec] by blast+
    have "u \<noteq> str" using dec True by auto
    moreover have "u \<noteq> ''Infinity'' \<and> u \<noteq> ''-Infinity''" using dec specials_plain(3,4) by auto
    ultimately show ?thesis
      using True strip f by (simp add: bignumber_of_string_fallback bignumber_of_string_decimal [OF dec])
  qed
qed

lemma hex_literals:
  assumes "hs \<noteq> []" "list_all (in_alphabet 16) hs"
  shows "bignumber_of_string (''0x'' @ hs) = Dec (int (base_value 16 hs)) 0 \<and>
         bignumber_of_string (''-0x'' @ hs) = Dec (- int (base_value 16 hs)) 0 \<and>
         string_to_number (''0x'' @ hs) = Dec (int (base_value 16 hs)) 0 \<and>
         string_to_number (''-0x'' @ hs) = NaN"
proof -
  have hx: "\<forall>c \<in> set hs. is_word_char c \<and> \<not> is_js_space c \<and> c \<noteq> CHR ''.'' \<and> c \<noteq> CHR ''-'' \<and> to_lower c = c"
    using assms(2) in_alphabet_plain by (auto simp: list_all_iff)
  have hd: "hd hs \<in> set hs" and lst: "last hs \<in> set hs" using assms(1) by simp_all
  have x: "\<not> dec_char (CHR ''x'')" by (simp add: is_digit_def is_exp_char_def)
  have nd1: "bn_decimal (''0x'' @ hs) = NaN" by (rule not_dec_NaN [OF _ x]) simp
  have nd2: "bn_decimal (''-0x'' @ hs) = NaN" by (rule not_dec_NaN [OF _ x]) simp
  have np: "parse_decimal (''0x'' @ hs) = NaN" by (rule not_dec_parse [OF _ x]) simp
  have st1: "bn_strip (''0x'' @ hs) = ''0x'' @ hs"
    by (rule bn_strip_id) (use hx lst assms(1) in \<open>simp_all add: is_js_space_def\<close>)
  have st2: "bn_strip (''-0x'' @ hs) = ''-0x'' @ hs"
    by (rule bn_strip_id) (use hx lst assms(1) in \<open>simp_all add: is_js_space_def\<close>)
  have bp1: "base_prefix (''0x'' @ hs) = Some (False, 16, hs)"
    using assms hx hd by (simp add: base_prefix_def base_of_char_def list_all_iff)
  have bp2: "base_prefix (''-0x'' @ hs) = Some (True, 16, hs)"
    using assms hx hd by (simp add: base_prefix_def base_of_char_def list_all_iff)
  have nodot: "CHR ''.'' \<notin> set hs" using hx by blast
  have tw: "takeWhile (\<lambda>c. c \<noteq> CHR ''.'') hs = hs" using nodot by (subst takeWhile_eq_all_conv) blast
  have dw: "dropWhile (\<lambda>c. c \<noteq> CHR ''.'') hs = []" using nodot by (subst dropWhile_eq_Nil_conv) blast
  have norm: "base_norm 16 hs = Some hs" using assms(2) by (simp add: base_norm_def base_chars_ok_def tw dw)
  have num: "base_number 16 neg hs = Dec (if neg then - int (base_value 16 hs) else int (base_value 16 hs)) 0" for neg
    using nodot by (simp add: base_number_def tw dw)
  have minus: "take 1 hs \<noteq> ''-''" using assms(1) hx hd by (cases hs) auto
  have bb1: "bn_base 16 hs = Dec (int (base_value 16 hs)) 0"
    using minus by (subst bn_base.simps) (simp add: Let_def norm num)
  have bb2: "bn_base 16 (CHR ''-'' # hs) = Dec (- int (base_value 16 hs)) 0"
    by (subst bn_base.simps) (simp add: Let_def norm num)
  have sp: "bn_special (''0x'' @ hs) = None" "bn_special (''-0x'' @ hs) = None"
    by (simp_all add: bn_special_def)
  have b1: "bignumber_of_string (''0x'' @ hs) = Dec (int (base_value 16 hs)) 0"
    using nd1 st1 sp(1) bp1 bb1 by (simp add: bignumber_of_string_fallback)
  have b2: "bignumber_of_string (''-0x'' @ hs) = Dec (- int (base_value 16 hs)) 0"
    using nd2 st2 sp(2) bp2 bb2 by (simp add: bignumber_of_string_fallback)
  have tr1: "js_trim (''0x'' @ hs) = ''0x'' @ hs"
    by (rule js_trim_id) (use hx lst assms(1) in \<open>simp_all add: is_js_space_def\<close>)
  have tr2: "js_trim (''-0x'' @ hs) = ''-0x'' @ hs"
    by (rule js_trim_id) (use hx lst assms(1) in \<open>simp_all add: is_js_space_def\<close>)
  have low: "map to_lower hs = hs" using hx by (simp add: map_idI)
  have lowok: "list_all (\<lambda>c. in_alphabet 16 (to_lower c)) hs" using assms(2) hx by (simp add: list_all_iff)
  have s1: "string_to_number (''0x'' @ hs) = Dec (int (base_value 16 hs)) 0"
    using tr1 assms(1) lowok low by (simp add: string_to_number_def nondecimal_literal_def base_of_char_def)
  have s2: "string_to_number (''-0x'' @ hs) = NaN"
    using tr2 np by (simp add: string_to_number_def str_unsigned_decimal_def)
  show ?thesis using b1 b2 s1 s2 by blast
qed

lemma digits_decimal:
  assumes "ds \<noteq> []" "list_all is_digit ds"
  shows "bn_decimal ds = Dec (int (digits_value ds)) 0 \<and> bignumber_of_string ds = Dec (int (digits_value ds)) 0"
proof -
  have nodot: "CHR ''.'' \<notin> set ds" using assms(2) by (auto simp: list_all_iff is_digit_def)
  have noexp: "\<forall>c \<in> set ds. \<not> is_exp_char c" using assms(2) by (auto simp: list_all_iff dest: is_digit_not_exp)
  have tw: "takeWhile (\<lambda>c. c \<noteq> CHR ''.'') ds = ds" using nodot by (subst takeWhile_eq_all_conv) blast
  have dw: "dropWhile (\<lambda>c. c \<noteq> CHR ''.'') ds = []" using nodot by (subst dropWhile_eq_Nil_conv) blast
  have p: "parse_decimal ds = Dec (int (digits_value ds)) 0"
    using assms by (simp add: parse_decimal_no_exp [OF noexp] parse_unsigned_def tw dw)
  have "bn_decimal ds = Dec (int (digits_value ds)) 0"
    using assms p by (cases ds) (auto simp: bn_decimal_def is_digit_def)
  then show ?thesis by (simp add: bignumber_of_string_decimal)
qed

subsection \<open>Properties of the number readers\<close>

text \<open>
  Unary \<open>+\<close> (JavaScript's \<open>ToNumber\<close>, used for the configured minimum holding)
  and \<open>new BigNumber\<close> (used for the balances of the API) read every string whose
  trimmed text is a decimal literal with an optional minus sign, or \<open>Infinity\<close> or
  \<open>-Infinity\<close>, optionally after a \<open>+\<close>, to the same number: its decimal value or the
  infinity. White space around the text and a leading \<open>+\<close> are ignored by both.
\<close>

lemma unary_plus_matches_bignumber:
  assumes "js_trim str = u \<or> (js_trim str = CHR ''+'' # u \<and> take 1 u \<noteq> ''-'')"
    and "bn_decimal u \<noteq> NaN \<or> u = ''Infinity'' \<or> u = ''-Infinity''"
  shows "string_to_number str = bignumber_of_string str \<and>
         bignumber_of_string str =
           (if u = ''Infinity'' then PInf else if u = ''-Infinity'' then NInf else bn_decimal u)"
  using string_to_number_literal [OF assms] bignumber_of_string_literal [OF assms] by simp

text \<open>
  The literals of \<open>new BigNumber\<close>: a mantissa with an exponent is shifted by it,
  \<open>d e k = d \<cdot> 10^k\<close> and \<open>d e-k = d / 10^k\<close>; a hexadecimal literal \<open>0x\<close>h is read in
  base 16, also after a minus sign. Unary \<open>+\<close> reads \<open>0x\<close>h the same way but gives
  \<open>NaN\<close> for \<open>-0x\<close>h: JavaScript allows no sign before a non-decimal literal.
\<close>

lemma bignumber_literals:
  assumes "ds \<noteq> []" "list_all is_digit ds" "es \<noteq> []" "list_all is_digit es"
    and "hs \<noteq> []" "list_all (in_alphabet 16) hs"
  shows "num_value (bignumber_of_string (ds @ CHR ''e'' # es)) =
           Some (of_nat (digits_value ds) * 10 ^ digits_value es) \<and>
         num_value (bignumber_of_string (ds @ CHR ''e'' # CHR ''-'' # es)) =
           Some (of_nat (digits_value ds) / 10 ^ digits_value es) \<and>
         bignumber_of_string (''0x'' @ hs) = Dec (int (base_value 16 hs)) 0 \<and>
         bignumber_of_string (''-0x'' @ hs) = Dec (- int (base_value 16 hs)) 0 \<and>
         string_to_number (''0x'' @ hs) = Dec (int (base_value 16 hs)) 0 \<and>
         string_to_number (''-0x'' @ hs) = NaN"
proof -
  have nodot: "CHR ''.'' \<notin> set ds" using assms(2) by (auto simp: list_all_iff is_digit_def)
  have noexp: "\<forall>c \<in> set ds. \<not> is_exp_char c" using assms(2) by (auto simp: list_all_iff dest: is_digit_not_exp)
  have tw: "takeWhile (\<lambda>c. c \<noteq> CHR ''.'') ds = ds" using nodot by (subst takeWhile_eq_all_conv) blast
  have dw: "dropWhile (\<lambda>c. c \<noteq> CHR ''.'') ds = []" using nodot by (subst dropWhile_eq_Nil_conv) blast
  have mant: "parse_unsigned ds = Dec (int (digits_value ds)) 0"
    using assms(1,2) by (simp add: parse_unsigned_def tw dw)
  have e: "is_exp_char (CHR ''e'')" by (simp add: is_exp_char_def)
  have hd: "hd ds \<noteq> CHR ''-''" using assms(1,2) by (cases ds) (auto simp: is_digit_def)
  have pos: "parse_exponent es = Some (int (digits_value es))"
    using assms(3,4) by (cases es) (auto simp: parse_exponent_def digits_int_def is_digit_def)
  have neg: "parse_exponent (CHR ''-'' # es) = Some (- int (digits_value es))"
    using assms(3,4) by (simp add: parse_exponent_def digits_int_def)
  have dec: "bn_decimal (ds @ x) = parse_decimal (ds @ x)" for x
    using assms(1) hd by (cases ds) (simp_all add: bn_decimal_def)
  have p1: "parse_decimal (ds @ CHR ''e'' # es) = bn_shiftedBy (Dec (int (digits_value ds)) 0) (int (digits_value es))"
    by (simp add: parse_decimal_exp [OF noexp e] pos mant)
  have p2: "parse_decimal (ds @ CHR ''e'' # CHR ''-'' # es) =
      bn_shiftedBy (Dec (int (digits_value ds)) 0) (- int (digits_value es))"
    by (simp add: parse_decimal_exp [OF noexp e] neg mant)
  have b1: "bignumber_of_string (ds @ CHR ''e'' # es) = parse_decimal (ds @ CHR ''e'' # es)"
    using bignumber_of_string_decimal [of "ds @ CHR ''e'' # es"] dec p1 by simp
  have b2: "bignumber_of_string (ds @ CHR ''e'' # CHR ''-'' # es) = parse_decimal (ds @ CHR ''e'' # CHR ''-'' # es)"
    using bignumber_of_string_decimal [of "ds @ CHR ''e'' # CHR ''-'' # es"] dec p2 by simp
  have "num_value (bignumber_of_string (ds @ CHR ''e'' # es)) =
           Some (of_nat (digits_value ds) * 10 ^ digits_value es) \<and>
        num_value (bignumber_of_string (ds @ CHR ''e'' # CHR ''-'' # es)) =
           Some (of_nat (digits_value ds) / 10 ^ digits_value es)"
    by (simp add: b1 b2 p1 p2 bn_shiftedBy_value power_int_def)
  with hex_literals [OF assms(5,6)] show ?thesis by blast
qed

end
