(* ===== verification/Scanner.thy ===== *)
theory Scanner
  imports NumberReaders
begin

text \<open>
  The holder scanner of \<^verbatim>\<open>src/snapshot/register-snapshot.ts\<close> (lines 40--92 of
  \<open>main\<close> and the two pagination helpers). Candidates (\<open>SnapshotCandidate\<close>) become
  members (\<open>SnapshotMember\<close>); the scanner state is the pair of mutable locals
  \<open>members\<close> and \<open>seenAddresses\<close>. Each candidate is handled by a visit (the body
  of the \<open>forEach\<close>), a page by a fold of visits, the pages by the \<open>for\<close> loop with
  its cap of ten and its early \<open>break\<close> on an empty page. The chain API is a function
  from requests to pages, so the loop's requests are explicit.
  The reference \<open>first_occurrences\<close> states, by list indices, which candidates a
  snapshot keeps; the fold of visits is proved to compute it. \<open>list_api\<close> models an
  endpoint that serves a list of holders by offset and page size, against which the
  holders a pass reads are computed.
\<close>

record candidate =
  address :: address
  balance :: string

record member =
  member_address :: address
  weight :: string

record scan_state =
  members :: "member list"
  seenAddresses :: "address set"

definition empty_scan :: scan_state where
  "empty_scan = \<lparr>members = [], seenAddresses = {}\<rparr>"

text \<open>The \<open>.map\<close> from a candidate to a member: the balance string becomes the weight.\<close>

definition to_member :: "candidate \<Rightarrow> member" where
  "to_member c = \<lparr>member_address = address c, weight = balance c\<rparr>"

subsection \<open>Visiting one candidate\<close>

definition satisfiesMinHoldAmount :: "nat \<Rightarrow> numval \<Rightarrow> member \<Rightarrow> bool" where
  "satisfiesMinHoldAmount decimals minHold m =
     bn_gte (bn_shiftedBy (bignumber_of_string (weight m)) (- int decimals)) minHold"

definition tokenHolderVisit :: "nat \<Rightarrow> numval \<Rightarrow> scan_state \<Rightarrow> member \<Rightarrow> scan_state" where
  "tokenHolderVisit decimals minHold st m =
     (let satisfies = satisfiesMinHoldAmount decimals minHold m in
      if member_address m \<notin> seenAddresses st \<and> satisfies
      then st\<lparr>seenAddresses := insert (member_address m) (seenAddresses st),
              members := members st @ [m]\<rparr>
      else st)"

definition sftHolderVisit :: "scan_state \<Rightarrow> member \<Rightarrow> scan_state" where
  "sftHolderVisit st m =
     (if member_address m \<notin> seenAddresses st
      then st\<lparr>seenAddresses := insert (member_address m) (seenAddresses st),
              members := members st @ [m]\<rparr>
      else st)"

subsection \<open>Visiting one page\<close>

definition tokenPage :: "nat \<Rightarrow> numval \<Rightarrow> scan_state \<Rightarrow> candidate list \<Rightarrow> scan_state" where
  "tokenPage decimals minHold st cands =
     foldl (tokenHolderVisit decimals minHold) st (map to_member cands)"

definition sftPage :: "scan_state \<Rightarrow> candidate list \<Rightarrow> scan_state" where
  "sftPage st cands = foldl sftHolderVisit st (map to_member cands)"

subsection \<open>Paginated requests\<close>

text \<open>
  \<^verbatim>\<open>tokens/${tokenId}/accounts?from=${from}&size=${perPage}\<close> and
  \<^verbatim>\<open>nfts/${nftId}/accounts?includeFlagged=true&from=${from}&size=${perPage}\<close>.
\<close>

datatype api_request = TokenAccounts jval nat nat | SftAccounts jval nat nat

type_synonym api = "api_request \<Rightarrow> candidate list"

definition perPage :: nat where
  "perPage = 1000"

definition getPaginatedTokenAccounts :: "api \<Rightarrow> jval \<Rightarrow> nat \<Rightarrow> candidate list" where
  "getPaginatedTokenAccounts provider tokenId page =
     provider (TokenAccounts tokenId ((page - 1) * perPage) perPage)"

definition getPaginatedSftAccounts :: "api \<Rightarrow> jval \<Rightarrow> nat \<Rightarrow> candidate list" where
  "getPaginatedSftAccounts provider nftId page =
     provider (SftAccounts nftId ((page - 1) * perPage) perPage)"

subsection \<open>The page loop\<close>

text \<open>
  \<^verbatim>\<open>for (let page = 1; page <= 10; page++)\<close>: fetch, stop on an empty page, otherwise
  handle the page and go on. The second component lists the pages requested, in order.
\<close>

function scan_pages ::
  "(nat \<Rightarrow> candidate list) \<Rightarrow> (scan_state \<Rightarrow> candidate list \<Rightarrow> scan_state) \<Rightarrow>
   nat \<Rightarrow> scan_state \<Rightarrow> nat list \<Rightarrow> scan_state \<times> nat list" where
  "scan_pages fetch handle page st fetched =
     (if page \<le> 10 then
        (let cands = fetch page in
         if cands = [] then (st, fetched @ [page])
         else scan_pages fetch handle (Suc page) (handle st cands) (fetched @ [page]))
      else (st, fetched))"
  by pat_completeness auto
termination
  by (relation "measure (\<lambda>(fetch, handle, page, st, fetched). 11 - page)") auto

declare scan_pages.simps [simp del]

definition tokenScan :: "api \<Rightarrow> jval \<Rightarrow> nat \<Rightarrow> numval \<Rightarrow> scan_state \<Rightarrow> scan_state \<times> nat list" where
  "tokenScan provider tokenId decimals minHold st =
     scan_pages (getPaginatedTokenAccounts provider tokenId) (tokenPage decimals minHold) 1 st []"

definition sftScan :: "api \<Rightarrow> jval \<Rightarrow> scan_state \<Rightarrow> scan_state \<times> nat list" where
  "sftScan provider nftId st =
     scan_pages (getPaginatedSftAccounts provider nftId) sftPage 1 st []"

text \<open>Both passes, from the empty state; the result and the pages each pass requested.\<close>

definition takeSnapshot ::
  "api \<Rightarrow> jval \<Rightarrow> nat \<Rightarrow> numval \<Rightarrow> jval \<Rightarrow> scan_state \<times> nat list \<times> nat list" where
  "takeSnapshot provider tokenId decimals minHold nftId =
     (let (st1, tokenPages) = tokenScan provider tokenId decimals minHold empty_scan;
          (st2, sftPages) = sftScan provider nftId st1
      in (st2, tokenPages, sftPages))"

subsection \<open>Reference specification\<close>

text \<open>
  A member is kept iff no earlier entry of the input has its address and its address
  was not seen before: the first occurrence of each address wins.
\<close>

definition first_occurrences_from :: "address set \<Rightarrow> member list \<Rightarrow> member list" where
  "first_occurrences_from S L =
     map (nth L) (filter (\<lambda>i. member_address (L ! i) \<notin> S \<union> member_address ` set (take i L))
                         [0..<length L])"

definition first_occurrences :: "member list \<Rightarrow> member list" where
  "first_occurrences L = first_occurrences_from {} L"

text \<open>The members a page loop visits: every page up to the first empty one, ten at most.\<close>

definition scanned :: "(nat \<Rightarrow> candidate list) \<Rightarrow> member list" where
  "scanned fetch = map to_member (concat (map fetch (takeWhile (\<lambda>p. fetch p \<noteq> []) [1..<11])))"

text \<open>
  The candidates a snapshot is built from, in the order the script visits them: the
  token holders that meet the threshold, then the SFT holders.
\<close>

definition snapshot_input :: "api \<Rightarrow> jval \<Rightarrow> nat \<Rightarrow> numval \<Rightarrow> jval \<Rightarrow> member list" where
  "snapshot_input provider tokenId decimals minHold nftId =
     filter (satisfiesMinHoldAmount decimals minHold) (scanned (getPaginatedTokenAccounts provider tokenId))
     @ scanned (getPaginatedSftAccounts provider nftId)"

text \<open>
  The scanner invariant: the recorded members have pairwise different addresses and
  \<open>seenAddresses\<close> is exactly the set of their addresses.
\<close>

definition scan_inv :: "scan_state \<Rightarrow> bool" where
  "scan_inv st \<longleftrightarrow>
     distinct (map member_address (members st)) \<and>
     seenAddresses st = member_address ` set (members st)"

text \<open>
  An endpoint that serves a list of holders in pages, as the \<open>from\<close> and \<open>size\<close>
  parameters of \<^verbatim>\<open>tokens/{id}/accounts\<close> and \<^verbatim>\<open>nfts/{id}/accounts\<close> do: the first
  \<open>from\<close> holders are skipped and at most \<open>size\<close> are returned.
\<close>

definition list_api :: "(jval \<Rightarrow> candidate list) \<Rightarrow> (jval \<Rightarrow> candidate list) \<Rightarrow> api" where
  "list_api T S r =
     (case r of
        TokenAccounts t f n \<Rightarrow> take n (drop f (T t))
      | SftAccounts t f n \<Rightarrow> take n (drop f (S t)))"

subsection \<open>Visits and folds against the reference\<close>

lemma first_occurrences_from_snoc:
  "first_occurrences_from S (L @ [x]) =
     first_occurrences_from S L @ (if member_address x \<in> S \<union> member_address ` set L then [] else [x])"
proof -
  let ?P = "\<lambda>L i. member_address (L ! i) \<notin> S \<union> member_address ` set (take i L)"
  have "filter (?P (L @ [x])) [0..<length L] = filter (?P L) [0..<length L]"
    by (rule filter_cong) (auto simp: nth_append)
  moreover have "map (nth (L @ [x])) (filter (?P L) [0..<length L]) = map (nth L) (filter (?P L) [0..<length L])"
    by (rule map_cong) (auto simp: nth_append)
  ultimately show ?thesis
    by (simp add: first_occurrences_from_def)
qed

lemma sftHolderVisit_fold:
  "foldl sftHolderVisit st L =
     st\<lparr>members := members st @ first_occurrences_from (seenAddresses st) L,
        seenAddresses := seenAddresses st \<union> member_address ` set L\<rparr>"
proof (induction L rule: rev_induct)
  case Nil
  then show ?case by (simp add: first_occurrences_from_def)
next
  case (snoc x L)
  then show ?case
    by (auto simp: sftHolderVisit_def first_occurrences_from_snoc insert_absorb)
qed

lemma tokenHolderVisit_sft:
  "tokenHolderVisit decimals minHold st m =
     (if satisfiesMinHoldAmount decimals minHold m then sftHolderVisit st m else st)"
  by (auto simp: tokenHolderVisit_def sftHolderVisit_def)

lemma tokenHolderVisit_fold:
  "foldl (tokenHolderVisit decimals minHold) st L =
     foldl sftHolderVisit st (filter (satisfiesMinHoldAmount decimals minHold) L)"
  by (induction L arbitrary: st) (auto simp: tokenHolderVisit_sft)

lemma scan_pages_eq:
  "scan_pages fetch handle p st acc =
     (foldl handle st (map fetch (takeWhile (\<lambda>q. fetch q \<noteq> []) [p..<11])),
      acc @ [p..<min 11 (p + Suc (length (takeWhile (\<lambda>q. fetch q \<noteq> []) [p..<11])))])"
proof (induction fetch handle p st acc rule: scan_pages.induct)
  case (1 fetch handle page st fetched)
  show ?case
  proof (cases "page \<le> 10")
    case False
    then show ?thesis by (simp add: scan_pages.simps [of fetch handle page st fetched])
  next
    case True
    show ?thesis
    proof (cases "fetch page = []")
      case True
      have u: "[page..<11] = page # [Suc page..<11]"
        using \<open>page \<le> 10\<close> by (intro upt_conv_Cons) simp
      have "takeWhile (\<lambda>q. fetch q \<noteq> []) [page..<11] = []"
        using True by (simp add: u)
      with True \<open>page \<le> 10\<close> show ?thesis
        by (simp add: scan_pages.simps [of fetch handle page st fetched])
    next
      case False
      let ?ne = "\<lambda>q. fetch q \<noteq> []"
      let ?L = "length (takeWhile ?ne [Suc page..<11])"
      have u: "[page..<11] = page # [Suc page..<11]"
        using \<open>page \<le> 10\<close> by (intro upt_conv_Cons) simp
      have tw: "takeWhile ?ne [page..<11] = page # takeWhile ?ne [Suc page..<11]"
        using False by (simp add: u)
      have up: "[page..<min 11 (page + Suc (Suc ?L))] = page # [Suc page..<min 11 (Suc page + Suc ?L)]"
      proof -
        have "page + Suc (Suc ?L) = Suc page + Suc ?L" by simp
        moreover have "page < min 11 (Suc page + Suc ?L)" using \<open>page \<le> 10\<close> by simp
        ultimately show ?thesis by (metis upt_conv_Cons)
      qed
      have step: "scan_pages fetch handle page st fetched =
            scan_pages fetch handle (Suc page) (handle st (fetch page)) (fetched @ [page])"
        using False \<open>page \<le> 10\<close> by (simp add: scan_pages.simps [of fetch handle page st fetched])
      have IH: "scan_pages fetch handle (Suc page) (handle st (fetch page)) (fetched @ [page]) =
          (foldl handle (handle st (fetch page)) (map fetch (takeWhile ?ne [Suc page..<11])),
           (fetched @ [page]) @ [Suc page..<min 11 (Suc page + Suc ?L)])"
        using "1.IH" [OF \<open>page \<le> 10\<close> refl False] .
      show ?thesis
        by (simp only: step IH tw up list.map foldl_Cons length_Cons append_assoc append_Cons append_Nil)
    qed
  qed
qed

lemma first_occurrences_from_append:
  "first_occurrences_from S (A @ B) =
     first_occurrences_from S A @ first_occurrences_from (S \<union> member_address ` set A) B"
proof (induction B rule: rev_induct)
  case Nil
  then show ?case by (simp add: first_occurrences_from_def)
next
  case (snoc x B)
  then show ?case
    by (simp add: first_occurrences_from_snoc flip: append_assoc) (auto simp: Un_assoc)
qed

lemma first_occurrences_from_addresses:
  "member_address ` set (first_occurrences_from S L) = member_address ` set L - S"
proof (induction L rule: rev_induct)
  case Nil
  then show ?case by (simp add: first_occurrences_from_def)
next
  case (snoc x L)
  then show ?case by (auto simp: first_occurrences_from_snoc)
qed

lemma first_occurrences_from_distinct:
  "distinct (map member_address (first_occurrences_from S L))"
proof (induction L rule: rev_induct)
  case Nil
  then show ?case by (simp add: first_occurrences_from_def)
next
  case (snoc x L)
  then show ?case
    using first_occurrences_from_addresses [of S L]
    by (auto simp: first_occurrences_from_snoc)
qed

lemma first_occurrences_from_first:
  assumes "m \<in> set (first_occurrences_from S L)"
  shows "\<exists>i < length L. L ! i = m \<and> member_address m \<notin> S \<and>
           (\<forall>j < i. member_address (L ! j) \<noteq> member_address m)"
proof -
  from assms obtain i where i: "i < length L" "L ! i = m"
    and fresh: "member_address (L ! i) \<notin> S \<union> member_address ` set (take i L)"
    by (auto simp: first_occurrences_from_def)
  have "\<forall>j < i. member_address (L ! j) \<noteq> member_address m"
  proof (intro allI impI)
    fix j assume "j < i"
    then have "L ! j \<in> set (take i L)" using i(1)
      by (auto simp: in_set_conv_nth intro!: exI [of _ j])
    then have "member_address (L ! j) \<in> member_address ` set (take i L)" by blast
    then show "member_address (L ! j) \<noteq> member_address m"
      using fresh i(2) by auto
  qed
  with i fresh show ?thesis by auto
qed

lemma tokenPage_fold:
  "tokenPage decimals minHold = (\<lambda>st cands. foldl (tokenHolderVisit decimals minHold) st (map to_member cands))"
  by (simp add: tokenPage_def fun_eq_iff)

lemma sftPage_fold:
  "sftPage = (\<lambda>st cands. foldl sftHolderVisit st (map to_member cands))"
  by (simp add: sftPage_def fun_eq_iff)

lemma tokenScan_state:
  "fst (tokenScan provider tokenId decimals minHold st) =
     foldl sftHolderVisit st
       (filter (satisfiesMinHoldAmount decimals minHold) (scanned (getPaginatedTokenAccounts provider tokenId)))"
  by (simp add: tokenScan_def scan_pages_eq tokenPage_fold foldl_nested_concat scanned_def
      map_concat tokenHolderVisit_fold filter_concat comp_def)

lemma sftScan_state:
  "fst (sftScan provider nftId st) = foldl sftHolderVisit st (scanned (getPaginatedSftAccounts provider nftId))"
  by (simp add: sftScan_def scan_pages_eq sftPage_fold foldl_nested_concat scanned_def map_concat)

lemma takeSnapshot_members_from:
  "members (fst (takeSnapshot provider tokenId decimals minHold nftId)) =
     first_occurrences_from {} (snapshot_input provider tokenId decimals minHold nftId)"
  by (simp add: takeSnapshot_def split_def sftScan_state tokenScan_state sftHolderVisit_fold
      empty_scan_def first_occurrences_from_append snapshot_input_def)

text \<open>
  C2: the two scanning passes compute the reference: the members of the snapshot are the
  first occurrences, by address, of the qualifying token holders followed by the SFT
  holders of every page the loops fetched.
\<close>

theorem takeSnapshot_members_eq:
  "members (fst (takeSnapshot provider tokenId decimals minHold nftId)) =
     first_occurrences (snapshot_input provider tokenId decimals minHold nftId)"
  by (simp add: takeSnapshot_members_from first_occurrences_def)

lemma scan_inv_empty: "scan_inv empty_scan"
  by (simp add: scan_inv_def empty_scan_def)

lemma sftHolderVisit_inv: "scan_inv st \<Longrightarrow> scan_inv (sftHolderVisit st m)"
  by (auto simp: scan_inv_def sftHolderVisit_def)

lemma tokenHolderVisit_inv: "scan_inv st \<Longrightarrow> scan_inv (tokenHolderVisit decimals minHold st m)"
  by (simp add: tokenHolderVisit_sft sftHolderVisit_inv)

lemma tokenPage_inv: "scan_inv st \<Longrightarrow> scan_inv (tokenPage decimals minHold st cands)"
  unfolding tokenPage_def by (rule foldl_invariant) (auto intro: tokenHolderVisit_inv)

lemma sftPage_inv: "scan_inv st \<Longrightarrow> scan_inv (sftPage st cands)"
  unfolding sftPage_def by (rule foldl_invariant) (auto intro: sftHolderVisit_inv)

lemma scan_pages_inv:
  assumes "scan_inv st" and "\<And>s cs. scan_inv s \<Longrightarrow> scan_inv (handle s cs)"
  shows "scan_inv (fst (scan_pages fetch handle p st acc))"
  unfolding scan_pages_eq fst_conv by (rule foldl_invariant) (use assms in auto)

text \<open>
  C1: after both passes no address occurs twice among the members, and the set of seen
  addresses is exactly the set of member addresses.
\<close>

theorem takeSnapshot_inv: "scan_inv (fst (takeSnapshot provider tokenId decimals minHold nftId))"
  by (auto simp: takeSnapshot_def split_def Let_def tokenScan_def sftScan_def
      intro!: scan_pages_inv scan_inv_empty tokenPage_inv sftPage_inv)

lemma scan_pages_requests:
  "\<exists>n. 1 \<le> n \<and> n \<le> 10 \<and> snd (scan_pages fetch handle 1 st []) = [1..<Suc n] \<and>
       (\<forall>p \<in> {1..<n}. fetch p \<noteq> []) \<and> (fetch n = [] \<or> n = 10)"
proof -
  let ?ne = "\<lambda>q. fetch q \<noteq> []"
  define L where "L = length (takeWhile ?ne [1..<11])"
  have L: "L \<le> 10" using takeWhile_upt_length_le [of ?ne 1 11] by (simp add: L_def)
  have "takeWhile ?ne [1..<11] = take L [1..<11]"
    unfolding L_def by (rule takeWhile_eq_take)
  also have "\<dots> = [1..<1 + L]"
    using L by (intro take_upt) simp
  finally have tw: "takeWhile ?ne [Suc 0..<11] = [Suc 0..<Suc L]" by simp
  define n where "n = min 10 (Suc L)"
  have pages: "snd (scan_pages fetch handle 1 st []) = [1..<Suc n]"
  proof -
    have e: "length (takeWhile ?ne [Suc 0..<11]) = L" by (simp add: L_def)
    show ?thesis by (simp add: scan_pages_eq n_def e)
  qed
  have before: "\<forall>p \<in> {1..<n}. fetch p \<noteq> []"
  proof
    fix p assume "p \<in> {1..<n}"
    then have "p \<in> set (takeWhile ?ne [1..<11])" by (simp add: tw n_def) linarith
    then show "fetch p \<noteq> []" by (rule set_takeWhileD [THEN conjunct2])
  qed
  have last: "fetch n = [] \<or> n = 10"
  proof (cases "L < 10")
    case True
    then have "\<not> ?ne ([1..<11] ! L)" unfolding L_def by (intro nth_length_takeWhile) (simp add: flip: L_def)
    with True show ?thesis by (simp add: n_def)
  next
    case False
    then show ?thesis by (simp add: n_def)
  qed
  have "1 \<le> n" "n \<le> 10" by (simp_all add: n_def)
  with pages before last show ?thesis by blast
qed


lemma satisfiesMinHoldAmount_value:
  "satisfiesMinHoldAmount decimals minHold m \<longleftrightarrow>
     (\<exists>v h. ext_value (bignumber_of_string (weight m)) = Some v \<and> ext_value minHold = Some h \<and>
            h \<le> xshift (- int decimals) v)"
  by (auto simp: satisfiesMinHoldAmount_def bn_gte_value bn_shiftedBy_ext_value)

text \<open>
  C4: a token holder is appended exactly when its address has not been seen and its
  balance shifted by the token's decimals is at least the minimum holding, compared as
  extended rationals (equality qualifies; a balance of \<open>Infinity\<close> passes every finite
  threshold); a balance or a threshold that is \<open>NaN\<close> never qualifies. Otherwise the state
  is unchanged.
\<close>

theorem tokenHolderVisit_threshold:
  "tokenHolderVisit decimals minHold st m =
     (if member_address m \<notin> seenAddresses st \<and>
         (\<exists>v h. ext_value (bignumber_of_string (weight m)) = Some v \<and> ext_value minHold = Some h \<and>
                h \<le> xshift (- int decimals) v)
      then st\<lparr>seenAddresses := insert (member_address m) (seenAddresses st),
              members := members st @ [m]\<rparr>
      else st)"
  by (simp add: tokenHolderVisit_def satisfiesMinHoldAmount_value)

subsection \<open>Pagination over a list of holders\<close>

lemma paged_takeWhile:
  assumes "1 \<le> a"
  shows "concat (map (\<lambda>p. take k (drop ((p - 1) * k) L))
                  (takeWhile (\<lambda>p. take k (drop ((p - 1) * k) L) \<noteq> []) [a..<11])) =
         take ((11 - a) * k) (drop ((a - 1) * k) L)"
  using assms
proof (induction "11 - a" arbitrary: a)
  case 0
  then show ?case by simp
next
  case (Suc j)
  let ?pg = "\<lambda>p. take k (drop ((p - 1) * k) L)"
  have u: "[a..<11] = a # [Suc a..<11]" using Suc.hyps(2) by (intro upt_conv_Cons) simp
  have split: "take ((11 - a) * k) (drop ((a - 1) * k) L) =
               ?pg a @ take ((11 - Suc a) * k) (drop ((Suc a - 1) * k) L)"
  proof -
    have "11 - a = Suc (11 - Suc a)" using Suc.hyps(2) by simp
    then have "(11 - a) * k = k + (11 - Suc a) * k" by simp
    moreover have "(a - 1) * k + k = (Suc a - 1) * k" using Suc.prems by (cases a) simp_all
    ultimately show ?thesis by (simp add: take_add add.commute)
  qed
  show ?case
  proof (cases "?pg a = []")
    case True
    then have "take ((11 - a) * k) (drop ((a - 1) * k) L) = []"
      using Suc.hyps(2) by (cases k) (auto simp: take_eq_Nil)
    with True show ?thesis by (auto simp: u)
  next
    case False
    have IH: "concat (map ?pg (takeWhile (\<lambda>p. ?pg p \<noteq> []) [Suc a..<11])) =
              take ((11 - Suc a) * k) (drop ((Suc a - 1) * k) L)"
      using Suc.hyps(1) [of "Suc a"] Suc.hyps(2) by simp
    have tw: "takeWhile (\<lambda>p. ?pg p \<noteq> []) [a..<11] = a # takeWhile (\<lambda>p. ?pg p \<noteq> []) [Suc a..<11]"
      by (simp only: u takeWhile.simps False not_False_eq_True if_True)
    show ?thesis by (simp only: tw list.map concat.simps IH split)
  qed
qed

lemma scanned_list_api:
  "scanned (getPaginatedTokenAccounts (list_api T S) t) = map to_member (take 10000 (T t)) \<and>
   scanned (getPaginatedSftAccounts (list_api T S) t) = map to_member (take 10000 (S t))"
proof -
  have "getPaginatedTokenAccounts (list_api T S) t = (\<lambda>p. take perPage (drop ((p - 1) * perPage) (T t)))"
    and "getPaginatedSftAccounts (list_api T S) t = (\<lambda>p. take perPage (drop ((p - 1) * perPage) (S t)))"
    by (simp_all add: fun_eq_iff getPaginatedTokenAccounts_def getPaginatedSftAccounts_def list_api_def)
  then show ?thesis
    using paged_takeWhile [of 1 perPage "T t"] paged_takeWhile [of 1 perPage "S t"]
    by (simp add: scanned_def perPage_def)
qed

text \<open>
  C7: against an endpoint that pages a list of holders, each pass reads exactly the first
  10000 holders of its list, without a gap or an overlap between pages: the snapshot is
  the first occurrences of the qualifying holders among the first 10000 token holders,
  followed by the first 10000 SFT holders. Holders further down either list are never
  read.
\<close>

theorem takeSnapshot_first_10000:
  "members (fst (takeSnapshot (list_api T S) tokenId decimals minHold nftId)) =
     first_occurrences (filter (satisfiesMinHoldAmount decimals minHold) (map to_member (take 10000 (T tokenId)))
                        @ map to_member (take 10000 (S nftId)))"
  by (simp add: takeSnapshot_members_from first_occurrences_def snapshot_input_def scanned_list_api)

end
