(* ===== verification/Helpers.thy ===== *)
theory Helpers
  imports Prelude
begin

text \<open>
  The helpers of \<^verbatim>\<open>src/snapshot/shared/helpers.ts\<close>: \<open>getArg\<close> and the batcher
  \<open>chunkArray\<close>. The batcher's \<open>while\<close> loop advances its index by \<open>chunk_size\<close>; with
  \<open>chunk_size = 0\<close> it never ends, so the loop is a \<^theory_text>\<open>partial_function (option)\<close>
  and its termination for a positive chunk_size is a theorem. \<open>chunks\<close> is the reference
  definition (take a chunk, recurse on the rest) that the loop is proved to compute.
\<close>

subsection \<open>Command-line arguments\<close>

text \<open>\<^verbatim>\<open>getArg(index) = process.argv.slice(2)[index]\<close>: \<open>undefined\<close> is \<open>None\<close>.\<close>

definition getArg :: "string list \<Rightarrow> nat \<Rightarrow> string option" where
  "getArg argv index = (let args = drop 2 argv in if index < length args then Some (args ! index) else None)"

subsection \<open>Array slices\<close>

text \<open>\<^verbatim>\<open>array.slice(start, end)\<close> for \<open>0 \<le> start \<le> end\<close>; an end past the array is cut.\<close>

definition js_slice :: "'a list \<Rightarrow> nat \<Rightarrow> nat \<Rightarrow> 'a list" where
  "js_slice xs start stop = take (stop - start) (drop start xs)"

subsection \<open>The batcher\<close>

partial_function (option) chunkArray_loop ::
  "'a list \<Rightarrow> nat \<Rightarrow> 'a list list \<Rightarrow> nat \<Rightarrow> 'a list list option" where
  "chunkArray_loop array chunk_size chunked index =
     (if index < length array
      then chunkArray_loop array chunk_size (chunked @ [js_slice array index (chunk_size + index)]) (index + chunk_size)
      else Some chunked)"

definition chunkArray :: "'a list \<Rightarrow> nat \<Rightarrow> 'a list list option" where
  "chunkArray array chunk_size = chunkArray_loop array chunk_size [] 0"

text \<open>The reference: a chunk of \<open>n\<close> elements, then the chunks of the rest.\<close>

function chunks :: "nat \<Rightarrow> 'a list \<Rightarrow> 'a list list" where
  "chunks n xs = (if xs = [] \<or> n = 0 then [] else take n xs # chunks n (drop n xs))"
  by pat_completeness auto
termination
  by (relation "measure (\<lambda>(n, xs). length xs)") auto

declare chunks.simps [simp del]

lemma chunks_Nil [simp]: "chunks n [] = []"
  by (simp add: chunks.simps)

lemma chunks_nonempty:
  "xs \<noteq> [] \<Longrightarrow> 0 < n \<Longrightarrow> chunks n xs = take n xs # chunks n (drop n xs)"
  by (simp add: chunks.simps [of n xs])

lemma js_slice_chunk: "js_slice xs i (n + i) = take n (drop i xs)"
  by (simp add: js_slice_def)

text \<open>
  The loop from index \<open>i\<close> appends the reference chunks of the rest of the array:
  induction on the distance \<open>length array - i\<close>, which every iteration shrinks.
\<close>

lemma chunkArray_loop_chunks:
  assumes "0 < chunk_size"
  shows "chunkArray_loop array chunk_size chunked i = Some (chunked @ chunks chunk_size (drop i array))"
proof (induction "length array - i" arbitrary: chunked i rule: less_induct)
  case less
  show ?case
  proof (cases "i < length array")
    case True
    have rest: "drop i array \<noteq> []" using True by simp
    have "chunkArray_loop array chunk_size chunked i =
          chunkArray_loop array chunk_size (chunked @ [take chunk_size (drop i array)]) (i + chunk_size)"
      using True by (simp add: chunkArray_loop.simps [of array chunk_size chunked i] js_slice_chunk)
    also have "\<dots> = Some ((chunked @ [take chunk_size (drop i array)]) @ chunks chunk_size (drop (i + chunk_size) array))"
      using True assms by (intro less) auto
    also have "\<dots> = Some (chunked @ chunks chunk_size (drop i array))"
      using rest assms by (simp add: chunks_nonempty [of "drop i array"] add.commute)
    finally show ?thesis .
  next
    case False
    then show ?thesis by (simp add: chunkArray_loop.simps [of array chunk_size chunked i])
  qed
qed

text \<open>With chunk_size 0 and a non-empty array the index never moves: the loop does not return.\<close>

lemma chunkArray_loop_size0:
  assumes ret: "chunkArray_loop array 0 chunked i = Some r"
  shows "length array \<le> i"
proof (rule chunkArray_loop.raw_induct [where P = "\<lambda>array chunk_size chunked i r. chunk_size = 0 \<longrightarrow> length array \<le> i",
      OF _ ret, simplified])
  fix f :: "'a list \<Rightarrow> nat \<Rightarrow> 'a list list \<Rightarrow> nat \<Rightarrow> 'a list list option" and array chunk_size chunked i r
  assume IH: "\<And>array chunk_size chunked i r. f array chunk_size chunked i = Some r \<Longrightarrow> chunk_size = 0 \<longrightarrow> length array \<le> i"
    and eq: "(if i < length array
              then f array chunk_size (chunked @ [js_slice array i (chunk_size + i)]) (i + chunk_size)
              else Some chunked) = Some r"
  show "chunk_size = 0 \<longrightarrow> length array \<le> i"
  proof
    assume "chunk_size = 0"
    show "length array \<le> i"
    proof (rule ccontr)
      assume "\<not> length array \<le> i"
      with eq \<open>chunk_size = 0\<close> have "f array 0 (chunked @ [js_slice array i i]) i = Some r" by simp
      with IH have "length array \<le> i" by blast
      with \<open>\<not> length array \<le> i\<close> show False by simp
    qed
  qed
qed

lemma chunkArray_Some_chunks:
  "0 < n \<Longrightarrow> chunkArray xs n = Some cs \<Longrightarrow> cs = chunks n xs"
  by (simp add: chunkArray_def chunkArray_loop_chunks)

lemma concat_chunks: "concat (chunks n xs) = (if n = 0 then [] else xs)"
proof (induction n xs rule: chunks.induct)
  case (1 n xs)
  then show ?case by (cases "xs = [] \<or> n = 0") (auto simp: chunks.simps [of n xs])
qed

lemma chunks_sizes:
  "c \<in> set (chunks n xs) \<Longrightarrow> c \<noteq> [] \<and> length c \<le> n"
proof (induction n xs rule: chunks.induct)
  case (1 n xs)
  then show ?case by (cases "xs = [] \<or> n = 0") (auto simp: chunks.simps [of n xs])
qed

lemma chunks_full:
  "c \<in> set (butlast (chunks n xs)) \<Longrightarrow> length c = n"
proof (induction n xs rule: chunks.induct)
  case (1 n xs)
  show ?case
  proof (cases "xs = [] \<or> n = 0")
    case True
    with "1.prems" show ?thesis by (simp add: chunks.simps [of n xs])
  next
    case False
    then have eq: "chunks n xs = take n xs # chunks n (drop n xs)" by (simp add: chunks.simps [of n xs])
    show ?thesis
    proof (cases "drop n xs = []")
      case True
      with "1.prems" eq show ?thesis by simp
    next
      case False
      with eq "1.prems" \<open>\<not> (xs = [] \<or> n = 0)\<close> "1.IH" show ?thesis
        by (auto simp: chunks_nonempty [of "drop n xs"] min_def)
    qed
  qed
qed

lemma map_length_chunks:
  "0 < n \<Longrightarrow> map length (chunks n xs) =
     replicate (length xs div n) n @ (if length xs mod n = 0 then [] else [length xs mod n])"
proof (induction n xs rule: chunks.induct)
  case (1 n xs)
  show ?case
  proof (cases "xs = []")
    case True
    then show ?thesis by simp
  next
    case False
    note eq = chunks_nonempty [OF False "1.prems"]
    show ?thesis
    proof (cases "length xs \<le> n")
      case True
      then have "drop n xs = []" by simp
      with True False "1.prems" show ?thesis
        by (cases "length xs = n") (simp_all add: eq)
    next
      case long: False
      have IH: "map length (chunks n (drop n xs)) =
          replicate ((length xs - n) div n) n @
          (if (length xs - n) mod n = 0 then [] else [(length xs - n) mod n])"
        using "1.IH" False "1.prems" by simp
      have d: "length xs div n = Suc ((length xs - n) div n)"
        using long "1.prems" by (simp add: le_div_geq)
      have m: "length xs mod n = (length xs - n) mod n"
        using long by (simp add: le_mod_geq)
      show ?thesis using long by (simp add: eq IH d m)
    qed
  qed
qed

subsection \<open>Properties of the batcher\<close>

text \<open>
  C8: for a positive batch size the batching loop returns, and it returns the reference
  chunks: the \<open>while\<close> loop of \<open>chunkArray\<close> computes \<open>chunks\<close>.
\<close>

theorem chunkArray_chunks: "0 < n \<Longrightarrow> chunkArray xs n = Some (chunks n xs)"
  by (simp add: chunkArray_def chunkArray_loop_chunks)

text \<open>
  C9: with batch size 0 and a non-empty list the batching loop never returns (the index
  is incremented by 0 on every iteration).
\<close>

theorem chunkArray_size0: "xs \<noteq> [] \<Longrightarrow> chunkArray xs 0 = None"
  using chunkArray_loop_size0 [of xs "[]" 0] by (cases "chunkArray xs 0") (auto simp: chunkArray_def)

text \<open>
  C10: batching loses and duplicates nothing and keeps the order: the batches concatenate
  back to the input; every batch is non-empty and holds at most \<open>n\<close> members, every
  batch but the last exactly \<open>n\<close>.
\<close>

theorem chunkArray_roundtrip:
  assumes "0 < n" and "chunkArray xs n = Some cs"
  shows "concat cs = xs \<and> (\<forall>c \<in> set cs. c \<noteq> [] \<and> length c \<le> n) \<and>
         (\<forall>c \<in> set (butlast cs). length c = n)"
proof -
  from assms have cs: "cs = chunks n xs" by (rule chunkArray_Some_chunks)
  show ?thesis
    using assms(1) by (simp add: cs concat_chunks chunks_sizes chunks_full)
qed

text \<open>
  C11: the batch sizes of a list of \<open>L\<close> members are \<open>L div n\<close> full batches followed by
  one batch of the remainder \<open>L mod n\<close> when it is not zero.
\<close>

theorem chunkArray_batch_sizes:
  "0 < n \<Longrightarrow> map_option (map length) (chunkArray xs n) =
     Some (replicate (length xs div n) n @ (if length xs mod n = 0 then [] else [length xs mod n]))"
  by (simp add: chunkArray_def chunkArray_loop_chunks map_length_chunks)

end
