(* ===== verification/Encoding.thy ===== *)
theory Encoding
  imports Scanner "HOL-Library.Word"
begin

text \<open>
  The contract-call payload that \<open>registerSnapshotInContract\<close>
  (\<^verbatim>\<open>src/snapshot/register-snapshot.ts\<close>, lines 150--154) builds with the SDK:
  \<^verbatim>\<open>registerMembersSnapshotBatch@<address>@<weight>@...\<close>, every argument in
  lower-case hexadecimal. An address argument is the 32-byte public key decoded from its
  bech32 form (\<open>Address.fromBech32\<close>; the decoder is a parameter, \<open>None\<close> when it
  throws); a weight argument is \<open>BigUIntValue\<close>: the weight string read as a
  bignumber, which must be a non-negative integer, encoded as its minimal big-endian
  bytes (zero is the empty string). The first failing entry, address before weight,
  aborts the whole call. \<open>hex_decode\<close> and \<open>bytes_to_nat\<close> are the decoders the
  contract applies; the round trip through them is proved.
\<close>

datatype submit_error =
    NetworkConfigFailed
  | InvalidMemberAddress address
  | InvalidWeight string
  | InvalidReceiver
  | BroadcastFailed nat

subsection \<open>Hexadecimal and big-endian encodings\<close>

definition hex_chars :: string where
  "hex_chars = ''0123456789abcdef''"

definition hex_digit :: "nat \<Rightarrow> char" where
  "hex_digit d = hex_chars ! d"

definition hex_byte :: "8 word \<Rightarrow> string" where
  "hex_byte b = [hex_digit (unat b div 16), hex_digit (unat b mod 16)]"

definition hex_of_bytes :: "8 word list \<Rightarrow> string" where
  "hex_of_bytes bs = concat (map hex_byte bs)"

fun biguint_bytes :: "nat \<Rightarrow> 8 word list" where
  "biguint_bytes n = (if n = 0 then [] else biguint_bytes (n div 256) @ [word_of_nat (n mod 256)])"

declare biguint_bytes.simps [simp del]

definition bytes_to_nat :: "8 word list \<Rightarrow> nat" where
  "bytes_to_nat bs = foldl (\<lambda>acc b. acc * 256 + unat b) 0 bs"

definition hex_value :: "char \<Rightarrow> nat option" where
  "hex_value c = (let i = length (takeWhile (\<lambda>x. x \<noteq> c) hex_chars) in if i < 16 then Some i else None)"

fun hex_decode :: "string \<Rightarrow> 8 word list option" where
  "hex_decode [] = Some []"
| "hex_decode [c] = None"
| "hex_decode (h # l # rest) =
     (case (hex_value h, hex_value l, hex_decode rest) of
        (Some a, Some b, Some bs) \<Rightarrow> Some (word_of_nat (16 * a + b) # bs)
      | _ \<Rightarrow> None)"

subsection \<open>Arguments and payload\<close>

definition pubkey_length :: nat where
  "pubkey_length = 32"

text \<open>\<open>new AddressValue(Address.fromBech32(entry.address))\<close>.\<close>

definition address_arg :: "(address \<Rightarrow> 8 word list option) \<Rightarrow> address \<Rightarrow> submit_error + string" where
  "address_arg fromBech32 a =
     (case fromBech32 a of
        Some pk \<Rightarrow> if length pk = pubkey_length then Inr (hex_of_bytes pk) else Inl (InvalidMemberAddress a)
      | None \<Rightarrow> Inl (InvalidMemberAddress a))"

text \<open>\<open>new BigUIntValue(entry.weight)\<close>: only non-negative integers are accepted.\<close>

definition biguint_of_string :: "string \<Rightarrow> nat option" where
  "biguint_of_string w =
     (case bignumber_of_string w of
        Dec m s \<Rightarrow> if 0 \<le> m \<and> 10 ^ s dvd m then Some (nat (m div 10 ^ s)) else None
      | _ \<Rightarrow> None)"

definition biguint_arg :: "string \<Rightarrow> submit_error + string" where
  "biguint_arg w =
     (case biguint_of_string w of
        None \<Rightarrow> Inl (InvalidWeight w)
      | Some n \<Rightarrow> Inr (hex_of_bytes (biguint_bytes n)))"

text \<open>The \<open>reduce\<close> over the entries: two arguments per entry, in order.\<close>

fun encode_args :: "(address \<Rightarrow> 8 word list option) \<Rightarrow> member list \<Rightarrow> submit_error + string list" where
  "encode_args fromBech32 [] = Inr []"
| "encode_args fromBech32 (e # es) =
     (case address_arg fromBech32 (member_address e) of
        Inl err \<Rightarrow> Inl err
      | Inr a \<Rightarrow>
          (case biguint_arg (weight e) of
             Inl err \<Rightarrow> Inl err
           | Inr w \<Rightarrow>
               (case encode_args fromBech32 es of
                  Inl err \<Rightarrow> Inl err
                | Inr rest \<Rightarrow> Inr (a # w # rest))))"

fun join_args :: "string list \<Rightarrow> string" where
  "join_args [] = []"
| "join_args [a] = a"
| "join_args (a # b # rest) = a @ ''@'' @ join_args (b # rest)"

text \<open>\<open>ContractCallPayloadBuilder.build()\<close>: the function name, then \<open>@\<close> and the
  joined arguments when they are not empty.\<close>

definition build_payload :: "string \<Rightarrow> string list \<Rightarrow> string" where
  "build_payload fname args = (let s = join_args args in if s = [] then fname else fname @ ''@'' @ s)"

definition registerFunction :: string where
  "registerFunction = ''registerMembersSnapshotBatch''"

definition registerPayload :: "(address \<Rightarrow> 8 word list option) \<Rightarrow> member list \<Rightarrow> submit_error + string" where
  "registerPayload fromBech32 entries =
     (case encode_args fromBech32 entries of
        Inl err \<Rightarrow> Inl err
      | Inr args \<Rightarrow> Inr (build_payload registerFunction args))"

subsection \<open>Round trips and lengths\<close>

lemma biguint_bytes_0 [simp]: "biguint_bytes 0 = []"
  by (simp add: biguint_bytes.simps)

lemma hex_value_digit: "d < 16 \<Longrightarrow> hex_value (hex_digit d) = Some d"
proof -
  assume d: "d < 16"
  have "distinct hex_chars" and "length hex_chars = 16" by (simp_all add: hex_chars_def)
  with d have "length (takeWhile (\<lambda>x. x \<noteq> hex_chars ! d) hex_chars) = d"
    by (intro takeWhile_nth_distinct) simp_all
  with d show ?thesis by (simp add: hex_value_def hex_digit_def)
qed

lemma hex_decode_hex_of_bytes: "hex_decode (hex_of_bytes bs) = Some bs"
proof (induction bs)
  case Nil
  then show ?case by (simp add: hex_of_bytes_def)
next
  case (Cons b bs)
  have "unat b < 2 ^ LENGTH(8)" by (rule unsigned_less)
  then have hi: "unat b div 16 < 16" and lo: "unat b mod 16 < 16" by simp_all
  have "16 * (unat b div 16) + unat b mod 16 = unat b" by simp
  then have "word_of_nat (16 * (unat b div 16) + unat b mod 16) = b" by simp
  with Cons hi lo show ?case
    by (simp add: hex_of_bytes_def hex_byte_def hex_value_digit)
qed

lemma length_hex_of_bytes: "length (hex_of_bytes bs) = 2 * length bs"
  by (induction bs) (simp_all add: hex_of_bytes_def hex_byte_def)

lemma bytes_to_nat_snoc: "bytes_to_nat (bs @ [b]) = bytes_to_nat bs * 256 + unat b"
  by (simp add: bytes_to_nat_def)

lemma bytes_to_nat_biguint_bytes: "bytes_to_nat (biguint_bytes n) = n"
proof (induction n rule: biguint_bytes.induct)
  case (1 n)
  show ?case
  proof (cases "n = 0")
    case True
    then show ?thesis by (simp add: biguint_bytes.simps [of n] bytes_to_nat_def)
  next
    case False
    have "unat (word_of_nat (n mod 256) :: 8 word) = n mod 256"
      by (simp add: unat_of_nat)
    with False "1.IH" show ?thesis
      by (simp add: biguint_bytes.simps [of n] bytes_to_nat_snoc)
  qed
qed

lemma biguint_bytes_minimal: "biguint_bytes n = [] \<or> hd (biguint_bytes n) \<noteq> 0"
proof (induction n rule: biguint_bytes.induct)
  case (1 n)
  show ?case
  proof (cases "n = 0")
    case True
    then show ?thesis by (simp add: biguint_bytes.simps [of n])
  next
    case False
    show ?thesis
    proof (cases "n div 256 = 0")
      case True
      then have "n < 256" by simp
      then have "unat (word_of_nat n :: 8 word) = n" by (simp add: unat_of_nat)
      with False True show ?thesis
        by (auto simp: biguint_bytes.simps [of n] biguint_bytes.simps [of 0])
    next
      case nz: False
      have ne: "biguint_bytes (n div 256) \<noteq> []"
        using bytes_to_nat_biguint_bytes [of "n div 256"] nz by (auto simp: bytes_to_nat_def)
      with False "1.IH" show ?thesis
        by (simp add: biguint_bytes.simps [of n])
    qed
  qed
qed

lemma encode_args_length:
  "encode_args dec es = Inr args \<Longrightarrow>
     args = concat (map (\<lambda>e. [hex_of_bytes (the (dec (member_address e))),
                              hex_of_bytes (biguint_bytes (the (biguint_of_string (weight e))))]) es) \<and>
     (\<forall>e \<in> set es. length (the (dec (member_address e))) = pubkey_length \<and> biguint_of_string (weight e) \<noteq> None)"
proof (induction es arbitrary: args)
  case Nil
  then show ?case by simp
next
  case (Cons e es)
  then show ?case
    by (auto simp: address_arg_def biguint_arg_def split: option.splits sum.splits if_splits)
qed

lemma length_join_args:
  "args \<noteq> [] \<Longrightarrow> length (join_args args) = sum_list (map length args) + (length args - 1)"
  by (induction args rule: join_args.induct) auto

lemma length_registerPayload_eq:
  assumes "registerPayload dec es = Inr payload"
  shows "length payload = 28 + (\<Sum>e\<leftarrow>es. 66 + 2 * length (biguint_bytes (the (biguint_of_string (weight e)))))"
proof -
  obtain args where args: "encode_args dec es = Inr args" and p: "payload = build_payload registerFunction args"
    using assms by (auto simp: registerPayload_def split: sum.splits)
  note enc = encode_args_length [OF args]
  show ?thesis
  proof (cases es)
    case Nil
    with args p show ?thesis by (simp add: build_payload_def registerFunction_def)
  next
    case (Cons e es')
    let ?w = "\<lambda>e. 2 * length (biguint_bytes (the (biguint_of_string (weight e))))"
    have lens: "map length args = concat (map (\<lambda>e. [64, ?w e]) es)"
    proof -
      have "map length args = concat (map (\<lambda>e. [length (hex_of_bytes (the (dec (member_address e)))),
              length (hex_of_bytes (biguint_bytes (the (biguint_of_string (weight e)))))]) es)"
        using enc by (simp add: map_concat comp_def)
      also have "\<dots> = concat (map (\<lambda>e. [64, ?w e]) es)"
        using enc by (intro arg_cong [where f = concat] map_cong) (simp_all add: length_hex_of_bytes pubkey_length_def)
      finally show ?thesis .
    qed
    have S: "sum_list (map length args) = (\<Sum>e\<leftarrow>es. 64 + ?w e)"
      by (simp add: lens sum_list_concat_pairs)
    have L: "length args = 2 * length es"
      using enc by (simp add: length_concat_pairs)
    have NE: "join_args args \<noteq> []"
      using enc Cons by (cases args) (auto simp: length_hex_of_bytes)
    have ne: "args \<noteq> []" using L Cons by auto
    have "length payload = 28 + 1 + (sum_list (map length args) + (length args - 1))"
      using NE ne by (simp add: p build_payload_def registerFunction_def length_join_args)
    also have "\<dots> = 28 + ((\<Sum>e\<leftarrow>es. 64 + ?w e) + 2 * length es)"
      using S L Cons by simp
    also have "(\<Sum>e\<leftarrow>es. 64 + ?w e) + 2 * length es = (\<Sum>e\<leftarrow>es. 66 + ?w e)"
      by (induction es) simp_all
    finally show ?thesis .
  qed
qed

lemma registerPayload_Inr:
  "(\<forall>e \<in> set es. (\<exists>pk. dec (member_address e) = Some pk \<and> length pk = pubkey_length) \<and>
                   biguint_of_string (weight e) \<noteq> None) \<Longrightarrow>
   \<exists>payload. registerPayload dec es = Inr payload"
proof (induction es)
  case Nil
  then show ?case by (simp add: registerPayload_def)
next
  case (Cons e es)
  then obtain args where "encode_args dec es = Inr args"
    by (auto simp: registerPayload_def split: sum.splits)
  with Cons.prems show ?case
    by (auto simp: registerPayload_def address_arg_def biguint_arg_def)
qed

lemma sum_list_66_ge: "66 * length xs \<le> (\<Sum>x\<leftarrow>xs. 66 + f x)"
  by (induction xs) auto

lemma registerPayload_length_ge:
  "registerPayload dec es = Inr payload \<Longrightarrow> 28 + 66 * length es \<le> length payload"
  using length_registerPayload_eq [of dec es payload]
    sum_list_66_ge [of es "\<lambda>e. 2 * length (biguint_bytes (the (biguint_of_string (weight e))))"]
  by linarith

text \<open>
  C12: a payload that builds has length \<open>28\<close> (the function name) plus, per entry,
  \<open>66\<close> (two separators and the 64 hexadecimal digits of the public key) plus twice the
  number of bytes of the weight's minimal big-endian encoding; so at least
  \<open>28 + 66\<close> per entry.
\<close>

theorem registerPayload_length:
  assumes "registerPayload dec es = Inr payload"
  shows "length payload = 28 + (\<Sum>e\<leftarrow>es. 66 + 2 * length (biguint_bytes (the (biguint_of_string (weight e))))) \<and>
         28 + 66 * length es \<le> length payload"
  using length_registerPayload_eq [OF assms] registerPayload_length_ge [OF assms] by simp

text \<open>
  A weight argument decodes back to the integer the weight string denotes, and its
  byte string is minimal (no leading zero byte; zero is the empty string).
\<close>

lemma biguint_arg_roundtrip:
  assumes "biguint_arg w = Inr h"
  shows "map_option bytes_to_nat (hex_decode h) = biguint_of_string w \<and>
         (\<exists>bs. hex_decode h = Some bs \<and> (bs = [] \<or> hd bs \<noteq> 0))"
proof -
  from assms obtain n where n: "biguint_of_string w = Some n" and h: "h = hex_of_bytes (biguint_bytes n)"
    by (auto simp: biguint_arg_def split: option.splits)
  show ?thesis
    using biguint_bytes_minimal [of n]
    by (simp add: n h hex_decode_hex_of_bytes bytes_to_nat_biguint_bytes)
qed

end
