(* ===== verification/Submitter.thy ===== *)
theory Submitter
  imports Encoding
begin

text \<open>
  The transaction submitter of \<^verbatim>\<open>src/snapshot/register-snapshot.ts\<close>:
  \<open>registerSnapshotInContract\<close> (lines 141--174) and the loop over the batches in
  \<open>main\<close> (lines 105--110). The administrator's \<open>Account\<close> is a record whose nonce
  \<open>getNonceThenIncrement\<close> hands out and advances. The SDK and the network are a
  record \<open>chain_env\<close> of the values and outcomes they produce: the network configuration
  (\<open>None\<close> when the request fails), the bech32 decoder, the signer, and whether a
  broadcast is accepted. Every exception of the script is an \<open>Inl\<close> of
  \<open>submit_error\<close>; the loop stops at the first one, as the uncaught rejection does.
  Gas values and nonces are JavaScript numbers, exact below \<open>2^53\<close>; they are
  \<open>nat\<close> here (the gas limit is capped at \<open>600000000\<close>).
\<close>

record account =
  acc_address :: address
  nonce :: nat

record network_config =
  GasPerDataByte :: nat
  ChainID :: string

record transaction =
  tx_data :: string
  tx_gasLimit :: nat
  tx_receiver :: address
  tx_value :: nat
  tx_sender :: address
  tx_chainID :: string
  tx_nonce :: nat
  tx_signature :: "string option"

record chain_env =
  networkConfig :: "network_config option"
  fromBech32 :: "address \<Rightarrow> 8 word list option"
  signTx :: "transaction \<Rightarrow> string"
  broadcastAccepted :: "transaction \<Rightarrow> bool"

text \<open>\<open>account.getNonceThenIncrement()\<close>.\<close>

definition getNonceThenIncrement :: "account \<Rightarrow> nat \<times> account" where
  "getNonceThenIncrement acc = (nonce acc, acc\<lparr>nonce := Suc (nonce acc)\<rparr>)"

definition MaxBlockGasLimit :: nat where
  "MaxBlockGasLimit = 600000000"

text \<open>Line 156.\<close>

definition computedGasLimit :: "network_config \<Rightarrow> nat \<Rightarrow> nat" where
  "computedGasLimit nc payloadLength =
     min MaxBlockGasLimit (20000000 + (GasPerDataByte nc + 20000) * payloadLength)"

text \<open>\<open>new Address(scAddress)\<close> accepts a valid bech32 address of a 32-byte key.\<close>

definition valid_address :: "chain_env \<Rightarrow> address \<Rightarrow> bool" where
  "valid_address ch a = (case fromBech32 ch a of Some pk \<Rightarrow> length pk = pubkey_length | None \<Rightarrow> False)"

text \<open>
  \<open>new Address(scAddress)\<close> (line 161): \<open>scAddress\<close> is the JSON value of the
  configuration; a string is decoded as bech32, any other value makes the constructor throw.
\<close>

definition receiver_address :: "chain_env \<Rightarrow> jval \<Rightarrow> address option" where
  "receiver_address ch v =
     (case v of JStr a \<Rightarrow> if valid_address ch a then Some a else None | _ \<Rightarrow> None)"

text \<open>
  One batch: fetch the network configuration, build the payload (which throws on the
  first bad entry), compute the gas limit, build the transaction, take the next nonce,
  sign, broadcast. The account is returned with its nonce advanced as soon as the nonce
  was taken, also when the broadcast then fails.
\<close>

definition registerSnapshotInContract ::
  "chain_env \<Rightarrow> account \<Rightarrow> jval \<Rightarrow> member list \<Rightarrow> (submit_error + transaction) \<times> account" where
  "registerSnapshotInContract ch acc scAddress entries =
     (case networkConfig ch of
        None \<Rightarrow> (Inl NetworkConfigFailed, acc)
      | Some nc \<Rightarrow>
          (case registerPayload (fromBech32 ch) entries of
             Inl err \<Rightarrow> (Inl err, acc)
           | Inr payload \<Rightarrow>
               (case receiver_address ch scAddress of
                  None \<Rightarrow> (Inl InvalidReceiver, acc)
                | Some receiver \<Rightarrow>
                  (let (n, acc') = getNonceThenIncrement acc;
                       tx = \<lparr>tx_data = payload,
                             tx_gasLimit = computedGasLimit nc (length payload),
                             tx_receiver = receiver,
                             tx_value = 0,
                             tx_sender = acc_address acc,
                             tx_chainID = ChainID nc,
                             tx_nonce = n,
                             tx_signature = None\<rparr>;
                       signed = tx\<lparr>tx_signature := Some (signTx ch tx)\<rparr>
                   in if broadcastAccepted ch signed then (Inr signed, acc')
                      else (Inl (BroadcastFailed n), acc')))))"

text \<open>
  \<^verbatim>\<open>for (let i = 0; i < batches.length; i++)\<close>: the transactions sent so far are
  accumulated; the first error ends the run with the transactions already sent.
\<close>

fun registerBatches ::
  "chain_env \<Rightarrow> account \<Rightarrow> jval \<Rightarrow> member list list \<Rightarrow> transaction list \<Rightarrow>
   ((submit_error \<times> transaction list) + transaction list) \<times> account" where
  "registerBatches ch acc scAddress [] sent = (Inr sent, acc)"
| "registerBatches ch acc scAddress (batch # rest) sent =
     (case registerSnapshotInContract ch acc scAddress batch of
        (Inl err, acc') \<Rightarrow> (Inl (err, sent), acc')
      | (Inr tx, acc') \<Rightarrow> registerBatches ch acc' scAddress rest (sent @ [tx]))"

subsection \<open>One batch\<close>

lemma registerSnapshotInContract_Inr:
  assumes "registerSnapshotInContract ch acc scAddress entries = (Inr tx, acc')"
  shows "acc' = acc\<lparr>nonce := Suc (nonce acc)\<rparr> \<and> tx_nonce tx = nonce acc \<and>
         registerPayload (fromBech32 ch) entries = Inr (tx_data tx)"
  using assms
  by (auto simp: registerSnapshotInContract_def getNonceThenIncrement_def Let_def
      receiver_address_def split: option.splits sum.splits if_splits jval.splits)

lemma encode_args_error:
  "encode_args dec es = Inl err \<Longrightarrow> (\<exists>a. err = InvalidMemberAddress a) \<or> (\<exists>w. err = InvalidWeight w)"
  by (induction es) (auto simp: address_arg_def biguint_arg_def split: option.splits sum.splits if_splits)

lemma registerPayload_error:
  "registerPayload dec es = Inl err \<Longrightarrow> (\<exists>a. err = InvalidMemberAddress a) \<or> (\<exists>w. err = InvalidWeight w)"
  by (auto simp: registerPayload_def dest: encode_args_error split: sum.splits)

lemma registerSnapshotInContract_Inl:
  assumes "registerSnapshotInContract ch acc scAddress entries = (Inl err, acc')"
  shows "(err = BroadcastFailed (nonce acc) \<and> acc' = acc\<lparr>nonce := Suc (nonce acc)\<rparr>) \<or>
         ((\<forall>n. err \<noteq> BroadcastFailed n) \<and> acc' = acc)"
  using assms
  by (auto simp: registerSnapshotInContract_def getNonceThenIncrement_def Let_def
      receiver_address_def dest: registerPayload_error split: option.splits sum.splits if_splits jval.splits)

lemma registerBatches_Inr:
  "registerBatches ch acc scAddress bs sent = (Inr txs, acc') \<Longrightarrow>
     \<exists>new. txs = sent @ new \<and> length new = length bs \<and>
       map tx_nonce new = [nonce acc..<nonce acc + length bs] \<and>
       (\<forall>i < length bs. registerPayload (fromBech32 ch) (bs ! i) = Inr (tx_data (new ! i))) \<and>
       acc' = acc\<lparr>nonce := nonce acc + length bs\<rparr>"
proof (induction bs arbitrary: acc sent)
  case Nil
  then show ?case by simp
next
  case (Cons b bs)
  obtain r acc1 where call: "registerSnapshotInContract ch acc scAddress b = (r, acc1)"
    by (cases "registerSnapshotInContract ch acc scAddress b")
  show ?case
  proof (cases r)
    case (Inl err)
    with Cons.prems call show ?thesis by simp
  next
    case (Inr tx)
    note one = registerSnapshotInContract_Inr [OF call [unfolded Inr]]
    from Cons.prems call Inr have "registerBatches ch acc1 scAddress bs (sent @ [tx]) = (Inr txs, acc')"
      by simp
    from Cons.IH [OF this] obtain new where
      new: "txs = (sent @ [tx]) @ new" "length new = length bs"
           "map tx_nonce new = [nonce acc1..<nonce acc1 + length bs]"
           "\<forall>i < length bs. registerPayload (fromBech32 ch) (bs ! i) = Inr (tx_data (new ! i))"
           "acc' = acc1\<lparr>nonce := nonce acc1 + length bs\<rparr>"
      by blast
    have nonces: "map tx_nonce (tx # new) = [nonce acc..<nonce acc + length (b # bs)]"
      using one new(3) by (simp del: upt_Suc add: upt_conv_Cons)
    have payloads: "\<forall>i < length (b # bs). registerPayload (fromBech32 ch) ((b # bs) ! i) = Inr (tx_data ((tx # new) ! i))"
      using one new(4) by (auto simp: nth_Cons' less_Suc_eq_0_disj)
    have "acc' = acc\<lparr>nonce := nonce acc + length (b # bs)\<rparr>"
      using one new(5) by simp
    with new(1,2) nonces payloads show ?thesis
      by (intro exI [of _ "tx # new"]) simp
  qed
qed


lemma registerBatches_Inl:
  "registerBatches ch acc scAddress bs sent = (Inl (err, sent'), acc') \<Longrightarrow>
     \<exists>new k. sent' = sent @ new \<and> k < length bs \<and> length new = k \<and>
       map tx_nonce new = [nonce acc..<nonce acc + k] \<and>
       (\<forall>i < k. registerPayload (fromBech32 ch) (bs ! i) = Inr (tx_data (new ! i))) \<and>
       fst (registerSnapshotInContract ch (acc\<lparr>nonce := nonce acc + k\<rparr>) scAddress (bs ! k)) = Inl err \<and>
       acc' = (if err = BroadcastFailed (nonce acc + k) then acc\<lparr>nonce := Suc (nonce acc + k)\<rparr>
               else acc\<lparr>nonce := nonce acc + k\<rparr>)"
proof (induction bs arbitrary: acc sent)
  case Nil
  then show ?case by simp
next
  case (Cons b bs)
  obtain r acc1 where call: "registerSnapshotInContract ch acc scAddress b = (r, acc1)"
    by (cases "registerSnapshotInContract ch acc scAddress b")
  show ?case
  proof (cases r)
    case (Inl e)
    with Cons.prems call have e: "e = err" "sent' = sent" "acc1 = acc'" by simp_all
    from registerSnapshotInContract_Inl [OF call [unfolded Inl]] e
    have "acc' = (if err = BroadcastFailed (nonce acc) then acc\<lparr>nonce := Suc (nonce acc)\<rparr> else acc)"
      by auto
    with call Inl e show ?thesis
      by (intro exI [of _ "[]"] exI [of _ 0]) simp
  next
    case (Inr tx)
    note one = registerSnapshotInContract_Inr [OF call [unfolded Inr]]
    from Cons.prems call Inr have "registerBatches ch acc1 scAddress bs (sent @ [tx]) = (Inl (err, sent'), acc')"
      by simp
    from Cons.IH [OF this] obtain new k where
      new: "sent' = (sent @ [tx]) @ new" "k < length bs" "length new = k"
           "map tx_nonce new = [nonce acc1..<nonce acc1 + k]"
           "\<forall>i < k. registerPayload (fromBech32 ch) (bs ! i) = Inr (tx_data (new ! i))"
           "fst (registerSnapshotInContract ch (acc1\<lparr>nonce := nonce acc1 + k\<rparr>) scAddress (bs ! k)) = Inl err"
           "acc' = (if err = BroadcastFailed (nonce acc1 + k) then acc1\<lparr>nonce := Suc (nonce acc1 + k)\<rparr>
                   else acc1\<lparr>nonce := nonce acc1 + k\<rparr>)"
      by blast
    have nonces: "map tx_nonce (tx # new) = [nonce acc..<nonce acc + Suc k]"
      using one new(4) by (simp del: upt_Suc add: upt_conv_Cons)
    have payloads: "\<forall>i < Suc k. registerPayload (fromBech32 ch) ((b # bs) ! i) = Inr (tx_data ((tx # new) ! i))"
      using one new(5) by (auto simp: nth_Cons' less_Suc_eq_0_disj)
    have stuck: "fst (registerSnapshotInContract ch (acc\<lparr>nonce := nonce acc + Suc k\<rparr>) scAddress ((b # bs) ! Suc k)) = Inl err"
      using one new(6) by simp
    have "acc' = (if err = BroadcastFailed (nonce acc + Suc k) then acc\<lparr>nonce := Suc (nonce acc + Suc k)\<rparr>
                  else acc\<lparr>nonce := nonce acc + Suc k\<rparr>)"
      using one new(7) by simp
    with new(1,2,3) nonces payloads stuck show ?thesis
      by (intro exI [of _ "tx # new"] exI [of _ "Suc k"]) simp
  qed
qed

text \<open>
  C13: a batch that is sent is the transaction the script builds: the payload of the
  batch as data, the computed gas limit, the contract as receiver, value 0, the
  administrator as sender, the network's chain id, the account's current nonce, the
  signature over the unsigned transaction; the broadcast was accepted and the account's
  nonce advanced by one.
\<close>

theorem registerSnapshotInContract_sent:
  assumes "registerSnapshotInContract ch acc scAddress entries = (Inr tx, acc')"
  shows "\<exists>nc. networkConfig ch = Some nc \<and>
           registerPayload (fromBech32 ch) entries = Inr (tx_data tx) \<and>
           tx_gasLimit tx = computedGasLimit nc (length (tx_data tx)) \<and>
           scAddress = JStr (tx_receiver tx) \<and> valid_address ch (tx_receiver tx) \<and> tx_value tx = 0 \<and>
           tx_sender tx = acc_address acc \<and> tx_chainID tx = ChainID nc \<and>
           tx_nonce tx = nonce acc \<and>
           tx_signature tx = Some (signTx ch (tx\<lparr>tx_signature := None\<rparr>)) \<and>
           broadcastAccepted ch tx \<and> acc' = acc\<lparr>nonce := Suc (nonce acc)\<rparr>"
  using assms
  by (auto simp: registerSnapshotInContract_def getNonceThenIncrement_def Let_def
      receiver_address_def split: option.splits sum.splits if_splits jval.splits)

lemma registerSnapshotInContract_gas:
  assumes "registerSnapshotInContract ch acc scAddress entries = (Inr tx, acc')"
  shows "\<exists>nc. registerPayload (fromBech32 ch) entries = Inr (tx_data tx) \<and>
           tx_gasLimit tx = computedGasLimit nc (length (tx_data tx))"
  using assms
  by (auto simp: registerSnapshotInContract_def getNonceThenIncrement_def Let_def
      receiver_address_def split: option.splits sum.splits if_splits jval.splits)

text \<open>
  C16: every batch of at least 439 members (so every full batch of 500) is sent with the
  capped gas limit \<open>MaxBlockGasLimit\<close>, whatever the weights and the network's gas price:
  the per-byte part of the formula only matters for short batches.
\<close>

theorem full_batch_gas_capped:
  assumes "registerSnapshotInContract ch acc scAddress entries = (Inr tx, acc')"
    and "439 \<le> length entries"
  shows "tx_gasLimit tx = MaxBlockGasLimit"
proof -
  from registerSnapshotInContract_gas [OF assms(1)] obtain nc where
    nc: "registerPayload (fromBech32 ch) entries = Inr (tx_data tx)"
        "tx_gasLimit tx = computedGasLimit nc (length (tx_data tx))"
    by blast
  have "28 + 66 * length entries \<le> length (tx_data tx)"
    by (rule registerPayload_length_ge [OF nc(1)])
  then have "28 + 66 * 439 \<le> length (tx_data tx)"
    using assms(2) by linarith
  then have "20000 * (28 + 66 * 439) \<le> (GasPerDataByte nc + 20000) * length (tx_data tx)"
    by (intro mult_le_mono) simp_all
  then have "580040000 \<le> (GasPerDataByte nc + 20000) * length (tx_data tx)"
    by simp
  then have "MaxBlockGasLimit \<le> 20000000 + (GasPerDataByte nc + 20000) * length (tx_data tx)"
    unfolding MaxBlockGasLimit_def by linarith
  then show ?thesis
    using nc(2) by (simp add: computedGasLimit_def)
qed

text \<open>
  C14: when every batch is sent, the transactions carry the nonces \<open>n, n+1, \<dots>\<close> of the
  account in batch order, transaction \<open>i\<close> carries the payload of batch \<open>i\<close>, and the
  account's nonce has advanced by the number of batches.
\<close>

theorem registerBatches_all_sent:
  assumes "registerBatches ch acc scAddress bs [] = (Inr txs, acc')"
  shows "length txs = length bs \<and> map tx_nonce txs = [nonce acc..<nonce acc + length bs] \<and>
         (\<forall>i < length bs. registerPayload (fromBech32 ch) (bs ! i) = Inr (tx_data (txs ! i))) \<and>
         acc' = acc\<lparr>nonce := nonce acc + length bs\<rparr>"
  using registerBatches_Inr [OF assms] by auto

text \<open>
  C15: a failing batch halts the run: the batches before it were all sent, with
  consecutive nonces, none after it was attempted, and the account's nonce has advanced
  past the failing batch exactly when its broadcast was the step that failed.
\<close>

theorem registerBatches_halts:
  assumes "registerBatches ch acc scAddress bs [] = (Inl (err, sent), acc')"
  shows "\<exists>k < length bs. length sent = k \<and> map tx_nonce sent = [nonce acc..<nonce acc + k] \<and>
           (\<forall>i < k. registerPayload (fromBech32 ch) (bs ! i) = Inr (tx_data (sent ! i))) \<and>
           fst (registerSnapshotInContract ch (acc\<lparr>nonce := nonce acc + k\<rparr>) scAddress (bs ! k)) = Inl err \<and>
           acc' = (if err = BroadcastFailed (nonce acc + k) then acc\<lparr>nonce := Suc (nonce acc + k)\<rparr>
                   else acc\<lparr>nonce := nonce acc + k\<rparr>)"
  using registerBatches_Inl [OF assms] by auto

end
