(* ===== verification/Config.thy ===== *)
theory Config
  imports Scanner Helpers
begin

text \<open>
  The configuration step of \<open>main\<close> (\<^verbatim>\<open>src/snapshot/register-snapshot.ts\<close>,
  lines 22--34): the environment name is the first command-line argument, its section
  of the parsed \<^verbatim>\<open>mxpy.data-storage.json\<close> is read field by field, and the run stops
  with \<^verbatim>\<open>Invalid '<env>' config\<close> when the name or one of five fields is falsy. Reading
  a field of a missing section throws a \<open>TypeError\<close> before that check; the minimum
  holding goes through unary \<open>+\<close> and is not checked at all. The parsed file is a map
  from section names to sections, a section a map from keys to JSON scalars; reading and
  parsing the file (\<open>loadMxpyConfig\<close>) is I/O and not modelled.
\<close>

type_synonym config_section = "string \<Rightarrow> jval option"
type_synonym mxpy_config = "string \<Rightarrow> config_section option"

record env_config =
  apiUrl :: "jval option"
  proxyUrl :: "jval option"
  itheumTokenId :: "jval option"
  itheumMinHoldAmount :: numval
  trailblazerNftId :: "jval option"
  scAddress :: "jval option"

datatype config_outcome = ConfigTypeError | InvalidConfig | ConfigOk env_config

text \<open>\<open>mxpyConfig[env]\<close>: an \<open>undefined\<close> key is looked up as the string \<open>"undefined"\<close>.\<close>

definition env_key :: "string option \<Rightarrow> string" where
  "env_key env = (case env of None \<Rightarrow> ''undefined'' | Some e \<Rightarrow> e)"

definition readEnvConfig :: "config_section \<Rightarrow> env_config" where
  "readEnvConfig sec =
     \<lparr>apiUrl = sec ''api'',
      proxyUrl = sec ''proxy'',
      itheumTokenId = sec ''itheum-tokenid'',
      itheumMinHoldAmount = js_to_number (sec ''itheum-min-hold-amount''),
      trailblazerNftId = sec ''trailblazer-nftid'',
      scAddress = sec ''contract-address''\<rparr>"

definition config_valid :: "string option \<Rightarrow> env_config \<Rightarrow> bool" where
  "config_valid env cfg \<longleftrightarrow>
     js_truthy (map_option JStr env) \<and> js_truthy (itheumTokenId cfg) \<and>
     js_truthy (trailblazerNftId cfg) \<and> js_truthy (scAddress cfg) \<and>
     js_truthy (apiUrl cfg) \<and> js_truthy (proxyUrl cfg)"

definition loadEnvConfig :: "mxpy_config \<Rightarrow> string list \<Rightarrow> config_outcome" where
  "loadEnvConfig mxpyConfig argv =
     (let env = getArg argv 0 in
      case mxpyConfig (env_key env) of
        None \<Rightarrow> ConfigTypeError
      | Some sec \<Rightarrow>
          (let cfg = readEnvConfig sec in
           if \<not> config_valid env cfg then InvalidConfig else ConfigOk cfg))"

subsection \<open>Properties of the configuration step\<close>

lemma js_truthy_JStr: "js_truthy (map_option JStr env) \<longleftrightarrow> (\<exists>e. env = Some e \<and> e \<noteq> [])"
  by (cases env) auto

text \<open>
  C17: the configuration step crashes with a \<open>TypeError\<close> exactly when the section of
  the requested environment is missing, also when no argument was given (then the key
  is \<open>"undefined"\<close>); it accepts exactly when a non-empty environment name was given and
  the token id, the SFT id, the contract address, the API and the proxy URL are truthy.
\<close>

theorem loadEnvConfig_outcome:
  "(loadEnvConfig c argv = ConfigTypeError \<longleftrightarrow> c (env_key (getArg argv 0)) = None) \<and>
   (loadEnvConfig c argv = ConfigOk cfg \<longleftrightarrow>
      (\<exists>sec e. c (env_key (getArg argv 0)) = Some sec \<and> getArg argv 0 = Some e \<and> e \<noteq> [] \<and>
         cfg = readEnvConfig sec \<and>
         js_truthy (sec ''itheum-tokenid'') \<and> js_truthy (sec ''trailblazer-nftid'') \<and>
         js_truthy (sec ''contract-address'') \<and> js_truthy (sec ''api'') \<and> js_truthy (sec ''proxy'')))"
  by (auto simp: loadEnvConfig_def config_valid_def readEnvConfig_def js_truthy_JStr Let_def
      split: option.splits)

text \<open>
  C18: the minimum holding is not validated: a section without
  \<open>itheum-min-hold-amount\<close> that passes the check yields \<open>NaN\<close>, and with \<open>NaN\<close> as
  threshold no token holder is ever added; an empty string yields \<open>0\<close>, which every
  non-negative balance meets.
\<close>

theorem missing_min_hold_excludes_all:
  assumes "loadEnvConfig c argv = ConfigOk cfg"
    and "c (env_key (getArg argv 0)) = Some sec"
    and "sec ''itheum-min-hold-amount'' = None"
  shows "itheumMinHoldAmount cfg = NaN \<and>
         (\<forall>decimals st m. tokenHolderVisit decimals (itheumMinHoldAmount cfg) st m = st)"
proof -
  have "cfg = readEnvConfig sec"
    using assms(1,2) by (auto simp: loadEnvConfig_def Let_def split: if_splits)
  then have nan: "itheumMinHoldAmount cfg = NaN"
    using assms(3) by (simp add: readEnvConfig_def)
  have "\<forall>decimals st m. tokenHolderVisit decimals NaN st m = st"
    by (auto simp: tokenHolderVisit_def satisfiesMinHoldAmount_def elim: bn_gte.elims)
  with nan show ?thesis by simp
qed



end
