(* ===== verification/BatchLoop.thy ===== *)
theory BatchLoop
  imports Submitter
begin

text \<open>
  The loop over the batches in \<open>main\<close> as a transition system. A state is
  \<open>Loop bs acc sent\<close>, the batches still to send, the account and the transactions sent,
  or \<open>Halted err acc sent\<close> once a call threw. One step is one iteration of the loop.
\<close>

datatype loop_state = Loop "member list list" account "transaction list"
                    | Halted submit_error account "transaction list"

inductive batch_step :: "chain_env \<Rightarrow> jval \<Rightarrow> loop_state \<Rightarrow> loop_state \<Rightarrow> bool"
  for ch :: chain_env and scAddress :: jval where
  sent: "registerSnapshotInContract ch acc scAddress b = (Inr tx, acc') \<Longrightarrow>
         batch_step ch scAddress (Loop (b # bs) acc sent) (Loop bs acc' (sent @ [tx]))"
| failed: "registerSnapshotInContract ch acc scAddress b = (Inl err, acc') \<Longrightarrow>
         batch_step ch scAddress (Loop (b # bs) acc sent) (Halted err acc' sent)"

code_pred batch_step .

definition loop_final :: "loop_state \<Rightarrow> bool" where
  "loop_final s = (case s of Loop bs _ _ \<Rightarrow> bs = [] | Halted _ _ _ \<Rightarrow> True)"

definition outcome_state :: "((submit_error \<times> transaction list) + transaction list) \<times> account \<Rightarrow> loop_state" where
  "outcome_state r = (case r of (Inr txs, acc) \<Rightarrow> Loop [] acc txs | (Inl (e, txs), acc) \<Rightarrow> Halted e acc txs)"

text \<open>
  What the loop guarantees of the transactions it sent, from the account \<open>acc0\<close> it
  started with: consecutive nonces from the account's, all to the contract, from the
  administrator, accepted by the network and within the gas cap.
\<close>

definition sent_ok :: "chain_env \<Rightarrow> jval \<Rightarrow> account \<Rightarrow> transaction list \<Rightarrow> bool" where
  "sent_ok ch sc acc0 sent \<longleftrightarrow>
     map tx_nonce sent = [nonce acc0..<nonce acc0 + length sent] \<and>
     (\<forall>tx \<in> set sent. sc = JStr (tx_receiver tx) \<and> tx_sender tx = acc_address acc0 \<and>
        broadcastAccepted ch tx \<and> tx_gasLimit tx \<le> MaxBlockGasLimit)"

text \<open>
  The loop invariant: the account's nonce has advanced once per transaction sent, and
  once more when the failing call was a rejected broadcast.
\<close>

definition loop_inv :: "chain_env \<Rightarrow> jval \<Rightarrow> account \<Rightarrow> loop_state \<Rightarrow> bool" where
  "loop_inv ch sc acc0 s =
     (case s of
        Loop bs acc sent \<Rightarrow>
          acc = acc0\<lparr>nonce := nonce acc0 + length sent\<rparr> \<and> sent_ok ch sc acc0 sent
      | Halted e acc sent \<Rightarrow>
          acc = acc0\<lparr>nonce := nonce acc0 + length sent +
                          (if e = BroadcastFailed (nonce acc0 + length sent) then 1 else 0)\<rparr> \<and>
          sent_ok ch sc acc0 sent)"

inductive_cases batch_step_LoopE: "batch_step ch scAddress (Loop bs acc sent) s'"
inductive_cases batch_step_HaltedE [elim!]: "batch_step ch scAddress (Halted e acc sent) s'"

lemma batch_step_deterministic:
  "batch_step ch sc s s' \<Longrightarrow> batch_step ch sc s s'' \<Longrightarrow> s'' = s'"
  by (induction rule: batch_step.induct) (auto elim: batch_step_LoopE)

lemma loop_final_no_step: "loop_final s \<longleftrightarrow> (\<nexists>s'. batch_step ch sc s s')"
proof (cases s)
  case (Loop bs acc sent)
  then show ?thesis
  proof (cases bs)
    case (Cons b rest)
    obtain r acc1 where call: "registerSnapshotInContract ch acc sc b = (r, acc1)"
      by (cases "registerSnapshotInContract ch acc sc b")
    have "\<exists>s'. batch_step ch sc s s'"
    proof (cases r)
      case (Inl err)
      with call Loop Cons show ?thesis by (blast intro: batch_step.failed)
    next
      case (Inr tx)
      with call Loop Cons show ?thesis by (blast intro: batch_step.sent)
    qed
    with Loop Cons show ?thesis by (simp add: loop_final_def)
  qed (auto simp: loop_final_def elim: batch_step_LoopE)
qed (auto simp: loop_final_def)

lemma registerBatches_reaches:
  "(batch_step ch sc)\<^sup>*\<^sup>* (Loop bs acc sent) (outcome_state (registerBatches ch acc sc bs sent))"
proof (induction bs arbitrary: acc sent)
  case Nil
  then show ?case by (simp add: outcome_state_def)
next
  case (Cons b bs)
  show ?case
  proof (cases "registerSnapshotInContract ch acc sc b")
    case (Pair r acc1)
    then show ?thesis
    proof (cases r)
      case (Inl err)
      with Pair show ?thesis
        by (auto simp: outcome_state_def intro: batch_step.failed)
    next
      case (Inr tx)
      with Pair Cons.IH [of acc1 "sent @ [tx]"] show ?thesis
        by (auto intro: converse_rtranclp_into_rtranclp batch_step.sent)
    qed
  qed
qed

lemma outcome_state_final: "loop_final (outcome_state r)"
  by (auto simp: outcome_state_def loop_final_def split: prod.splits sum.splits)

lemma final_reach_unique:
  "(batch_step ch sc)\<^sup>*\<^sup>* s t \<Longrightarrow> loop_final t \<Longrightarrow>
   (batch_step ch sc)\<^sup>*\<^sup>* s u \<Longrightarrow> loop_final u \<Longrightarrow> t = u"
proof (induction arbitrary: u rule: converse_rtranclp_induct)
  case base
  from base.prems(2) show ?case
  proof (cases rule: converse_rtranclpE)
    case (step s')
    with base.prems(1) loop_final_no_step [of t ch sc] show ?thesis by blast
  qed simp
next
  case (step s s')
  note hyp = step.hyps(1) and IH = step.IH and fin = step.prems(3)
  from step.prems(2) show ?case
  proof (cases rule: converse_rtranclpE)
    case base
    have "\<not> loop_final s" using step.hyps(1) loop_final_no_step [of s ch sc] by blast
    with base step.prems(3) show ?thesis by simp
  next
    case (step s'')
    with hyp have "s'' = s'" by (blast intro: batch_step_deterministic)
    with step IH [OF step.prems(1)] fin show ?thesis by simp
  qed
qed

lemma registerSnapshotInContract_Inr_tx:
  assumes "registerSnapshotInContract ch acc sc entries = (Inr tx, acc')"
  shows "sc = JStr (tx_receiver tx) \<and> tx_sender tx = acc_address acc \<and>
         broadcastAccepted ch tx \<and> tx_gasLimit tx \<le> MaxBlockGasLimit"
  using assms
  by (auto simp: registerSnapshotInContract_def getNonceThenIncrement_def Let_def
      receiver_address_def computedGasLimit_def split: option.splits sum.splits if_splits jval.splits)

lemma sent_ok_snoc:
  "sent_ok ch sc acc0 sent \<Longrightarrow> tx_nonce tx = nonce acc0 + length sent \<Longrightarrow>
   sc = JStr (tx_receiver tx) \<Longrightarrow> tx_sender tx = acc_address acc0 \<Longrightarrow>
   broadcastAccepted ch tx \<Longrightarrow> tx_gasLimit tx \<le> MaxBlockGasLimit \<Longrightarrow>
   sent_ok ch sc acc0 (sent @ [tx])"
  by (simp add: sent_ok_def)

lemma loop_inv_step:
  assumes "batch_step ch sc s s'" and "loop_inv ch sc acc0 s"
  shows "loop_inv ch sc acc0 s'"
  using assms
proof (induction rule: batch_step.induct)
  case (sent acc b tx acc' bs sent)
  from registerSnapshotInContract_Inr [OF sent.hyps] registerSnapshotInContract_Inr_tx [OF sent.hyps]
    sent.prems
  show ?case by (auto simp: loop_inv_def intro!: sent_ok_snoc)
next
  case (failed acc b err acc' bs sent)
  from registerSnapshotInContract_Inl [OF failed.hyps] failed.prems
  show ?case by (auto simp: loop_inv_def)
qed

lemma loop_inv_rtranclp:
  "(batch_step ch sc)\<^sup>*\<^sup>* s t \<Longrightarrow> loop_inv ch sc acc0 s \<Longrightarrow> loop_inv ch sc acc0 t"
  by (induction rule: rtranclp_induct) (auto intro: loop_inv_step)

lemma registerBatches_inv:
  "loop_inv ch sc acc (outcome_state (registerBatches ch acc sc bs []))"
  using registerBatches_reaches [of ch sc bs acc "[]"]
  by (rule loop_inv_rtranclp) (simp add: loop_inv_def sent_ok_def)

subsection \<open>Properties of the batch loop\<close>

text \<open>
  The recursive \<open>registerBatches\<close> computes the run of the loop: from the start
  state, the transition system reaches exactly one final state, and it is the outcome of
  \<open>registerBatches\<close> (the system is deterministic, and a state is final exactly when no
  step applies).
\<close>

lemma registerBatches_refines_steps:
  "((batch_step ch sc)\<^sup>*\<^sup>* (Loop bs acc []) s \<and> loop_final s) \<longleftrightarrow>
   s = outcome_state (registerBatches ch acc sc bs [])"
  using registerBatches_reaches [of ch sc bs acc "[]"] outcome_state_final
    final_reach_unique [of ch sc "Loop bs acc []"]
  by blast

text \<open>
  C19: every state the loop reaches from the administrator's account \<open>acc0\<close> satisfies the
  invariant: the nonces of the transactions sent are consecutive from the account's, every
  transaction goes to the configured contract from the administrator, was accepted and
  stays within the gas cap, and the account's nonce has advanced once per transaction sent
  (once more after a rejected broadcast).
\<close>

theorem batch_loop_invariant:
  "(batch_step ch sc)\<^sup>*\<^sup>* (Loop bs acc0 []) s \<Longrightarrow> loop_inv ch sc acc0 s"
  by (erule loop_inv_rtranclp) (simp add: loop_inv_def sent_ok_def)

end
