(* ===== verification/Run.thy ===== *)
theory Run
  imports BatchLoop Config
begin

text \<open>
  \<open>main\<close> of \<^verbatim>\<open>src/snapshot/register-snapshot.ts\<close> (lines 21--113) as one function of the
  run's inputs. The outside world is the record \<open>world\<close>: the parsed configuration file,
  the API provider at a URL (the holder pages, the token definition, the account), the
  administrator's signer, and the proxy provider at a URL with the SDK (the network
  configuration, the bech32 decoder, the signature, the broadcast). The run returns how it
  ended (\<open>run_status\<close>: rejected configuration, a crash with the step that threw, or done)
  and what it did (\<open>run_trace\<close>: the pages requested, the snapshot, the batches, the
  transactions sent). It is \<open>None\<close> only if \<open>chunkArray\<close> does not return, which the
  batch size 500 excludes. The holder pages are always answered: a rejected page request,
  which would end \<open>main\<close> before the key is read, is not modelled. The two configuration file errors of \<open>run_error\<close> are raised by
  \<open>loadMxpyConfig\<close> before \<open>main_run\<close> starts (\<open>script_run\<close> in \<open>Host\<close>).
\<close>

record world =
  mxpyConfig :: mxpy_config
  apiAt :: "jval \<Rightarrow> api"
  tokenDecimals :: "jval \<Rightarrow> jval \<Rightarrow> nat option"
  adminSigner :: "address option"
  accountNonce :: "jval \<Rightarrow> address \<Rightarrow> nat option"
  proxyAt :: "jval \<Rightarrow> chain_env"

datatype run_error = ConfigFileUnreadable | ConfigFileMalformed
                   | EnvSectionMissing | TokenDefinitionFailed | SignerFailed | AccountFailed
                   | BatchFailed submit_error

datatype run_status = RunInvalidConfig | RunCrashed run_error | RunDone

record run_trace =
  tokenPages :: "nat list"
  sftPages :: "nat list"
  snapshotMembers :: "member list"
  batches :: "member list list"
  sentTxs :: "transaction list"

definition no_trace :: run_trace where
  "no_trace = \<lparr>tokenPages = [], sftPages = [], snapshotMembers = [], batches = [], sentTxs = []\<rparr>"

definition batchSize :: nat where
  "batchSize = 500"

text \<open>\<open>new Account(signer.getAddress())\<close> and \<open>account.update(accountOnNetwork)\<close>.\<close>

definition newAccount :: "address \<Rightarrow> account" where
  "newAccount a = \<lparr>acc_address = a, nonce = 0\<rparr>"

definition account_update :: "account \<Rightarrow> nat \<Rightarrow> account" where
  "account_update acc n = acc\<lparr>nonce := n\<rparr>"

text \<open>
  Lines 40--98: both scans with the token's decimals, then \<open>chunkArray(members, 500)\<close>.
  The configuration fields are defined here: the check of line 31 rejected the others.
\<close>

definition snapshot_stage :: "world \<Rightarrow> env_config \<Rightarrow> nat \<Rightarrow> run_trace option" where
  "snapshot_stage w cfg decimals =
     (let (st, tp, sp) = takeSnapshot (apiAt w (the (apiUrl cfg))) (the (itheumTokenId cfg)) decimals
                           (itheumMinHoldAmount cfg) (the (trailblazerNftId cfg))
      in map_option (\<lambda>bs. \<lparr>tokenPages = tp, sftPages = sp, snapshotMembers = members st,
                            batches = bs, sentTxs = []\<rparr>)
           (chunkArray (members st) batchSize))"

text \<open>
  Lines 100--110: the signer, the account with its nonce from the network, and the loop
  over the batches; the first exception ends the run.
\<close>

definition register_stage :: "world \<Rightarrow> env_config \<Rightarrow> run_trace \<Rightarrow> run_status \<times> run_trace" where
  "register_stage w cfg tr =
     (case adminSigner w of
        None \<Rightarrow> (RunCrashed SignerFailed, tr)
      | Some a \<Rightarrow>
          (let account = newAccount a in
           case accountNonce w (the (apiUrl cfg)) (acc_address account) of
             None \<Rightarrow> (RunCrashed AccountFailed, tr)
           | Some n \<Rightarrow>
               (case registerBatches (proxyAt w (the (proxyUrl cfg))) (account_update account n)
                       (the (scAddress cfg)) (batches tr) [] of
                  (Inl (err, sent), _) \<Rightarrow> (RunCrashed (BatchFailed err), tr\<lparr>sentTxs := sent\<rparr>)
                | (Inr sent, _) \<Rightarrow> (RunDone, tr\<lparr>sentTxs := sent\<rparr>))))"

text \<open>
  \<open>main\<close>: the configuration (lines 22--34), the token definition (line 38), then the
  two stages.
\<close>

definition main_run :: "world \<Rightarrow> string list \<Rightarrow> (run_status \<times> run_trace) option" where
  "main_run w argv =
     (case loadEnvConfig (mxpyConfig w) argv of
        ConfigTypeError \<Rightarrow> Some (RunCrashed EnvSectionMissing, no_trace)
      | InvalidConfig \<Rightarrow> Some (RunInvalidConfig, no_trace)
      | ConfigOk cfg \<Rightarrow>
          (case tokenDecimals w (the (apiUrl cfg)) (the (itheumTokenId cfg)) of
             None \<Rightarrow> Some (RunCrashed TokenDefinitionFailed, no_trace)
           | Some decimals \<Rightarrow> map_option (register_stage w cfg) (snapshot_stage w cfg decimals)))"

subsection \<open>Stages\<close>

lemma chunkArray_batchSize: "chunkArray xs batchSize = Some (chunks batchSize xs)"
  by (simp add: batchSize_def chunkArray_def chunkArray_loop_chunks)

lemma snapshot_stage_Some:
  "snapshot_stage w cfg decimals =
     Some \<lparr>tokenPages = fst (snd (takeSnapshot (apiAt w (the (apiUrl cfg))) (the (itheumTokenId cfg)) decimals
                                  (itheumMinHoldAmount cfg) (the (trailblazerNftId cfg)))),
           sftPages = snd (snd (takeSnapshot (apiAt w (the (apiUrl cfg))) (the (itheumTokenId cfg)) decimals
                                  (itheumMinHoldAmount cfg) (the (trailblazerNftId cfg)))),
           snapshotMembers = members (fst (takeSnapshot (apiAt w (the (apiUrl cfg))) (the (itheumTokenId cfg))
                                  decimals (itheumMinHoldAmount cfg) (the (trailblazerNftId cfg)))),
           batches = chunks batchSize (members (fst (takeSnapshot (apiAt w (the (apiUrl cfg)))
                       (the (itheumTokenId cfg)) decimals (itheumMinHoldAmount cfg) (the (trailblazerNftId cfg))))),
           sentTxs = []\<rparr>"
  by (simp add: snapshot_stage_def split_def chunkArray_batchSize Let_def)

lemma loadEnvConfig_ok_fields:
  "loadEnvConfig c argv = ConfigOk cfg \<Longrightarrow>
     \<exists>api proxy tok nft sc. apiUrl cfg = Some api \<and> proxyUrl cfg = Some proxy \<and>
       itheumTokenId cfg = Some tok \<and> trailblazerNftId cfg = Some nft \<and> scAddress cfg = Some sc"
  by (auto simp: loadEnvConfig_def config_valid_def Let_def elim: js_truthy.elims
      split: option.splits if_splits)

lemma main_run_cases:
  assumes "main_run w argv = Some (st, tr)"
  shows "(loadEnvConfig (mxpyConfig w) argv = ConfigTypeError \<and> st = RunCrashed EnvSectionMissing \<and> tr = no_trace) \<or>
         (loadEnvConfig (mxpyConfig w) argv = InvalidConfig \<and> st = RunInvalidConfig \<and> tr = no_trace) \<or>
         (\<exists>cfg. loadEnvConfig (mxpyConfig w) argv = ConfigOk cfg \<and>
            tokenDecimals w (the (apiUrl cfg)) (the (itheumTokenId cfg)) = None \<and>
            st = RunCrashed TokenDefinitionFailed \<and> tr = no_trace) \<or>
         (\<exists>cfg d. loadEnvConfig (mxpyConfig w) argv = ConfigOk cfg \<and>
            tokenDecimals w (the (apiUrl cfg)) (the (itheumTokenId cfg)) = Some d \<and>
            register_stage w cfg (the (snapshot_stage w cfg d)) = (st, tr))"
  using assms by (auto simp: main_run_def snapshot_stage_Some split: config_outcome.splits option.splits)

lemma main_run_ok_path:
  "loadEnvConfig (mxpyConfig w) argv = ConfigOk cfg \<Longrightarrow>
   tokenDecimals w (the (apiUrl cfg)) (the (itheumTokenId cfg)) = Some d \<Longrightarrow>
   main_run w argv = Some (register_stage w cfg (the (snapshot_stage w cfg d)))"
  by (simp add: main_run_def snapshot_stage_Some)

lemma register_stage_cases:
  assumes "register_stage w cfg tr = (st, tr')"
  shows "(st = RunCrashed SignerFailed \<and> adminSigner w = None \<and> tr' = tr) \<or>
         (\<exists>a. adminSigner w = Some a \<and> accountNonce w (the (apiUrl cfg)) a = None \<and>
            st = RunCrashed AccountFailed \<and> tr' = tr) \<or>
         (\<exists>a n acc'. adminSigner w = Some a \<and> accountNonce w (the (apiUrl cfg)) a = Some n \<and>
            tr' = tr\<lparr>sentTxs := sentTxs tr'\<rparr> \<and>
            ((st = RunDone \<and>
              registerBatches (proxyAt w (the (proxyUrl cfg))) \<lparr>acc_address = a, nonce = n\<rparr>
                (the (scAddress cfg)) (batches tr) [] = (Inr (sentTxs tr'), acc')) \<or>
             (\<exists>e. st = RunCrashed (BatchFailed e) \<and>
              registerBatches (proxyAt w (the (proxyUrl cfg))) \<lparr>acc_address = a, nonce = n\<rparr>
                (the (scAddress cfg)) (batches tr) [] = (Inl (e, sentTxs tr'), acc'))))"
  using assms
  by (auto simp: register_stage_def newAccount_def account_update_def Let_def
      split: option.splits sum.splits prod.splits)

lemma register_stage_keeps:
  "register_stage w cfg tr = (st, tr') \<Longrightarrow>
     tokenPages tr' = tokenPages tr \<and> sftPages tr' = sftPages tr \<and>
     snapshotMembers tr' = snapshotMembers tr \<and> batches tr' = batches tr"
  by (auto simp: register_stage_def Let_def split: option.splits sum.splits prod.splits)

lemma register_stage_status:
  "register_stage w cfg tr = (st, tr') \<Longrightarrow>
     st \<noteq> RunInvalidConfig \<and> st \<noteq> RunCrashed EnvSectionMissing \<and> st \<noteq> RunCrashed TokenDefinitionFailed"
  by (drule register_stage_cases) auto

lemma takeSnapshot_tokenPages_nonempty:
  "fst (snd (takeSnapshot provider tokenId decimals minHold nftId)) \<noteq> []"
proof -
  have "fst (snd (takeSnapshot provider tokenId decimals minHold nftId)) =
        snd (scan_pages (getPaginatedTokenAccounts provider tokenId) (tokenPage decimals minHold) 1 empty_scan [])"
    by (simp add: takeSnapshot_def split_def Let_def tokenScan_def)
  with scan_pages_requests [of "getPaginatedTokenAccounts provider tokenId" "tokenPage decimals minHold" empty_scan]
  show ?thesis by auto
qed

lemma main_run_RunDone:
  assumes "main_run w argv = Some (RunDone, tr)"
  shows "\<exists>cfg d a n acc'. loadEnvConfig (mxpyConfig w) argv = ConfigOk cfg \<and>
     tokenDecimals w (the (apiUrl cfg)) (the (itheumTokenId cfg)) = Some d \<and>
     adminSigner w = Some a \<and> accountNonce w (the (apiUrl cfg)) a = Some n \<and>
     snapshotMembers tr = members (fst (takeSnapshot (apiAt w (the (apiUrl cfg))) (the (itheumTokenId cfg)) d
                                          (itheumMinHoldAmount cfg) (the (trailblazerNftId cfg)))) \<and>
     batches tr = chunks batchSize (snapshotMembers tr) \<and>
     registerBatches (proxyAt w (the (proxyUrl cfg))) \<lparr>acc_address = a, nonce = n\<rparr>
       (the (scAddress cfg)) (batches tr) [] = (Inr (sentTxs tr), acc')"
proof -
  from main_run_cases [OF assms] register_stage_status obtain cfg d where
    cfg: "loadEnvConfig (mxpyConfig w) argv = ConfigOk cfg"
    and d: "tokenDecimals w (the (apiUrl cfg)) (the (itheumTokenId cfg)) = Some d"
    and reg: "register_stage w cfg (the (snapshot_stage w cfg d)) = (RunDone, tr)"
    by blast
  from register_stage_cases [OF reg] obtain a n acc' where
    a: "adminSigner w = Some a" "accountNonce w (the (apiUrl cfg)) a = Some n"
    and tr: "tr = (the (snapshot_stage w cfg d))\<lparr>sentTxs := sentTxs tr\<rparr>"
    and run: "registerBatches (proxyAt w (the (proxyUrl cfg))) \<lparr>acc_address = a, nonce = n\<rparr>
                (the (scAddress cfg)) (batches (the (snapshot_stage w cfg d))) [] = (Inr (sentTxs tr), acc')"
    by auto
  have bs: "batches tr = batches (the (snapshot_stage w cfg d))"
    and mem: "snapshotMembers tr = snapshotMembers (the (snapshot_stage w cfg d))"
    by (subst tr; simp)+
  show ?thesis
    using cfg d a run
    by (intro exI [of _ cfg] exI [of _ d] exI [of _ a] exI [of _ n] exI [of _ acc'])
       (simp add: bs mem snapshot_stage_Some)
qed

subsection \<open>Properties of a run\<close>

text \<open>
  C20: a run that completes registers the snapshot: the configuration was accepted, the
  members are the first occurrences of the qualifying token holders and the SFT holders,
  the batches concatenate to the members with at most 500 each, and there is one
  transaction per batch, in order, with the batch's payload and the nonces counted up
  from the administrator's nonce on the network.
\<close>

theorem main_run_done:
  assumes "main_run w argv = Some (RunDone, tr)"
  shows "\<exists>cfg decimals a n.
     loadEnvConfig (mxpyConfig w) argv = ConfigOk cfg \<and>
     tokenDecimals w (the (apiUrl cfg)) (the (itheumTokenId cfg)) = Some decimals \<and>
     snapshotMembers tr = first_occurrences (snapshot_input (apiAt w (the (apiUrl cfg)))
        (the (itheumTokenId cfg)) decimals (itheumMinHoldAmount cfg) (the (trailblazerNftId cfg))) \<and>
     adminSigner w = Some a \<and> accountNonce w (the (apiUrl cfg)) a = Some n \<and>
     concat (batches tr) = snapshotMembers tr \<and>
     (\<forall>b \<in> set (batches tr). b \<noteq> [] \<and> length b \<le> 500) \<and>
     length (sentTxs tr) = length (batches tr) \<and>
     map tx_nonce (sentTxs tr) = [n..<n + length (batches tr)] \<and>
     (\<forall>i < length (batches tr). registerPayload (fromBech32 (proxyAt w (the (proxyUrl cfg)))) (batches tr ! i) =
                                 Inr (tx_data (sentTxs tr ! i)))"
proof -
  from main_run_RunDone [OF assms] obtain cfg d a n acc' where
    cfg: "loadEnvConfig (mxpyConfig w) argv = ConfigOk cfg"
    and d: "tokenDecimals w (the (apiUrl cfg)) (the (itheumTokenId cfg)) = Some d"
    and a: "adminSigner w = Some a" "accountNonce w (the (apiUrl cfg)) a = Some n"
    and mem: "snapshotMembers tr = members (fst (takeSnapshot (apiAt w (the (apiUrl cfg))) (the (itheumTokenId cfg)) d
                                          (itheumMinHoldAmount cfg) (the (trailblazerNftId cfg))))"
    and bs: "batches tr = chunks batchSize (snapshotMembers tr)"
    and run: "registerBatches (proxyAt w (the (proxyUrl cfg))) \<lparr>acc_address = a, nonce = n\<rparr>
                (the (scAddress cfg)) (batches tr) [] = (Inr (sentTxs tr), acc')"
    by blast
  have "concat (batches tr) = snapshotMembers tr" "\<forall>b \<in> set (batches tr). b \<noteq> [] \<and> length b \<le> 500"
    by (simp_all add: bs concat_chunks chunks_sizes batchSize_def)
  with registerBatches_Inr [OF run] show ?thesis
    using cfg d a
    by (intro exI [of _ cfg] exI [of _ d] exI [of _ a] exI [of _ n])
       (auto simp: mem takeSnapshot_members_from first_occurrences_def)
qed

lemma outcome_state_sent:
  "registerBatches ch acc sc bs [] = (r, acc') \<Longrightarrow>
   (r = Inr txs \<or> (\<exists>e. r = Inl (e, txs))) \<Longrightarrow> sent_ok ch sc acc txs"
  using registerBatches_inv [of ch sc acc bs]
  by (auto simp: outcome_state_def loop_inv_def)

lemma main_run_sent_ok:
  assumes "main_run w argv = Some (st, tr)" "sentTxs tr \<noteq> []"
  shows "\<exists>cfg a n. loadEnvConfig (mxpyConfig w) argv = ConfigOk cfg \<and>
           adminSigner w = Some a \<and> accountNonce w (the (apiUrl cfg)) a = Some n \<and>
           sent_ok (proxyAt w (the (proxyUrl cfg))) (the (scAddress cfg)) \<lparr>acc_address = a, nonce = n\<rparr> (sentTxs tr)"
proof -
  obtain cfg d where
    cfg: "loadEnvConfig (mxpyConfig w) argv = ConfigOk cfg"
    and reg: "register_stage w cfg (the (snapshot_stage w cfg d)) = (st, tr)"
    using main_run_cases [OF assms(1)] assms(2) by (auto simp: no_trace_def)
  from register_stage_cases [OF reg] assms(2) snapshot_stage_Some obtain a n r acc' where
    a: "adminSigner w = Some a" "accountNonce w (the (apiUrl cfg)) a = Some n"
    and run: "registerBatches (proxyAt w (the (proxyUrl cfg))) \<lparr>acc_address = a, nonce = n\<rparr>
                (the (scAddress cfg)) (batches (the (snapshot_stage w cfg d))) [] = (r, acc')"
    and r: "r = Inr (sentTxs tr) \<or> (\<exists>e. r = Inl (e, sentTxs tr))"
    by (auto simp: snapshot_stage_Some)
  have ok: "sent_ok (proxyAt w (the (proxyUrl cfg))) (the (scAddress cfg)) \<lparr>acc_address = a, nonce = n\<rparr> (sentTxs tr)"
    by (rule outcome_state_sent [OF run r])
  with cfg a show ?thesis by blast
qed

text \<open>\<^const>\<open>main_run\<close> itself never reports a configuration file error, and without a signer it sends nothing.\<close>

lemma main_run_not_file_error:
  assumes "main_run w argv = Some (st, tr)"
  shows "st \<noteq> RunCrashed ConfigFileUnreadable \<and> st \<noteq> RunCrashed ConfigFileMalformed"
proof -
  have "register_stage w cfg tr0 = (st, tr) \<Longrightarrow> st \<noteq> RunCrashed ConfigFileUnreadable \<and> st \<noteq> RunCrashed ConfigFileMalformed"
    for cfg tr0 by (drule register_stage_cases) auto
  with main_run_cases [OF assms] show ?thesis by blast
qed

lemma main_run_no_signer:
  assumes "main_run w argv = Some (st, tr)" "adminSigner w = None"
  shows "sentTxs tr = [] \<and> st \<noteq> RunDone"
proof -
  have "sentTxs tr = []" using main_run_sent_ok [OF assms(1)] assms(2) by auto
  moreover have "register_stage w cfg tr0 = (st, tr) \<Longrightarrow> st \<noteq> RunDone" for cfg tr0
    using assms(2) by (auto dest: register_stage_cases)
  ultimately show ?thesis using main_run_cases [OF assms(1)] by blast
qed

text \<open>
  C22: every transaction a run sends, whatever its outcome, was sent after the
  configuration was accepted, goes to the configured contract address, comes from the
  administrator's signer, was accepted by the network, stays within the gas cap, and
  carries a nonce counted up from the administrator's nonce on the network; the nonces of
  a run are pairwise different.
\<close>

theorem main_run_sent_safe:
  assumes "main_run w argv = Some (st, tr)"
  shows "distinct (map tx_nonce (sentTxs tr)) \<and>
         (\<forall>tx \<in> set (sentTxs tr). \<exists>cfg a n.
            loadEnvConfig (mxpyConfig w) argv = ConfigOk cfg \<and>
            adminSigner w = Some a \<and> accountNonce w (the (apiUrl cfg)) a = Some n \<and>
            scAddress cfg = Some (JStr (tx_receiver tx)) \<and> tx_sender tx = a \<and>
            broadcastAccepted (proxyAt w (the (proxyUrl cfg))) tx \<and>
            tx_gasLimit tx \<le> MaxBlockGasLimit \<and>
            n \<le> tx_nonce tx \<and> tx_nonce tx < n + length (sentTxs tr))"
proof (cases "sentTxs tr = []")
  case False
  from main_run_sent_ok [OF assms False] obtain cfg a n where
    cfg: "loadEnvConfig (mxpyConfig w) argv = ConfigOk cfg"
    and a: "adminSigner w = Some a" "accountNonce w (the (apiUrl cfg)) a = Some n"
    and ok: "sent_ok (proxyAt w (the (proxyUrl cfg))) (the (scAddress cfg)) \<lparr>acc_address = a, nonce = n\<rparr> (sentTxs tr)"
    by blast
  from loadEnvConfig_ok_fields [OF cfg] obtain sc where sc: "scAddress cfg = Some sc" by blast
  have nonces: "map tx_nonce (sentTxs tr) = [n..<n + length (sentTxs tr)]"
    using ok by (simp add: sent_ok_def)
  have "\<forall>tx \<in> set (sentTxs tr). n \<le> tx_nonce tx \<and> tx_nonce tx < n + length (sentTxs tr)"
  proof
    fix tx assume "tx \<in> set (sentTxs tr)"
    then have "tx_nonce tx \<in> set (map tx_nonce (sentTxs tr))" by simp
    then show "n \<le> tx_nonce tx \<and> tx_nonce tx < n + length (sentTxs tr)" by (simp add: nonces)
  qed
  with ok cfg a sc show ?thesis
    by (auto simp: sent_ok_def nonces intro!: exI [of _ cfg])
qed simp

text \<open>
  C23: the run stops before any request to the chain exactly when the configuration is
  rejected, its section is missing, or the token definition cannot be fetched; otherwise
  the first token page has been requested. A rejected configuration is the only way to a
  clean return without work.
\<close>

theorem main_run_early_exit:
  assumes "main_run w argv = Some (st, tr)"
  shows "(st = RunInvalidConfig \<longleftrightarrow> loadEnvConfig (mxpyConfig w) argv = InvalidConfig) \<and>
         (st = RunCrashed EnvSectionMissing \<longleftrightarrow> loadEnvConfig (mxpyConfig w) argv = ConfigTypeError) \<and>
         ((st = RunInvalidConfig \<or> st = RunCrashed EnvSectionMissing \<or> st = RunCrashed TokenDefinitionFailed) \<longleftrightarrow>
          tokenPages tr = []) \<and>
         (tokenPages tr = [] \<longrightarrow> tr = no_trace)"
proof -
  have scanned: "tokenPages tr \<noteq> []"
    if "register_stage w cfg (the (snapshot_stage w cfg d)) = (st, tr)" for cfg d
  proof -
    from register_stage_cases [OF that] have "tokenPages tr = tokenPages (the (snapshot_stage w cfg d))"
      by (metis run_trace.select_convs(1) run_trace.surjective run_trace.update_convs(5))
    then show ?thesis by (simp add: snapshot_stage_Some takeSnapshot_tokenPages_nonempty)
  qed
  from main_run_cases [OF assms] show ?thesis
  proof (elim disjE exE conjE)
    fix cfg d
    assume "loadEnvConfig (mxpyConfig w) argv = ConfigOk cfg"
      and reg: "register_stage w cfg (the (snapshot_stage w cfg d)) = (st, tr)"
    with register_stage_status [OF reg] scanned [OF reg] show ?thesis by simp
  qed (simp_all add: no_trace_def)
qed

text \<open>
  C24: the administrator's key is read only after both scans: when it cannot be loaded,
  the run still fetches every holder page and builds the snapshot and its batches, then
  crashes without sending anything.
\<close>

theorem main_run_signer_after_scan:
  assumes "loadEnvConfig (mxpyConfig w) argv = ConfigOk cfg"
    and "tokenDecimals w (the (apiUrl cfg)) (the (itheumTokenId cfg)) = Some d"
    and "adminSigner w = None"
  shows "main_run w argv = Some (RunCrashed SignerFailed, the (snapshot_stage w cfg d)) \<and>
         snapshotMembers (the (snapshot_stage w cfg d)) =
           members (fst (takeSnapshot (apiAt w (the (apiUrl cfg))) (the (itheumTokenId cfg)) d
                           (itheumMinHoldAmount cfg) (the (trailblazerNftId cfg)))) \<and>
         tokenPages (the (snapshot_stage w cfg d)) \<noteq> [] \<and>
         sentTxs (the (snapshot_stage w cfg d)) = []"
  using main_run_ok_path [OF assms(1,2)] assms(3)
  by (simp add: register_stage_def snapshot_stage_Some takeSnapshot_tokenPages_nonempty)

text \<open>
  C25: a run that fails while registering leaves a partial registration: for some
  \<open>k\<close> smaller than the number of batches, exactly the first \<open>k\<close> batches were sent, each
  with its payload, and none of the later members is registered.
\<close>

theorem main_run_batch_failure:
  assumes "main_run w argv = Some (RunCrashed (BatchFailed e), tr)"
  shows "\<exists>cfg k. loadEnvConfig (mxpyConfig w) argv = ConfigOk cfg \<and>
           k < length (batches tr) \<and> length (sentTxs tr) = k \<and>
           (\<forall>i < k. registerPayload (fromBech32 (proxyAt w (the (proxyUrl cfg)))) (batches tr ! i) =
                      Inr (tx_data (sentTxs tr ! i))) \<and>
           concat (take k (batches tr)) @ concat (drop k (batches tr)) = snapshotMembers tr"
proof -
  from main_run_cases [OF assms] obtain cfg d where
    cfg: "loadEnvConfig (mxpyConfig w) argv = ConfigOk cfg"
    and reg: "register_stage w cfg (the (snapshot_stage w cfg d)) = (RunCrashed (BatchFailed e), tr)"
    by auto
  from register_stage_cases [OF reg] obtain a n acc' where
    tr: "tr = (the (snapshot_stage w cfg d))\<lparr>sentTxs := sentTxs tr\<rparr>"
    and run: "registerBatches (proxyAt w (the (proxyUrl cfg))) \<lparr>acc_address = a, nonce = n\<rparr>
                (the (scAddress cfg)) (batches (the (snapshot_stage w cfg d))) [] = (Inl (e, sentTxs tr), acc')"
    by auto
  have bs: "batches tr = batches (the (snapshot_stage w cfg d))"
    and mem: "snapshotMembers tr = snapshotMembers (the (snapshot_stage w cfg d))"
    by (subst tr; simp)+
  from registerBatches_Inl [OF run] obtain k where
    k: "k < length (batches tr)" "length (sentTxs tr) = k"
       "\<forall>i < k. registerPayload (fromBech32 (proxyAt w (the (proxyUrl cfg)))) (batches tr ! i) =
                  Inr (tx_data (sentTxs tr ! i))"
    by (auto simp: bs)
  have "concat (batches tr) = snapshotMembers tr"
    by (simp add: bs mem snapshot_stage_Some concat_chunks batchSize_def)
  then have "concat (take k (batches tr)) @ concat (drop k (batches tr)) = snapshotMembers tr"
    by (simp flip: concat_append)
  with cfg k show ?thesis by blast
qed

text \<open>
  C26: with no qualifying holder the run makes no batch and sends nothing; it still loads
  the key and the account, and completes when both succeed.
\<close>

theorem main_run_empty_snapshot:
  assumes "loadEnvConfig (mxpyConfig w) argv = ConfigOk cfg"
    and "tokenDecimals w (the (apiUrl cfg)) (the (itheumTokenId cfg)) = Some d"
    and "members (fst (takeSnapshot (apiAt w (the (apiUrl cfg))) (the (itheumTokenId cfg)) d
                     (itheumMinHoldAmount cfg) (the (trailblazerNftId cfg)))) = []"
  shows "\<exists>st tr. main_run w argv = Some (st, tr) \<and> batches tr = [] \<and> sentTxs tr = [] \<and>
           (st = RunDone \<longleftrightarrow> (\<exists>a n. adminSigner w = Some a \<and> accountNonce w (the (apiUrl cfg)) a = Some n))"
  using main_run_ok_path [OF assms(1,2)] assms(3)
  by (auto simp: register_stage_def snapshot_stage_Some newAccount_def account_update_def
      split: option.splits)

end
