(* ===== verification/Payload.thy ===== *)
theory Payload
  imports Encoding
begin

text \<open>
  The data field as the contract reads it: split at \<open>@\<close> into the function name and the
  arguments, every argument decoded from hexadecimal, the arguments read in pairs of a
  public key and a big-endian weight. This decoder is the reference the payload built by
  \<open>registerSnapshotInContract\<close> (lines 150--154) is checked against; it is not code of
  the script.
\<close>

fun split_at_char :: "char \<Rightarrow> string \<Rightarrow> string list" where
  "split_at_char c [] = [[]]"
| "split_at_char c (x # xs) =
     (if x = c then [] # split_at_char c xs
      else (case split_at_char c xs of [] \<Rightarrow> [[x]] | y # ys \<Rightarrow> (x # y) # ys))"

fun arg_pairs :: "'a list \<Rightarrow> ('a \<times> 'a) list option" where
  "arg_pairs [] = Some []"
| "arg_pairs [x] = None"
| "arg_pairs (x # y # rest) = map_option (\<lambda>ps. (x, y) # ps) (arg_pairs rest)"

definition decode_members :: "string \<Rightarrow> (string \<times> (8 word list \<times> nat) list) option" where
  "decode_members p =
     (case split_at_char (CHR ''@'') p of
        [] \<Rightarrow> None
      | f # args \<Rightarrow>
          (case those (map hex_decode args) of
             None \<Rightarrow> None
           | Some bss \<Rightarrow> map_option (\<lambda>ps. (f, map (\<lambda>(k, w). (k, bytes_to_nat w)) ps)) (arg_pairs bss)))"

subsection \<open>Splitting\<close>

lemma split_at_char_nonempty: "split_at_char c xs \<noteq> []"
  by (induction xs) (auto split: list.split)

lemma split_at_char_no_sep: "c \<notin> set xs \<Longrightarrow> split_at_char c xs = [xs]"
  by (induction xs) auto

lemma split_at_char_append_sep:
  "c \<notin> set xs \<Longrightarrow> split_at_char c (xs @ c # ys) = xs # split_at_char c ys"
proof (induction xs)
  case (Cons x xs)
  then have "x \<noteq> c" by auto
  with Cons show ?case by simp
qed simp

lemma split_at_char_join_args:
  "args \<noteq> [] \<Longrightarrow> (\<forall>a \<in> set args. CHR ''@'' \<notin> set a) \<Longrightarrow>
   split_at_char (CHR ''@'') (join_args args) = args"
  by (induction args rule: join_args.induct) (simp_all add: split_at_char_no_sep split_at_char_append_sep)

subsection \<open>Hexadecimal arguments\<close>

lemma hex_digit_mem: "d < 16 \<Longrightarrow> hex_digit d \<in> set hex_chars"
  unfolding hex_digit_def by (rule nth_mem) (simp add: hex_chars_def)

lemma set_hex_of_bytes: "set (hex_of_bytes bs) \<subseteq> set hex_chars"
proof -
  have "unat b div 16 < 16" "unat b mod 16 < 16" for b :: "8 word"
  proof -
    have "unat b < 2 ^ LENGTH(8)" by (rule unsigned_less)
    then show "unat b div 16 < 16" "unat b mod 16 < 16" by simp_all
  qed
  then show ?thesis by (auto simp: hex_of_bytes_def hex_byte_def hex_digit_mem)
qed

lemma at_notin_hex_of_bytes: "CHR ''@'' \<notin> set (hex_of_bytes bs)"
  using set_hex_of_bytes [of bs] by (auto simp: hex_chars_def)

lemma those_hex_decode: "those (map (\<lambda>bs. hex_decode (hex_of_bytes bs)) bss) = Some bss"
  by (induction bss) (simp_all add: hex_decode_hex_of_bytes)

lemma arg_pairs_concat: "arg_pairs (concat (map (\<lambda>x. [f x, g x]) xs)) = Some (map (\<lambda>x. (f x, g x)) xs)"
  by (induction xs) simp_all

lemma nth_concat_pairs:
  "i < length xs \<Longrightarrow> concat (map (\<lambda>x. [f x, g x]) xs) ! (2 * i) = f (xs ! i)"
proof (induction xs arbitrary: i)
  case (Cons x xs)
  then show ?case by (cases i) simp_all
qed simp

lemma join_args_Cons_nonempty: "a \<noteq> [] \<Longrightarrow> join_args (a # rest) \<noteq> []"
  by (cases rest) simp_all

lemma split_registerPayload:
  assumes "registerPayload dec es = Inr p"
  shows "split_at_char (CHR ''@'') p =
           registerFunction # concat (map (\<lambda>e. [hex_of_bytes (the (dec (member_address e))),
                                 hex_of_bytes (biguint_bytes (the (biguint_of_string (weight e))))]) es)"
proof -
  obtain args where args: "encode_args dec es = Inr args" and p: "p = build_payload registerFunction args"
    using assms by (auto simp: registerPayload_def split: sum.splits)
  note enc = encode_args_length [OF args]
  have fn: "CHR ''@'' \<notin> set registerFunction" by (simp add: registerFunction_def)
  have no_at: "\<forall>a \<in> set args. CHR ''@'' \<notin> set a"
    using enc by (auto simp: at_notin_hex_of_bytes)
  show ?thesis
  proof (cases es)
    case Nil
    with enc p fn show ?thesis by (simp add: build_payload_def split_at_char_no_sep)
  next
    case (Cons e es')
    have pk: "length (the (dec (member_address e))) = pubkey_length" using enc Cons by simp
    then obtain rest where ar: "args = hex_of_bytes (the (dec (member_address e))) # rest"
      using enc Cons by simp
    have "hex_of_bytes (the (dec (member_address e))) \<noteq> []"
      using pk by (simp add: length_hex_of_bytes pubkey_length_def flip: length_greater_0_conv)
    then have ne: "join_args args \<noteq> []" by (simp add: ar join_args_Cons_nonempty)
    have "p = registerFunction @ CHR ''@'' # join_args args"
      using ne by (simp add: p build_payload_def)
    then have "split_at_char (CHR ''@'') p = registerFunction # args"
      using fn no_at ar by (simp add: split_at_char_append_sep split_at_char_join_args)
    with enc show ?thesis by simp
  qed
qed

subsection \<open>Properties of the data field\<close>

lemma decode_members_payload:
  assumes "registerPayload dec es = Inr p"
  shows "decode_members p =
           Some (registerFunction,
                 map (\<lambda>e. (the (dec (member_address e)), the (biguint_of_string (weight e)))) es)"
proof -
  obtain args where args: "encode_args dec es = Inr args"
    using assms by (auto simp: registerPayload_def split: sum.splits)
  note enc = encode_args_length [OF args]
  let ?bss = "concat (map (\<lambda>e. [the (dec (member_address e)),
                               biguint_bytes (the (biguint_of_string (weight e)))]) es)"
  have hex: "concat (map (\<lambda>e. [hex_of_bytes (the (dec (member_address e))),
                               hex_of_bytes (biguint_bytes (the (biguint_of_string (weight e))))]) es) =
             map hex_of_bytes ?bss"
    by (simp add: map_concat comp_def)
  have vals: "map (\<lambda>e. (the (dec (member_address e)), bytes_to_nat (biguint_bytes (the (biguint_of_string (weight e)))))) es =
              map (\<lambda>e. (the (dec (member_address e)), the (biguint_of_string (weight e)))) es"
    by (simp add: bytes_to_nat_biguint_bytes)
  show ?thesis
    using split_registerPayload [OF assms] vals
    by (simp add: decode_members_def hex those_hex_decode arg_pairs_concat comp_def)
qed

text \<open>
  C27: the data field round-trips: decoding it as the contract does (split at \<open>@\<close>,
  hexadecimal, pairs of key and big-endian weight) gives back the function name and, for
  every member in order, the public key its address decodes to and the integer its
  weight denotes.
\<close>

theorem decode_registerPayload:
  assumes "registerPayload dec es = Inr p"
  shows "decode_members p =
           Some (registerFunction,
                 map (\<lambda>e. (the (dec (member_address e)), the (biguint_of_string (weight e)))) es)"
  using assms by (rule decode_members_payload)

text \<open>
  C28: the data field is well formed: the function name, then two arguments per member,
  each an even-length string of lower-case hexadecimal digits; the address arguments have
  exactly 64 digits (a 32-byte key).
\<close>

theorem registerPayload_well_formed:
  assumes "registerPayload dec es = Inr p"
  shows "\<exists>args. p = build_payload registerFunction args \<and> length args = 2 * length es \<and>
           (\<forall>i < length es. length (args ! (2 * i)) = 64) \<and>
           (\<forall>a \<in> set args. even (length a) \<and> set a \<subseteq> set hex_chars)"
proof -
  obtain args where args: "encode_args dec es = Inr args" and p: "p = build_payload registerFunction args"
    using assms by (auto simp: registerPayload_def split: sum.splits)
  note enc = encode_args_length [OF args]
  have "length args = 2 * length es" using enc by (simp add: length_concat_pairs)
  moreover have "\<forall>i < length es. length (args ! (2 * i)) = 64"
    using enc by (auto simp: nth_concat_pairs length_hex_of_bytes pubkey_length_def)
  moreover have "\<forall>a \<in> set args. even (length a) \<and> set a \<subseteq> set hex_chars"
    using enc by (auto simp: length_hex_of_bytes set_hex_of_bytes)
  ultimately show ?thesis using p by blast
qed

end
