(* ===== verification/Effects.thy ===== *)
theory Effects
  imports Run
begin

text \<open>
  The effects of \<open>main\<close> in the order it performs them: reading the configuration file,
  the console lines it logs, the pauses of \<open>timeout\<close> (\<^verbatim>\<open>src/snapshot/shared/helpers.ts\<close>,
  lines 3--9), and every request to the chain. \<open>main_events\<close> is the same control flow as
  \<open>main_run\<close> with each step emitting its events; the number interpolations of the log
  lines are JavaScript's \<open>Number.prototype.toString\<close> (\<open>js_number_string\<close>), exact for
  decimals of at most 15 significant digits between \<open>10^-6\<close> and \<open>10^21\<close>, where JavaScript
  does not switch to exponent notation.
\<close>

datatype event =
    ReadConfigFile
  | Log string
  | Wait nat
  | FetchTokenDefinition jval
  | FetchPage api_request
  | ReadAdminPem
  | FetchAccount address
  | FetchNetworkConfig
  | Broadcast nat

subsection \<open>Number to string\<close>

definition digit_char :: "nat \<Rightarrow> char" where
  "digit_char d = ''0123456789'' ! d"

fun nat_str :: "nat \<Rightarrow> string" where
  "nat_str n = (if n < 10 then [digit_char n] else nat_str (n div 10) @ [digit_char (n mod 10)])"

declare nat_str.simps [simp del]

fun strip_zeros :: "int \<Rightarrow> nat \<Rightarrow> int \<times> nat" where
  "strip_zeros m s = (if 0 < s \<and> 10 dvd m then strip_zeros (m div 10) (s - 1) else (m, s))"

declare strip_zeros.simps [simp del]

definition js_number_string :: "numval \<Rightarrow> string" where
  "js_number_string x =
     (case x of
        NaN \<Rightarrow> ''NaN''
      | PInf \<Rightarrow> ''Infinity''
      | NInf \<Rightarrow> ''-Infinity''
      | Dec m s \<Rightarrow>
          (let (m', s') = strip_zeros m s;
               ds = nat_str (nat \<bar>m'\<bar>);
               padded = replicate (Suc s' - length ds) (CHR ''0'') @ ds;
               sign = (if m' < 0 then ''-'' else [])
           in if s' = 0 then sign @ ds
              else sign @ take (length padded - s') padded @ ''.'' @ drop (length padded - s') padded))"

text \<open>\<open>String(env)\<close> in a template literal: a missing argument prints as \<open>undefined\<close>.\<close>

definition env_str :: "string option \<Rightarrow> string" where
  "env_str env = (case env of None \<Rightarrow> ''undefined'' | Some e \<Rightarrow> e)"

subsection \<open>\<open>timeout\<close>\<close>

definition timeout_events :: "nat \<Rightarrow> bool \<Rightarrow> event list" where
  "timeout_events milliseconds log_arg =
     (if log_arg then [Log (''Waiting for '' @ js_number_string (Dec (int milliseconds) 3) @ '' seconds...'')]
      else []) @ [Wait milliseconds]"

subsection \<open>The page loops with their effects\<close>

definition tokenRequest :: "jval \<Rightarrow> nat \<Rightarrow> api_request" where
  "tokenRequest tokenId page = TokenAccounts tokenId ((page - 1) * perPage) perPage"

definition sftRequest :: "jval \<Rightarrow> nat \<Rightarrow> api_request" where
  "sftRequest nftId page = SftAccounts nftId ((page - 1) * perPage) perPage"

function scan_events ::
  "api \<Rightarrow> (nat \<Rightarrow> api_request) \<Rightarrow> (scan_state \<Rightarrow> candidate list \<Rightarrow> scan_state) \<Rightarrow>
   nat \<Rightarrow> scan_state \<Rightarrow> event list \<Rightarrow> scan_state \<times> event list" where
  "scan_events provider req handle page st evs =
     (if page \<le> 10 then
        (let cands = provider (req page) in
         if cands = [] then (st, evs @ [FetchPage (req page)])
         else scan_events provider req handle (Suc page) (handle st cands)
                (evs @ [FetchPage (req page)] @ timeout_events 500 False))
      else (st, evs))"
  by pat_completeness auto
termination
  by (relation "measure (\<lambda>(provider, req, handle, page, st, evs). 11 - page)") auto

declare scan_events.simps [simp del]

subsection \<open>The batch loop with its effects\<close>

text \<open>
  One call of \<open>registerSnapshotInContract\<close>: the network configuration is requested;
  the transaction is broadcast when the payload and the receiver could be built (the
  broadcast may then be rejected).
\<close>

definition call_events :: "chain_env \<Rightarrow> account \<Rightarrow> jval \<Rightarrow> member list \<Rightarrow> event list" where
  "call_events ch acc contract entries =
     FetchNetworkConfig #
     (case networkConfig ch of
        None \<Rightarrow> []
      | Some nc \<Rightarrow>
          (case registerPayload (fromBech32 ch) entries of
             Inl _ \<Rightarrow> []
           | Inr _ \<Rightarrow> (case receiver_address ch contract of None \<Rightarrow> [] | Some _ \<Rightarrow> [Broadcast (nonce acc)])))"

fun register_events ::
  "chain_env \<Rightarrow> account \<Rightarrow> jval \<Rightarrow> member list list \<Rightarrow> nat \<Rightarrow> nat \<Rightarrow> event list" where
  "register_events ch acc contract [] i n = []"
| "register_events ch acc contract (b # bs) i n =
     Log (''Registering members batch '' @ nat_str (Suc i) @ '' of '' @ nat_str n @ '' ...'') #
     call_events ch acc contract b @
     (case registerSnapshotInContract ch acc contract b of
        (Inl _, _) \<Rightarrow> []
      | (Inr _, acc') \<Rightarrow> timeout_events 500 False @ register_events ch acc' contract bs (Suc i) n)"

subsection \<open>\<open>main\<close> with its effects\<close>

text \<open>Lines 100--112: the signer, the account, the batch loop and the final message.\<close>

definition register_stage_events :: "world \<Rightarrow> env_config \<Rightarrow> member list list \<Rightarrow> nat \<Rightarrow> event list" where
  "register_stage_events w cfg bs memberCount =
     ReadAdminPem #
     (case adminSigner w of
        None \<Rightarrow> []
      | Some a \<Rightarrow>
          FetchAccount a #
          (case accountNonce w (the (apiUrl cfg)) a of
             None \<Rightarrow> []
           | Some n \<Rightarrow>
               register_events (proxyAt w (the (proxyUrl cfg))) (account_update (newAccount a) n)
                 (the (scAddress cfg)) bs 0 (length bs) @
               (case registerBatches (proxyAt w (the (proxyUrl cfg))) (account_update (newAccount a) n)
                       (the (scAddress cfg)) bs [] of
                  (Inr _, _) \<Rightarrow> [Log (''Done! Snapshot of total '' @ nat_str memberCount @ '' members registered!'')]
                | (Inl _, _) \<Rightarrow> [])))"

definition main_events :: "world \<Rightarrow> string list \<Rightarrow> event list option" where
  "main_events w argv =
     map_option (Cons ReadConfigFile)
     (case loadEnvConfig (mxpyConfig w) argv of
        ConfigTypeError \<Rightarrow> Some []
      | InvalidConfig \<Rightarrow>
          Some [Log (''Invalid '' @ [CHR 0x27] @ env_str (getArg argv 0) @ [CHR 0x27] @ '' config'')]
      | ConfigOk cfg \<Rightarrow>
          map_option (Cons (FetchTokenDefinition (the (itheumTokenId cfg))))
          (case tokenDecimals w (the (apiUrl cfg)) (the (itheumTokenId cfg)) of
             None \<Rightarrow> Some []
           | Some decimals \<Rightarrow>
               (let api = apiAt w (the (apiUrl cfg));
                    (st1, ev1) = scan_events api (tokenRequest (the (itheumTokenId cfg)))
                                   (tokenPage decimals (itheumMinHoldAmount cfg)) 1 empty_scan [];
                    (st2, ev2) = scan_events api (sftRequest (the (trailblazerNftId cfg))) sftPage 1 st1 []
                in map_option (\<lambda>bs.
                     Log (''Scanning ITHEUM token holders with minimum '' @
                          js_number_string (itheumMinHoldAmount cfg) @ '' $ITHEUM ...'') #
                     ev1 @ [Log ''ITHEUM token snapshot completed!'', Log ''Scanning Trailblazer SFT holders ...''] @
                     ev2 @ [Log (nat_str (length (members st2)) @ '' have been included in the snapshot.''),
                            Log ''Registering snapshot batches in smart contract ...''] @
                     register_stage_events w cfg bs (length (members st2)))
                   (chunkArray (members st2) batchSize))))"

subsection \<open>Observations of a trace\<close>

fun page_request :: "event \<Rightarrow> api_request option" where
  "page_request (FetchPage r) = Some r"
| "page_request _ = None"

text \<open>The progress line logged before each batch (line 107) and the final line (line 112).\<close>

fun batch_log :: "event \<Rightarrow> bool" where
  "batch_log (Log s) = prefix ''Registering members batch '' s"
| "batch_log _ = False"

fun done_log :: "event \<Rightarrow> bool" where
  "done_log (Log s) = prefix ''Done!'' s"
| "done_log _ = False"

text \<open>The number of batches the loop attempted: those sent, and the one that threw.\<close>

definition attempted :: "(submit_error \<times> transaction list) + transaction list \<Rightarrow> nat" where
  "attempted r = (case r of Inr txs \<Rightarrow> length txs | Inl (e, txs) \<Rightarrow> Suc (length txs))"

fun broadcast_nonce :: "event \<Rightarrow> nat option" where
  "broadcast_nonce (Broadcast n) = Some n"
| "broadcast_nonce _ = None"

fun failed_nonce :: "submit_error \<Rightarrow> nat list" where
  "failed_nonce (BroadcastFailed n) = [n]"
| "failed_nonce _ = []"

definition outcome_broadcasts :: "((submit_error \<times> transaction list) + transaction list) \<times> account \<Rightarrow> nat list" where
  "outcome_broadcasts r =
     (case r of (Inr txs, _) \<Rightarrow> map tx_nonce txs | (Inl (e, txs), _) \<Rightarrow> map tx_nonce txs @ failed_nonce e)"

fun is_token_fetch :: "event \<Rightarrow> bool" where
  "is_token_fetch (FetchPage (TokenAccounts _ _ _)) = True"
| "is_token_fetch _ = False"

fun is_sft_fetch :: "event \<Rightarrow> bool" where
  "is_sft_fetch (FetchPage (SftAccounts _ _ _)) = True"
| "is_sft_fetch _ = False"

fun is_broadcast :: "event \<Rightarrow> bool" where
  "is_broadcast (Broadcast _) = True"
| "is_broadcast _ = False"

text \<open>
  \<open>spaced P evs\<close>: between two events satisfying \<open>P\<close> there is a pause of 500 ms: in the
  trace restricted to those events and the pauses, no two \<open>P\<close>-events are adjacent.
\<close>

fun no_adjacent :: "('a \<Rightarrow> bool) \<Rightarrow> 'a list \<Rightarrow> bool" where
  "no_adjacent P (x # y # rest) = (\<not> (P x \<and> P y) \<and> no_adjacent P (y # rest))"
| "no_adjacent P _ = True"

definition spaced :: "(event \<Rightarrow> bool) \<Rightarrow> event list \<Rightarrow> bool" where
  "spaced P evs = no_adjacent P (filter (\<lambda>e. P e \<or> e = Wait 500) evs)"

subsection \<open>The effect loops against the value loops\<close>

definition page_events :: "api \<Rightarrow> (nat \<Rightarrow> api_request) \<Rightarrow> nat list \<Rightarrow> event list" where
  "page_events provider req pages =
     concat (map (\<lambda>q. FetchPage (req q) # (if provider (req q) = [] then [] else timeout_events 500 False)) pages)"

lemma scan_pages_acc:
  "scan_pages fetch handle p st acc = (fst (scan_pages fetch handle p st []), acc @ snd (scan_pages fetch handle p st []))"
  by (simp add: scan_pages_eq)

lemma scan_events_pages:
  "scan_events provider req handle p st evs =
     (fst (scan_pages (\<lambda>q. provider (req q)) handle p st []),
      evs @ page_events provider req (snd (scan_pages (\<lambda>q. provider (req q)) handle p st [])))"
proof (induction provider req handle p st evs rule: scan_events.induct)
  case (1 provider req handle page st evs)
  let ?f = "\<lambda>q. provider (req q)"
  show ?case
  proof (cases "page \<le> 10 \<and> provider (req page) \<noteq> []")
    case True
    have step: "scan_pages ?f handle page st [] = scan_pages ?f handle (Suc page) (handle st (provider (req page))) [page]"
      using True by (simp add: scan_pages.simps [of ?f handle page st "[]"])
    show ?thesis
      using True "1.IH" [OF conjunct1 [OF True] refl conjunct2 [OF True]]
      by (simp add: scan_events.simps [of provider req handle page st evs] step
          scan_pages_acc [of ?f handle "Suc page" _ "[page]"] page_events_def Let_def)
  next
    case False
    then show ?thesis
      by (auto simp: scan_events.simps [of provider req handle page st evs]
          scan_pages.simps [of ?f handle page st "[]"] page_events_def)
  qed
qed

lemma getPaginatedTokenAccounts_req: "getPaginatedTokenAccounts provider tokenId = (\<lambda>q. provider (tokenRequest tokenId q))"
  by (simp add: getPaginatedTokenAccounts_def tokenRequest_def fun_eq_iff)

lemma getPaginatedSftAccounts_req: "getPaginatedSftAccounts provider nftId = (\<lambda>q. provider (sftRequest nftId q))"
  by (simp add: getPaginatedSftAccounts_def sftRequest_def fun_eq_iff)

lemma call_events_broadcasts:
  "List.map_filter broadcast_nonce (call_events ch acc sc b) =
     (case registerSnapshotInContract ch acc sc b of
        (Inr tx, _) \<Rightarrow> [tx_nonce tx] | (Inl e, _) \<Rightarrow> failed_nonce e)"
  by (auto simp: call_events_def registerSnapshotInContract_def getNonceThenIncrement_def Let_def
      dest: registerPayload_error split: option.splits sum.splits)

lemma register_events_broadcasts:
  "map tx_nonce sent @ List.map_filter broadcast_nonce (register_events ch acc sc bs i n) =
     outcome_broadcasts (registerBatches ch acc sc bs sent)"
proof (induction bs arbitrary: acc sent i)
  case Nil
  then show ?case by (simp add: outcome_broadcasts_def)
next
  case (Cons b bs)
  show ?case
  proof (cases "registerSnapshotInContract ch acc sc b")
    case (Pair r acc')
    show ?thesis
    proof (cases r)
      case (Inl e)
      with Pair call_events_broadcasts [of ch acc sc b] show ?thesis
        by (simp add: outcome_broadcasts_def)
    next
      case (Inr tx)
      with Pair call_events_broadcasts [of ch acc sc b] Cons.IH [of "sent @ [tx]" acc' "Suc i"]
      show ?thesis by (simp add: timeout_events_def)
    qed
  qed
qed

lemma register_events_no_pages:
  "List.map_filter page_request (register_events ch acc sc bs i n) = []"
  by (induction bs arbitrary: acc i)
     (auto simp: call_events_def timeout_events_def
        split: option.splits sum.splits prod.splits)

lemma page_events_requests:
  "List.map_filter page_request (page_events provider req ps) = map req ps"
  by (induction ps) (simp_all add: page_events_def timeout_events_def)

lemma page_events_broadcasts:
  "List.map_filter broadcast_nonce (page_events provider req ps) = []"
  by (induction ps) (simp_all add: page_events_def timeout_events_def)

lemma main_events_ok_path:
  assumes "loadEnvConfig (mxpyConfig w) argv = ConfigOk cfg"
    and "tokenDecimals w (the (apiUrl cfg)) (the (itheumTokenId cfg)) = Some d"
  shows "main_events w argv =
     Some (ReadConfigFile # FetchTokenDefinition (the (itheumTokenId cfg)) #
           Log (''Scanning ITHEUM token holders with minimum '' @
                js_number_string (itheumMinHoldAmount cfg) @ '' $ITHEUM ...'') #
           page_events (apiAt w (the (apiUrl cfg))) (tokenRequest (the (itheumTokenId cfg)))
             (tokenPages (the (snapshot_stage w cfg d))) @
           [Log ''ITHEUM token snapshot completed!'', Log ''Scanning Trailblazer SFT holders ...''] @
           page_events (apiAt w (the (apiUrl cfg))) (sftRequest (the (trailblazerNftId cfg)))
             (sftPages (the (snapshot_stage w cfg d))) @
           [Log (nat_str (length (snapshotMembers (the (snapshot_stage w cfg d)))) @ '' have been included in the snapshot.''),
            Log ''Registering snapshot batches in smart contract ...''] @
           register_stage_events w cfg (batches (the (snapshot_stage w cfg d)))
             (length (snapshotMembers (the (snapshot_stage w cfg d)))))"
  using assms
  by (simp add: main_events_def snapshot_stage_Some scan_events_pages takeSnapshot_def tokenScan_def
      sftScan_def getPaginatedTokenAccounts_req getPaginatedSftAccounts_req split_def Let_def chunkArray_batchSize)

lemma register_stage_events_broadcasts:
  assumes "register_stage w cfg tr = (st, tr')" and "sentTxs tr = []"
  shows "List.map_filter broadcast_nonce (register_stage_events w cfg (batches tr) m) =
           map tx_nonce (sentTxs tr') @ (case st of RunCrashed (BatchFailed e) \<Rightarrow> failed_nonce e | _ \<Rightarrow> [])"
proof (cases "adminSigner w")
  case None
  with assms show ?thesis by (auto simp: register_stage_def register_stage_events_def)
next
  case (Some a)
  show ?thesis
  proof (cases "accountNonce w (the (apiUrl cfg)) a")
    case None
    with Some assms show ?thesis by (auto simp: register_stage_def register_stage_events_def newAccount_def)
  next
    case (Some n)
    let ?run = "registerBatches (proxyAt w (the (proxyUrl cfg))) (account_update (newAccount a) n)
                  (the (scAddress cfg)) (batches tr) []"
    have ev: "List.map_filter broadcast_nonce
          (register_events (proxyAt w (the (proxyUrl cfg))) (account_update (newAccount a) n)
             (the (scAddress cfg)) (batches tr) 0 (length (batches tr))) = outcome_broadcasts ?run"
      using register_events_broadcasts [where sent = "[]"] by simp
    obtain r acc' where run: "?run = (r, acc')" by (cases ?run)
    show ?thesis
    proof (cases r)
      case (Inl ex)
      then obtain e sent where "r = Inl (e, sent)" by (cases ex) auto
      with run ev assms \<open>adminSigner w = Some a\<close> Some show ?thesis
        by (auto simp: register_stage_def register_stage_events_def outcome_broadcasts_def newAccount_def)
    next
      case (Inr sent)
      with run ev assms \<open>adminSigner w = Some a\<close> Some show ?thesis
        by (auto simp: register_stage_def register_stage_events_def outcome_broadcasts_def newAccount_def)
    qed
  qed
qed

lemma register_stage_events_no_pages:
  "List.map_filter page_request (register_stage_events w cfg bs m) = []"
  by (simp add: register_stage_events_def register_events_no_pages split: option.splits sum.splits prod.splits)

subsection \<open>Properties of the effects\<close>

text \<open>
  C29: the effect trace refines the run: for every run, the trace exists and the
  broadcasts it makes are the nonces of the transactions the run sent, followed by the
  nonce of the rejected broadcast when the run ended on one; when the configuration was
  accepted, its page requests are the token pages and then the SFT pages of the run.
\<close>

theorem main_events_refines_run:
  assumes "main_run w argv = Some (st, tr)"
  shows "\<exists>evs. main_events w argv = Some evs \<and>
     List.map_filter broadcast_nonce evs =
       map tx_nonce (sentTxs tr) @ (case st of RunCrashed (BatchFailed e) \<Rightarrow> failed_nonce e | _ \<Rightarrow> []) \<and>
     (\<forall>cfg. loadEnvConfig (mxpyConfig w) argv = ConfigOk cfg \<longrightarrow>
        List.map_filter page_request evs =
          map (tokenRequest (the (itheumTokenId cfg))) (tokenPages tr) @
          map (sftRequest (the (trailblazerNftId cfg))) (sftPages tr))"
  using main_run_cases [OF assms]
proof (elim disjE exE conjE)
  fix cfg d
  assume cfg: "loadEnvConfig (mxpyConfig w) argv = ConfigOk cfg"
    and d: "tokenDecimals w (the (apiUrl cfg)) (the (itheumTokenId cfg)) = Some d"
    and reg: "register_stage w cfg (the (snapshot_stage w cfg d)) = (st, tr)"
  have same: "tokenPages tr = tokenPages (the (snapshot_stage w cfg d))"
             "sftPages tr = sftPages (the (snapshot_stage w cfg d))"
    using register_stage_keeps [OF reg] by auto
  have none: "sentTxs (the (snapshot_stage w cfg d)) = []" by (simp add: snapshot_stage_Some)
  show ?thesis
    using main_events_ok_path [OF cfg d] register_stage_events_broadcasts [OF reg none]
      register_stage_events_no_pages cfg
    by (simp add: same page_events_requests page_events_broadcasts)
qed (auto simp: main_events_def no_trace_def)

lemma map_filter_Nil_iff: "List.map_filter f xs = [] \<longleftrightarrow> (\<forall>x \<in> set xs. f x = None)"
  by (induction xs) (auto simp: map_filter_simps split: option.splits)

lemma no_adjacent_nonP: "\<forall>x \<in> set xs. \<not> P x \<Longrightarrow> no_adjacent P xs"
  by (induction P xs rule: no_adjacent.induct) auto

lemma no_adjacent_Cons_nonP [simp]: "\<not> P x \<Longrightarrow> no_adjacent P (x # xs) = no_adjacent P xs"
  by (cases xs) auto

lemma no_adjacent_append_nonP_right:
  "\<forall>y \<in> set ys. \<not> P y \<Longrightarrow> no_adjacent P (xs @ ys) = no_adjacent P xs"
proof (induction xs)
  case Nil
  then show ?case by (simp add: no_adjacent_nonP)
next
  case (Cons x xs)
  then show ?case
    by (cases xs; cases ys) (auto simp: no_adjacent_nonP)
qed

lemma no_adjacent_append_nonP_left:
  "\<forall>x \<in> set xs. \<not> P x \<Longrightarrow> no_adjacent P (xs @ ys) = no_adjacent P ys"
proof (induction xs)
  case (Cons x xs)
  then show ?case by (cases xs; cases ys) auto
qed simp

lemma no_adjacent_first:
  "no_adjacent P F1 \<Longrightarrow> \<forall>x \<in> set F2. \<not> P x \<Longrightarrow> \<forall>x \<in> set F3. \<not> P x \<Longrightarrow>
   no_adjacent P (F1 @ F2 @ F3)"
proof -
  assume "no_adjacent P F1" and f2: "\<forall>x \<in> set F2. \<not> P x" and f3: "\<forall>x \<in> set F3. \<not> P x"
  moreover have "\<forall>x \<in> set (F2 @ F3). \<not> P x" using f2 f3 by auto
  ultimately show ?thesis by (simp only: no_adjacent_append_nonP_right)
qed

lemma no_adjacent_second:
  "\<forall>x \<in> set F1. \<not> P x \<Longrightarrow> no_adjacent P F2 \<Longrightarrow> \<forall>x \<in> set F3. \<not> P x \<Longrightarrow>
   no_adjacent P (F1 @ F2 @ F3)"
  by (simp only: no_adjacent_append_nonP_right no_adjacent_append_nonP_left)

lemma no_adjacent_third:
  "\<forall>x \<in> set F1. \<not> P x \<Longrightarrow> \<forall>x \<in> set F2. \<not> P x \<Longrightarrow> no_adjacent P F3 \<Longrightarrow>
   no_adjacent P (F1 @ F2 @ F3)"
proof -
  assume f1: "\<forall>x \<in> set F1. \<not> P x" and f2: "\<forall>x \<in> set F2. \<not> P x" and "no_adjacent P F3"
  moreover have "\<forall>x \<in> set (F1 @ F2). \<not> P x" using f1 f2 by auto
  ultimately show ?thesis by (simp only: no_adjacent_append_nonP_left append_assoc [symmetric])
qed

lemma page_events_spaced:
  assumes "\<not> P (Wait 500)" and "\<forall>q \<in> set (butlast ps). provider (req q) \<noteq> []"
  shows "no_adjacent P (filter (\<lambda>e. P e \<or> e = Wait 500) (page_events provider req ps))"
  using assms(2)
proof (induction ps)
  case (Cons q qs)
  show ?case
  proof (cases "qs = []")
    case True
    with assms(1) show ?thesis by (simp add: page_events_def timeout_events_def)
  next
    case False
    with Cons.prems have ne: "provider (req q) \<noteq> []" by simp
    from False Cons.prems have "\<forall>q \<in> set (butlast qs). provider (req q) \<noteq> []"
      by (simp add: in_set_butlastD)
    with Cons.IH have "no_adjacent P (filter (\<lambda>e. P e \<or> e = Wait 500) (page_events provider req qs))" .
    with ne assms(1) show ?thesis
      by (cases "P (FetchPage (req q))") (simp_all add: page_events_def timeout_events_def)
  qed
qed (simp add: page_events_def)

lemma register_events_spaced:
  "no_adjacent is_broadcast (filter (\<lambda>e. is_broadcast e \<or> e = Wait 500) (register_events ch acc sc bs i n))"
proof (induction bs arbitrary: acc i)
  case (Cons b bs)
  have call: "filter (\<lambda>e. is_broadcast e \<or> e = Wait 500) (call_events ch acc sc b) = [] \<or>
              filter (\<lambda>e. is_broadcast e \<or> e = Wait 500) (call_events ch acc sc b) = [Broadcast (nonce acc)]"
    by (auto simp: call_events_def split: option.splits sum.splits)
  show ?case
  proof (cases "registerSnapshotInContract ch acc sc b")
    case (Pair r acc')
    with call Cons.IH [of acc' "Suc i"] show ?thesis
      by (cases r) (auto simp: timeout_events_def)
  qed
qed simp

lemma page_events_kinds:
  "e \<in> set (page_events provider req ps) \<Longrightarrow> (\<exists>q. e = FetchPage (req q)) \<or> e = Wait 500"
  by (auto simp: page_events_def timeout_events_def split: if_splits)

lemma token_pages_before_last:
  "\<forall>q \<in> set (butlast (fst (snd (takeSnapshot provider tokenId decimals minHold nftId)))).
     provider (tokenRequest tokenId q) \<noteq> []"
proof -
  from scan_pages_requests [of "getPaginatedTokenAccounts provider tokenId" "tokenPage decimals minHold" empty_scan]
  obtain n where n: "snd (scan_pages (getPaginatedTokenAccounts provider tokenId) (tokenPage decimals minHold) 1 empty_scan []) = [1..<Suc n]"
    "\<forall>p \<in> {1..<n}. getPaginatedTokenAccounts provider tokenId p \<noteq> []" by blast
  then show ?thesis
    by (simp add: takeSnapshot_def tokenScan_def split_def Let_def getPaginatedTokenAccounts_req)
qed

lemma sft_pages_before_last:
  "\<forall>q \<in> set (butlast (snd (snd (takeSnapshot provider tokenId decimals minHold nftId)))).
     provider (sftRequest nftId q) \<noteq> []"
proof -
  let ?st = "fst (tokenScan provider tokenId decimals minHold empty_scan)"
  from scan_pages_requests [of "getPaginatedSftAccounts provider nftId" sftPage ?st]
  obtain n where n: "snd (scan_pages (getPaginatedSftAccounts provider nftId) sftPage 1 ?st []) = [1..<Suc n]"
    "\<forall>p \<in> {1..<n}. getPaginatedSftAccounts provider nftId p \<noteq> []" by blast
  then show ?thesis
    by (simp add: takeSnapshot_def sftScan_def split_def Let_def getPaginatedSftAccounts_req)
qed

lemma is_token_fetch_request: "is_token_fetch e \<Longrightarrow> page_request e \<noteq> None"
  by (cases e rule: is_token_fetch.cases) auto

lemma is_sft_fetch_request: "is_sft_fetch e \<Longrightarrow> page_request e \<noteq> None"
  by (cases e rule: is_sft_fetch.cases) auto

lemma is_broadcast_nonce: "is_broadcast e \<Longrightarrow> broadcast_nonce e \<noteq> None"
  by (cases e rule: is_broadcast.cases) auto

lemma nonP_of_map_filter:
  assumes "List.map_filter f xs = []" and "\<And>e. P e \<Longrightarrow> f e \<noteq> None"
  shows "\<forall>x \<in> set (filter Q xs). \<not> P x"
proof
  fix x assume "x \<in> set (filter Q xs)"
  then have "f x = None" using assms(1) by (simp add: map_filter_Nil_iff)
  then show "\<not> P x" using assms(2) by blast
qed

lemma register_stage_events_spaced:
  "no_adjacent is_broadcast (filter (\<lambda>e. is_broadcast e \<or> e = Wait 500) (register_stage_events w cfg bs m))"
  using register_events_spaced
  by (auto simp: register_stage_events_def no_adjacent_append_nonP_right split: option.splits sum.splits prod.splits)

lemma filter_run_shape:
  assumes "\<not> P ReadConfigFile" "\<not> P (FetchTokenDefinition t)" "\<And>s. \<not> P (Log s)"
  shows "filter (\<lambda>e. P e \<or> e = Wait 500)
           (ReadConfigFile # FetchTokenDefinition t # Log l1 # A @ [Log l2, Log l3] @ B @ [Log l4, Log l5] @ C) =
         filter (\<lambda>e. P e \<or> e = Wait 500) A @ filter (\<lambda>e. P e \<or> e = Wait 500) B @
         filter (\<lambda>e. P e \<or> e = Wait 500) C"
  using assms by simp

lemma spaced_run_shape:
  assumes "\<not> P ReadConfigFile" "\<not> P (FetchTokenDefinition t)" "\<And>s. \<not> P (Log s)"
    and "no_adjacent P (filter (\<lambda>e. P e \<or> e = Wait 500) A @ filter (\<lambda>e. P e \<or> e = Wait 500) B @
                         filter (\<lambda>e. P e \<or> e = Wait 500) C)"
  shows "spaced P (ReadConfigFile # FetchTokenDefinition t # Log l1 # A @ [Log l2, Log l3] @ B @ [Log l4, Log l5] @ C)"
  unfolding spaced_def filter_run_shape [OF assms(1-3)] by (rule assms(4))

lemma page_events_other_pass:
  "(\<And>q. \<not> P (FetchPage (req q))) \<Longrightarrow> \<not> P (Wait 500) \<Longrightarrow>
   \<forall>x \<in> set (filter Q (page_events provider req ps)). \<not> P x"
  using page_events_kinds [of _ provider req ps] by auto

lemma main_events_early:
  "loadEnvConfig (mxpyConfig w) argv = ConfigTypeError \<Longrightarrow> main_events w argv = Some [ReadConfigFile]"
  "loadEnvConfig (mxpyConfig w) argv = InvalidConfig \<Longrightarrow>
     main_events w argv = Some [ReadConfigFile,
       Log (''Invalid '' @ [CHR 0x27] @ env_str (getArg argv 0) @ [CHR 0x27] @ '' config'')]"
  "loadEnvConfig (mxpyConfig w) argv = ConfigOk cfg \<Longrightarrow>
   tokenDecimals w (the (apiUrl cfg)) (the (itheumTokenId cfg)) = None \<Longrightarrow>
     main_events w argv = Some [ReadConfigFile, FetchTokenDefinition (the (itheumTokenId cfg))]"
  by (simp_all add: main_events_def)

lemma main_events_defined: "\<exists>evs. main_events w argv = Some evs"
proof (cases "loadEnvConfig (mxpyConfig w) argv")
  case (ConfigOk cfg)
  then show ?thesis
    by (cases "tokenDecimals w (the (apiUrl cfg)) (the (itheumTokenId cfg))")
       (simp_all add: main_events_early(3) main_events_ok_path)
qed (simp_all add: main_events_early(1,2))

lemma main_events_ok_spaced:
  assumes cfg: "loadEnvConfig (mxpyConfig w) argv = ConfigOk cfg"
    and d: "tokenDecimals w (the (apiUrl cfg)) (the (itheumTokenId cfg)) = Some d"
    and ev: "main_events w argv = Some evs"
  shows "spaced is_token_fetch evs \<and> spaced is_sft_fetch evs \<and> spaced is_broadcast evs"
proof -
  let ?api = "apiAt w (the (apiUrl cfg))" and ?T = "the (snapshot_stage w cfg d)"
  let ?PE1 = "page_events ?api (tokenRequest (the (itheumTokenId cfg))) (tokenPages ?T)"
  let ?PE2 = "page_events ?api (sftRequest (the (trailblazerNftId cfg))) (sftPages ?T)"
  let ?R = "register_stage_events w cfg (batches ?T) (length (snapshotMembers ?T))"
  have evs: "evs = ReadConfigFile # FetchTokenDefinition (the (itheumTokenId cfg)) #
         Log (''Scanning ITHEUM token holders with minimum '' @
              js_number_string (itheumMinHoldAmount cfg) @ '' $ITHEUM ...'') #
         ?PE1 @ [Log ''ITHEUM token snapshot completed!'', Log ''Scanning Trailblazer SFT holders ...''] @
         ?PE2 @ [Log (nat_str (length (snapshotMembers ?T)) @ '' have been included in the snapshot.''),
          Log ''Registering snapshot batches in smart contract ...''] @ ?R"
    using main_events_ok_path [OF cfg d] ev by simp
  have tok1: "no_adjacent is_token_fetch (filter (\<lambda>e. is_token_fetch e \<or> e = Wait 500) ?PE1)"
    using token_pages_before_last by (intro page_events_spaced) (simp_all add: snapshot_stage_Some)
  have sft2: "no_adjacent is_sft_fetch (filter (\<lambda>e. is_sft_fetch e \<or> e = Wait 500) ?PE2)"
    using sft_pages_before_last by (intro page_events_spaced) (simp_all add: snapshot_stage_Some)
  have tok2: "\<forall>x \<in> set (filter (\<lambda>e. is_token_fetch e \<or> e = Wait 500) ?PE2). \<not> is_token_fetch x"
    by (rule page_events_other_pass) (simp_all add: sftRequest_def)
  have sft1: "\<forall>x \<in> set (filter (\<lambda>e. is_sft_fetch e \<or> e = Wait 500) ?PE1). \<not> is_sft_fetch x"
    by (rule page_events_other_pass) (simp_all add: tokenRequest_def)
  have tok3: "\<forall>x \<in> set (filter (\<lambda>e. is_token_fetch e \<or> e = Wait 500) ?R). \<not> is_token_fetch x"
    using register_stage_events_no_pages by (rule nonP_of_map_filter) (rule is_token_fetch_request)
  have sft3: "\<forall>x \<in> set (filter (\<lambda>e. is_sft_fetch e \<or> e = Wait 500) ?R). \<not> is_sft_fetch x"
    using register_stage_events_no_pages by (rule nonP_of_map_filter) (rule is_sft_fetch_request)
  have b1: "\<forall>x \<in> set (filter (\<lambda>e. is_broadcast e \<or> e = Wait 500) ?PE1). \<not> is_broadcast x"
    using page_events_broadcasts by (rule nonP_of_map_filter) (rule is_broadcast_nonce)
  have b2: "\<forall>x \<in> set (filter (\<lambda>e. is_broadcast e \<or> e = Wait 500) ?PE2). \<not> is_broadcast x"
    using page_events_broadcasts by (rule nonP_of_map_filter) (rule is_broadcast_nonce)
  have b3: "no_adjacent is_broadcast (filter (\<lambda>e. is_broadcast e \<or> e = Wait 500) ?R)"
    by (rule register_stage_events_spaced)
  have "spaced is_token_fetch evs"
    unfolding evs by (rule spaced_run_shape, simp_all only: is_token_fetch.simps simp_thms)
      (rule no_adjacent_first [OF tok1 tok2 tok3])
  moreover have "spaced is_sft_fetch evs"
    unfolding evs by (rule spaced_run_shape, simp_all only: is_sft_fetch.simps simp_thms)
      (rule no_adjacent_second [OF sft1 sft2 sft3])
  moreover have "spaced is_broadcast evs"
    unfolding evs by (rule spaced_run_shape, simp_all only: is_broadcast.simps simp_thms)
      (rule no_adjacent_third [OF b1 b2 b3])
  ultimately show ?thesis by blast
qed

text \<open>
  C30: the script paces its requests: in the trace of any run, two page requests of the
  token pass, two page requests of the SFT pass, or two broadcasts are always separated
  by a pause of 500 ms (the first SFT page may follow the last token page at once).
\<close>

theorem main_events_rate_limited:
  assumes "main_events w argv = Some evs"
  shows "spaced is_token_fetch evs \<and> spaced is_sft_fetch evs \<and> spaced is_broadcast evs"
proof (cases "loadEnvConfig (mxpyConfig w) argv")
  case (ConfigOk cfg)
  show ?thesis
  proof (cases "tokenDecimals w (the (apiUrl cfg)) (the (itheumTokenId cfg))")
    case (Some d)
    show ?thesis by (rule main_events_ok_spaced [OF ConfigOk Some assms])
  next
    case None
    have "evs = [ReadConfigFile, FetchTokenDefinition (the (itheumTokenId cfg))]"
      using assms main_events_early(3) [OF ConfigOk None] by simp
    then show ?thesis by (simp add: spaced_def)
  qed
next
  case ConfigTypeError
  then have "evs = [ReadConfigFile]" using assms main_events_early(1) by simp
  then show ?thesis by (simp add: spaced_def)
next
  case InvalidConfig
  then have "Some evs = Some [ReadConfigFile,
       Log (''Invalid '' @ [CHR 0x27] @ env_str (getArg argv 0) @ [CHR 0x27] @ '' config'')]"
    using assms main_events_early(2) by metis
  then show ?thesis by (simp add: spaced_def)
qed

subsection \<open>Decimal strings\<close>

lemma digit_char_of_char: "d < 10 \<Longrightarrow> of_char (digit_char d) = 48 + d"
  unfolding digit_char_def by (auto simp: less_Suc_eq numeral_eq_Suc)

lemma digit_char_digit: "d < 10 \<Longrightarrow> is_digit (digit_char d) \<and> digit_value (digit_char d) = d"
  by (simp add: is_digit_def digit_value_def digit_char_of_char)

lemma nat_str_digits: "list_all is_digit (nat_str n) \<and> nat_str n \<noteq> [] \<and> digits_value (nat_str n) = n"
proof (induction n rule: nat_str.induct)
  case (1 n)
  show ?case
  proof (cases "n < 10")
    case True
    then show ?thesis by (simp add: nat_str.simps [of n] digits_value_def digit_char_digit)
  next
    case False
    then have IH: "list_all is_digit (nat_str (n div 10)) \<and> digits_value (nat_str (n div 10)) = n div 10"
      using "1.IH" by simp
    have "digits_value (nat_str (n div 10) @ [digit_char (n mod 10)]) = 10 * (n div 10) + n mod 10"
      using IH by (simp add: digits_value_def digit_char_digit)
    with False IH show ?thesis by (simp add: nat_str.simps [of n] digit_char_digit)
  qed
qed

lemma nat_str_no_point: "CHR ''.'' \<notin> set (nat_str n)"
proof
  assume "CHR ''.'' \<in> set (nat_str n)"
  with nat_str_digits [of n] have "is_digit (CHR ''.'')" by (auto simp: list_all_iff)
  then show False by (simp add: is_digit_def)
qed

lemma nat_str_hd: "\<exists>c cs. nat_str n = c # cs \<and> c \<noteq> CHR ''-''"
proof -
  obtain c cs where cs: "nat_str n = c # cs" using nat_str_digits [of n] by (cases "nat_str n") auto
  with nat_str_digits [of n] have "is_digit c" by simp
  then have "c \<noteq> CHR ''-''" by (auto simp: is_digit_def)
  with cs show ?thesis by blast
qed

lemma parse_unsigned_nat_str: "parse_unsigned (nat_str n) = Dec (int n) 0"
proof -
  have tw: "takeWhile (\<lambda>c. c \<noteq> CHR ''.'') (nat_str n) = nat_str n"
    using nat_str_no_point [of n] by (subst takeWhile_eq_all_conv) blast
  have dw: "dropWhile (\<lambda>c. c \<noteq> CHR ''.'') (nat_str n) = []"
    using nat_str_no_point [of n] by (subst dropWhile_eq_Nil_conv) blast
  show ?thesis using nat_str_digits [of n] by (simp add: parse_unsigned_def tw dw)
qed

lemma takeSnapshot_pages_le:
  "length (fst (snd (takeSnapshot provider tokenId decimals minHold nftId))) \<le> 10 \<and>
   length (snd (snd (takeSnapshot provider tokenId decimals minHold nftId))) \<le> 10"
proof -
  have le: "length (snd (scan_pages fetch handle 1 st [])) \<le> 10" for fetch handle st
    using scan_pages_requests [of fetch handle st] by auto
  show ?thesis
    using le by (simp add: takeSnapshot_def tokenScan_def sftScan_def split_def Let_def)
qed

lemma round_up_div_500: "(m + 499) div 500 = m div 500 + (if m mod 500 = 0 then 0 else (1::nat))"
proof -
  obtain q r where m: "m = 500 * q + r" and r: "r < 500"
    using mult_div_mod_eq [of 500 m] mod_less_divisor [of 500 m] by (metis zero_less_numeral)
  have "(500 * q + r + 499) div 500 = q + (r + 499) div 500"
    by (simp add: add.assoc)
  moreover have "(r + 499) div 500 = (if r = 0 then 0 else 1)"
  proof (cases "r = 0")
    case False
    with r have "500 \<le> r + 499" "r + 499 < 500 * 2" by simp_all
    then show ?thesis using False by (simp add: div_nat_eqI)
  qed simp
  ultimately show ?thesis using r by (simp add: m)
qed

lemma length_chunks_batchSize: "length (chunks batchSize xs) = (length xs + 499) div 500"
  using arg_cong [OF map_length_chunks [of batchSize xs], of length]
  by (simp add: batchSize_def round_up_div_500)

lemma register_stage_broadcasts_le:
  assumes "register_stage w cfg tr = (st, tr')" and "sentTxs tr = []"
  shows "length (sentTxs tr') + length (case st of RunCrashed (BatchFailed e) \<Rightarrow> failed_nonce e | _ \<Rightarrow> [])
           \<le> length (batches tr)"
proof -
  have fn: "length (failed_nonce e) \<le> 1" for e by (cases e) simp_all
  from register_stage_cases [OF assms(1)] show ?thesis
  proof (elim disjE exE conjE)
    fix a n acc'
    assume "st = RunDone" and
      run: "registerBatches (proxyAt w (the (proxyUrl cfg))) \<lparr>acc_address = a, nonce = n\<rparr>
              (the (scAddress cfg)) (batches tr) [] = (Inr (sentTxs tr'), acc')"
    with registerBatches_Inr [OF run] show ?thesis by auto
  next
    fix a n acc' e
    assume "st = RunCrashed (BatchFailed e)" and
      run: "registerBatches (proxyAt w (the (proxyUrl cfg))) \<lparr>acc_address = a, nonce = n\<rparr>
              (the (scAddress cfg)) (batches tr) [] = (Inl (e, sentTxs tr'), acc')"
    with registerBatches_Inl [OF run] fn [of e] show ?thesis by auto
  qed (use assms(2) in auto)
qed

subsection \<open>Bounds and round trips\<close>

text \<open>
  C31: the load a run puts on the chain is bounded: at most 20 page requests (10 per
  pass), and at most one broadcast per batch, the number of batches being the number of
  members divided by 500, rounded up.
\<close>

theorem main_events_request_bounds:
  assumes "main_run w argv = Some (st, tr)" and "main_events w argv = Some evs"
  shows "length (List.map_filter page_request evs) \<le> 20 \<and>
         length (List.map_filter broadcast_nonce evs) \<le> length (batches tr) \<and>
         length (batches tr) = (length (snapshotMembers tr) + 499) div 500"
  using main_run_cases [OF assms(1)]
proof (elim disjE exE conjE)
  fix cfg d
  assume cfg: "loadEnvConfig (mxpyConfig w) argv = ConfigOk cfg"
    and d: "tokenDecimals w (the (apiUrl cfg)) (the (itheumTokenId cfg)) = Some d"
    and reg: "register_stage w cfg (the (snapshot_stage w cfg d)) = (st, tr)"
  let ?T = "the (snapshot_stage w cfg d)"
  have none: "sentTxs ?T = []" by (simp add: snapshot_stage_Some)
  have keep: "tokenPages tr = tokenPages ?T" "sftPages tr = sftPages ?T" "batches tr = batches ?T"
             "snapshotMembers tr = snapshotMembers ?T"
    using register_stage_keeps [OF reg] by auto
  have evs: "List.map_filter page_request evs = map (tokenRequest (the (itheumTokenId cfg))) (tokenPages ?T) @
                                                map (sftRequest (the (trailblazerNftId cfg))) (sftPages ?T)"
            "List.map_filter broadcast_nonce evs =
               map tx_nonce (sentTxs tr) @ (case st of RunCrashed (BatchFailed e) \<Rightarrow> failed_nonce e | _ \<Rightarrow> [])"
    using main_events_ok_path [OF cfg d] assms(2) register_stage_events_no_pages
      register_stage_events_broadcasts [OF reg none]
    by (simp_all add: page_events_requests page_events_broadcasts)
  have pages: "length (tokenPages ?T) \<le> 10" "length (sftPages ?T) \<le> 10"
    using takeSnapshot_pages_le by (simp_all add: snapshot_stage_Some)
  have "length (List.map_filter broadcast_nonce evs) \<le> length (batches tr)"
    using register_stage_broadcasts_le [OF reg none] by (simp add: evs(2) keep(3))
  moreover have "length (batches tr) = (length (snapshotMembers tr) + 499) div 500"
    by (simp add: keep snapshot_stage_Some length_chunks_batchSize)
  ultimately show ?thesis using pages by (simp add: evs(1))
qed (use assms(2) main_events_early in \<open>auto simp: no_trace_def\<close>)

text \<open>
  Decimal integers round-trip: the decimal string of \<open>n\<close> (how the API writes
  balances and how the script prints counts) reads back through \<open>new BigNumber\<close> as
  \<open>n\<close> with scale 0 and through \<open>BigUIntValue\<close> as \<open>n\<close>, and JavaScript prints the
  integer \<open>n\<close> as that string.
\<close>

lemma decimal_string_roundtrip:
  "bignumber_of_string (nat_str n) = Dec (int n) 0 \<and> biguint_of_string (nat_str n) = Some n \<and>
   js_number_string (Dec (int n) 0) = nat_str n"
proof -
  obtain c cs where cs: "nat_str n = c # cs" and c: "c \<noteq> CHR ''-''" using nat_str_hd [of n] by blast
  have bn: "bignumber_of_string (nat_str n) = Dec (int n) 0"
  proof -
    have "\<forall>c \<in> set (nat_str n). \<not> is_exp_char c"
      using nat_str_digits [of n] by (auto simp: list_all_iff dest: is_digit_not_exp)
    then have "parse_decimal (nat_str n) = Dec (int n) 0"
      by (simp add: parse_decimal_no_exp parse_unsigned_nat_str)
    then have "bn_decimal (nat_str n) = Dec (int n) 0"
      using c by (simp add: bn_decimal_def cs)
    then show ?thesis by (simp add: bignumber_of_string_decimal)
  qed
  moreover have "biguint_of_string (nat_str n) = Some n"
    by (simp add: biguint_of_string_def bn)
  moreover have "js_number_string (Dec (int n) 0) = nat_str n"
    by (simp add: js_number_string_def strip_zeros.simps)
  ultimately show ?thesis by blast
qed

subsection \<open>The console log\<close>

lemma call_events_logs:
  "filter batch_log (call_events ch acc sc b) = [] \<and> (\<forall>e \<in> set (call_events ch acc sc b). \<not> done_log e)"
  by (auto simp: call_events_def split: option.splits sum.splits)

lemma page_events_logs:
  "filter batch_log (page_events provider req ps) = [] \<and> (\<forall>e \<in> set (page_events provider req ps). \<not> done_log e)"
  by (induction ps) (auto simp: page_events_def timeout_events_def)

lemma nat_str_log:
  "\<not> prefix ''Registering members batch '' (nat_str k @ s) \<and> \<not> prefix ''Done!'' (nat_str k @ s)"
proof -
  obtain c cs where "nat_str k = c # cs" "is_digit c"
    using nat_str_digits [of k] by (cases "nat_str k") auto
  then show ?thesis by (auto simp: is_digit_def)
qed

lemma attempted_sent: "length sent \<le> attempted (fst (registerBatches ch acc sc bs sent))"
proof (induction bs arbitrary: acc sent)
  case Nil
  then show ?case by (simp add: attempted_def)
next
  case (Cons b bs)
  obtain r acc' where call: "registerSnapshotInContract ch acc sc b = (r, acc')" by fastforce
  show ?case
  proof (cases r)
    case (Inl e)
    with call show ?thesis by (simp add: attempted_def)
  next
    case (Inr tx)
    with call Cons.IH [of "sent @ [tx]" acc'] show ?thesis by simp
  qed
qed

lemma register_events_logs:
  "filter batch_log (register_events ch acc sc bs i n) =
     map (\<lambda>j. Log (''Registering members batch '' @ nat_str (Suc j) @ '' of '' @ nat_str n @ '' ...''))
       [i..<i + attempted (fst (registerBatches ch acc sc bs sent)) - length sent] \<and>
   (\<forall>e \<in> set (register_events ch acc sc bs i n). \<not> done_log e)"
proof (induction bs arbitrary: acc sent i)
  case Nil
  then show ?case by (simp add: attempted_def)
next
  case (Cons b bs)
  obtain r acc' where call: "registerSnapshotInContract ch acc sc b = (r, acc')" by fastforce
  show ?case
  proof (cases r)
    case (Inl e)
    with call call_events_logs [of ch acc sc b] show ?thesis by (simp add: attempted_def)
  next
    case (Inr tx)
    let ?A = "attempted (fst (registerBatches ch acc' sc bs (sent @ [tx])))"
    have ge: "Suc (length sent) \<le> ?A" using attempted_sent [where sent = "sent @ [tx]" and acc = acc' and bs = bs] by simp
    have up: "[i..<i + ?A - length sent] = i # [Suc i..<i + ?A - length sent]"
      using ge by (simp add: upt_conv_Cons)
    from Inr call call_events_logs [of ch acc sc b] Cons.IH [of acc' "Suc i" "sent @ [tx]"]
    show ?thesis by (simp add: up timeout_events_def ball_Un)
  qed
qed

lemma register_stage_events_logs:
  assumes "register_stage w cfg tr0 = (st, tr)" and "sentTxs tr0 = []"
  shows "filter batch_log (register_stage_events w cfg (batches tr0) m) =
           map (\<lambda>j. Log (''Registering members batch '' @ nat_str (Suc j) @ '' of '' @
                            nat_str (length (batches tr0)) @ '' ...''))
             [0..<length (sentTxs tr) + (case st of RunCrashed (BatchFailed e) \<Rightarrow> 1 | _ \<Rightarrow> 0)] \<and>
         ((\<exists>e \<in> set (register_stage_events w cfg (batches tr0) m). done_log e) \<longleftrightarrow> st = RunDone) \<and>
         (st = RunDone \<longrightarrow> last (register_stage_events w cfg (batches tr0) m) =
            Log (''Done! Snapshot of total '' @ nat_str m @ '' members registered!''))"
proof (cases "adminSigner w")
  case None
  with assms show ?thesis by (auto simp: register_stage_def register_stage_events_def)
next
  case (Some a)
  show ?thesis
  proof (cases "accountNonce w (the (apiUrl cfg)) a")
    case None
    with Some assms show ?thesis by (auto simp: register_stage_def register_stage_events_def newAccount_def)
  next
    case (Some k)
    let ?run = "registerBatches (proxyAt w (the (proxyUrl cfg))) (account_update (newAccount a) k)
                  (the (scAddress cfg)) (batches tr0) []"
    note logs = register_events_logs [where sent = "[]" and ch = "proxyAt w (the (proxyUrl cfg))"
        and acc = "account_update (newAccount a) k" and sc = "the (scAddress cfg)" and bs = "batches tr0"
        and i = 0 and n = "length (batches tr0)"]
    obtain r acc' where run: "?run = (r, acc')" by (cases ?run)
    show ?thesis
    proof (cases r)
      case (Inl ex)
      then obtain e sent where "r = Inl (e, sent)" by (cases ex) auto
      with run logs assms \<open>adminSigner w = Some a\<close> Some show ?thesis
        by (auto simp: register_stage_def register_stage_events_def attempted_def newAccount_def)
    next
      case (Inr sent)
      with run logs assms \<open>adminSigner w = Some a\<close> Some show ?thesis
        by (auto simp: register_stage_def register_stage_events_def attempted_def newAccount_def)
    qed
  qed
qed

text \<open>
  C33: the console names the batches as they are attempted: the progress lines of a run
  are \<open>Registering members batch i of n\<close> for \<open>i = 1, 2, \<dots>\<close>, with \<open>n\<close> the number of
  batches, one for every batch sent and one more for the batch whose call threw; so the
  last progress line of a failed run names the batch that failed.
\<close>

theorem main_events_batch_log:
  assumes "main_run w argv = Some (st, tr)" and "main_events w argv = Some evs"
  shows "filter batch_log evs =
           map (\<lambda>i. Log (''Registering members batch '' @ nat_str (Suc i) @ '' of '' @
                            nat_str (length (batches tr)) @ '' ...''))
             [0..<length (sentTxs tr) + (case st of RunCrashed (BatchFailed e) \<Rightarrow> 1 | _ \<Rightarrow> 0)]"
  using main_run_cases [OF assms(1)]
proof (elim disjE exE conjE)
  fix cfg d
  assume cfg: "loadEnvConfig (mxpyConfig w) argv = ConfigOk cfg"
    and d: "tokenDecimals w (the (apiUrl cfg)) (the (itheumTokenId cfg)) = Some d"
    and reg: "register_stage w cfg (the (snapshot_stage w cfg d)) = (st, tr)"
  have same: "batches tr = batches (the (snapshot_stage w cfg d))"
    using register_stage_keeps [OF reg] by auto
  have none: "sentTxs (the (snapshot_stage w cfg d)) = []" by (simp add: snapshot_stage_Some)
  show ?thesis
    using assms(2) [symmetric] main_events_ok_path [OF cfg d] conjunct1 [OF register_stage_events_logs [OF reg none]]
    by (simp add: same page_events_logs nat_str_log)
qed (use assms(2) in \<open>auto simp: main_events_early no_trace_def\<close>)

text \<open>
  C32: the final message reports completion faithfully: a line starting with
  \<open>Done!\<close> is logged exactly when the run registered every batch, and it is then the
  last thing the run does, with the number of members of the snapshot.
\<close>

theorem main_events_done_log:
  assumes "main_run w argv = Some (st, tr)" and "main_events w argv = Some evs"
  shows "((\<exists>e \<in> set evs. done_log e) \<longleftrightarrow> st = RunDone) \<and>
         (st = RunDone \<longrightarrow>
            last evs = Log (''Done! Snapshot of total '' @ nat_str (length (snapshotMembers tr)) @ '' members registered!''))"
  using main_run_cases [OF assms(1)]
proof (elim disjE exE conjE)
  fix cfg d
  assume cfg: "loadEnvConfig (mxpyConfig w) argv = ConfigOk cfg"
    and d: "tokenDecimals w (the (apiUrl cfg)) (the (itheumTokenId cfg)) = Some d"
    and reg: "register_stage w cfg (the (snapshot_stage w cfg d)) = (st, tr)"
  have same: "snapshotMembers tr = snapshotMembers (the (snapshot_stage w cfg d))"
    using register_stage_keeps [OF reg] by auto
  have none: "sentTxs (the (snapshot_stage w cfg d)) = []" by (simp add: snapshot_stage_Some)
  have ne: "register_stage_events w cfg bs m \<noteq> []" for bs m by (simp add: register_stage_events_def)
  show ?thesis
    using assms(2) [symmetric] main_events_ok_path [OF cfg d]
      conjunct2 [OF register_stage_events_logs [OF reg none,
        where m = "length (snapshotMembers (the (snapshot_stage w cfg d)))"]]
      page_events_logs nat_str_log ne
    by (auto simp: same)
qed (use assms(2) in \<open>auto simp: main_events_early\<close>)

end
