(* ===== verification/Host.thy ===== *)
theory Host
  imports Run Payload
begin

text \<open>
  The host of the script (\<open>src/snapshot/register-snapshot.ts\<close>): the two files it reads,
  located with Node's \<open>path.join\<close> relative to the script's own directory
  (\<open>__dirname\<close>), the configuration read by \<open>loadMxpyConfig\<close> (lines 115--119), the
  administrator's key read by \<open>getAdminSigner\<close> (lines 133--139), and the entry point
  \<open>main()\<close> (line 177) that runs \<^const>\<open>main_run\<close> on what they produced. A file path is
  its normal form: whether it is absolute, and its segments after \<open>.\<close> and \<open>..\<close> have
  been resolved.
\<close>

datatype fpath = FPath bool "string list"

text \<open>
  \<open>path.join\<close>: the non-empty arguments joined with \<open>/\<close>, then normalised (Node's
  \<open>normalizeString\<close>): empty and \<open>.\<close> segments vanish, \<open>..\<close> removes the segment before
  it, and above the root of an absolute path it vanishes while a relative path keeps it.
\<close>

fun join_with :: "char \<Rightarrow> string list \<Rightarrow> string" where
  "join_with c [] = []"
| "join_with c [x] = x"
| "join_with c (x # y # rest) = x @ c # join_with c (y # rest)"

fun normalize_segs :: "bool \<Rightarrow> string list \<Rightarrow> string list \<Rightarrow> string list" where
  "normalize_segs isAbs acc [] = rev acc"
| "normalize_segs isAbs acc (s # ss) =
     (if s = [] \<or> s = ''.'' then normalize_segs isAbs acc ss
      else if s = ''..'' then
        (case acc of
           p # rest \<Rightarrow> if p = ''..'' then normalize_segs isAbs (s # acc) ss
                      else normalize_segs isAbs rest ss
         | [] \<Rightarrow> if isAbs then normalize_segs isAbs [] ss else normalize_segs isAbs [s] ss)
      else normalize_segs isAbs (s # acc) ss)"

definition path_join :: "string list \<Rightarrow> fpath" where
  "path_join args =
     (let joined = join_with (CHR ''/'') (filter (\<lambda>a. a \<noteq> []) args) in
      if joined = [] then FPath False []
      else (let isAbs = (hd joined = CHR ''/'') in
            FPath isAbs (normalize_segs isAbs [] (split_at_char (CHR ''/'') joined))))"

text \<open>
  The host: the script's directory, the file system, \<open>JSON.parse\<close> (read as the
  configuration object it yields, \<open>None\<close> when it throws) and \<open>UserSigner.fromPem\<close> (the
  address of the key, \<open>None\<close> when it throws).
\<close>

record host =
  scriptDir :: string
  readFile :: "fpath \<Rightarrow> string option"
  jsonParse :: "string \<Rightarrow> mxpy_config option"
  pemSigner :: "string \<Rightarrow> address option"

definition AdminPem :: string where
  "AdminPem = ''admin.pem''"

definition storagePath :: "host \<Rightarrow> fpath" where
  "storagePath h = path_join [scriptDir h, ''..'', ''mxpy.data-storage.json'']"

text \<open>\<open>loadMxpyConfig\<close>: \<open>readFileSync\<close> and \<open>JSON.parse\<close> throw, which rejects \<open>main\<close>.\<close>

definition loadMxpyConfig :: "host \<Rightarrow> run_error + mxpy_config" where
  "loadMxpyConfig h =
     (case readFile h (storagePath h) of
        None \<Rightarrow> Inl ConfigFileUnreadable
      | Some contents \<Rightarrow>
          (case jsonParse h contents of
             None \<Rightarrow> Inl ConfigFileMalformed
           | Some cfg \<Rightarrow> Inr cfg))"

definition pemWalletPath :: "host \<Rightarrow> fpath" where
  "pemWalletPath h = path_join [scriptDir h, ''..'', ''wallets'', AdminPem]"

definition getAdminSigner :: "host \<Rightarrow> address option" where
  "getAdminSigner h =
     (case readFile h (pemWalletPath h) of
        None \<Rightarrow> None
      | Some contents \<Rightarrow> pemSigner h contents)"

text \<open>
  \<open>main()\<close>: the configuration is loaded first (line 23); the signer is loaded after the
  snapshot (line 78), which \<^const>\<open>main_run\<close> reads from the world's \<open>adminSigner\<close>.
\<close>

definition script_run :: "host \<Rightarrow> world \<Rightarrow> string list \<Rightarrow> (run_status \<times> run_trace) option" where
  "script_run h w argv =
     (case loadMxpyConfig h of
        Inl err \<Rightarrow> Some (RunCrashed err, no_trace)
      | Inr cfg \<Rightarrow> main_run (w\<lparr>mxpyConfig := cfg, adminSigner := getAdminSigner h\<rparr>) argv)"

text \<open>An absolute directory printed from its segments, and the segments it can have.\<close>

definition dir_string :: "string list \<Rightarrow> string" where
  "dir_string ds = concat (map (\<lambda>d. CHR ''/'' # d) ds)"

definition plain_seg :: "string \<Rightarrow> bool" where
  "plain_seg d \<longleftrightarrow> d \<noteq> [] \<and> d \<noteq> ''.'' \<and> d \<noteq> ''..'' \<and> CHR ''/'' \<notin> set d"

subsection \<open>Paths\<close>

lemma split_at_char_dirs:
  assumes "\<forall>d \<in> set ds. c \<notin> set d"
  shows "split_at_char c (concat (map (\<lambda>d. c # d) ds) @ c # r) = [] # ds @ split_at_char c r"
  using assms
proof (induction ds)
  case (Cons d ds)
  obtain y where y: "concat (map (\<lambda>d. c # d) ds) @ c # r = c # y" by (cases ds) auto
  from Cons have "split_at_char c (c # y) = [] # ds @ split_at_char c r" by (simp only: y [symmetric]) simp
  then have "split_at_char c y = ds @ split_at_char c r" by simp
  with Cons.prems show ?case by (simp add: y split_at_char_append_sep)
qed simp

lemma normalize_segs_plain:
  "list_all plain_seg ds \<Longrightarrow> normalize_segs isAbs acc (ds @ rest) = normalize_segs isAbs (rev ds @ acc) rest"
  by (induction ds arbitrary: acc) (auto simp: plain_seg_def)

lemma normalize_segs_parent:
  assumes "ds \<noteq> []" "list_all plain_seg ds"
  shows "normalize_segs isAbs [] (ds @ ''..'' # rest) = normalize_segs isAbs (rev (butlast ds)) rest"
proof -
  have last: "last ds \<noteq> ''..''" using assms by (auto simp: list_all_iff plain_seg_def)
  have rv: "rev ds = last ds # rev (butlast ds)"
    using assms(1) by (metis append_butlast_last_id rev.simps(2) rev_rev_ident)
  have "normalize_segs isAbs [] (ds @ ''..'' # rest) = normalize_segs isAbs (rev ds) (''..'' # rest)"
    using normalize_segs_plain [OF assms(2), of isAbs "[]" "''..'' # rest"] by simp
  then show ?thesis by (simp only: rv) (simp add: last)
qed

lemma split_join_with:
  "xs \<noteq> [] \<Longrightarrow> \<forall>x \<in> set xs. c \<notin> set x \<Longrightarrow> split_at_char c (join_with c xs) = xs"
  by (induction c xs rule: join_with.induct) (auto simp: split_at_char_no_sep split_at_char_append_sep)

lemma join_parent:
  assumes ds: "ds \<noteq> []" "list_all plain_seg ds" and fs: "list_all plain_seg fs"
  shows "path_join (dir_string ds # ''..'' # fs) = FPath True (butlast ds @ fs)"
proof -
  let ?r = "join_with (CHR ''/'') (''..'' # fs)"
  have dir: "dir_string ds \<noteq> [] \<and> hd (dir_string ds) = CHR ''/''"
    using ds(1) by (cases ds) (simp_all add: dir_string_def)
  have filt: "filter (\<lambda>a. a \<noteq> []) (dir_string ds # ''..'' # fs) = dir_string ds # ''..'' # fs"
    using dir fs by (auto simp: list_all_iff plain_seg_def)
  have segs: "\<forall>d \<in> set ds. CHR ''/'' \<notin> set d"
    using ds(2) by (auto simp: list_all_iff plain_seg_def)
  have r: "split_at_char (CHR ''/'') ?r = ''..'' # fs"
    using fs by (intro split_join_with) (auto simp: list_all_iff plain_seg_def)
  have split: "split_at_char (CHR ''/'') (dir_string ds @ CHR ''/'' # ?r) = [] # ds @ ''..'' # fs"
    using split_at_char_dirs [OF segs, of ?r] by (simp add: dir_string_def r)
  have "normalize_segs True [] (ds @ ''..'' # fs) = butlast ds @ fs"
    using normalize_segs_parent [OF ds] normalize_segs_plain [OF fs, of True "rev (butlast ds)" "[]"] by simp
  moreover have "join_with (CHR ''/'') (filter (\<lambda>a. a \<noteq> []) (dir_string ds # ''..'' # fs)) =
      dir_string ds @ CHR ''/'' # ?r"
    by (simp only: filt join_with.simps(3))
  ultimately show ?thesis using dir unfolding path_join_def Let_def by (simp add: split)
qed

subsection \<open>Loading\<close>

lemma loadMxpyConfig_Inr:
  "loadMxpyConfig h = Inr cfg \<longleftrightarrow> (\<exists>c. readFile h (storagePath h) = Some c \<and> jsonParse h c = Some cfg)"
  by (auto simp: loadMxpyConfig_def split: option.splits)

lemma loadMxpyConfig_Inl:
  "loadMxpyConfig h = Inl e \<longleftrightarrow>
     (readFile h (storagePath h) = None \<and> e = ConfigFileUnreadable) \<or>
     (\<exists>c. readFile h (storagePath h) = Some c \<and> jsonParse h c = None \<and> e = ConfigFileMalformed)"
  by (auto simp: loadMxpyConfig_def split: option.splits)

lemma loadMxpyConfig_pemSigner: "loadMxpyConfig (h\<lparr>pemSigner := p\<rparr>) = loadMxpyConfig h"
  by (simp add: loadMxpyConfig_def storagePath_def split: option.split)

lemma getAdminSigner_Some:
  "getAdminSigner h = Some a \<longleftrightarrow> (\<exists>pem. readFile h (pemWalletPath h) = Some pem \<and> pemSigner h pem = Some a)"
  by (auto simp: getAdminSigner_def split: option.splits)

lemma script_run_cases:
  assumes "script_run h w argv = Some (st, tr)"
  obtains (load_error) e where "loadMxpyConfig h = Inl e" "st = RunCrashed e" "tr = no_trace"
  | (loaded) cfg where "loadMxpyConfig h = Inr cfg"
      "main_run (w\<lparr>mxpyConfig := cfg, adminSigner := getAdminSigner h\<rparr>) argv = Some (st, tr)"
  using assms by (cases "loadMxpyConfig h") (auto simp: script_run_def)

text \<open>
  C34: the script reads its configuration from \<open>mxpy.data-storage.json\<close> and its key
  from \<open>wallets/admin.pem\<close>, both in the parent of the script's directory, wherever the
  script is started from (\<open>__dirname\<close>, not the working directory).
\<close>

theorem host_file_paths:
  assumes "ds \<noteq> []" "list_all plain_seg ds" "scriptDir h = dir_string ds"
  shows "storagePath h = FPath True (butlast ds @ [''mxpy.data-storage.json'']) \<and>
         pemWalletPath h = FPath True (butlast ds @ [''wallets'', ''admin.pem''])"
  using join_parent [OF assms(1,2), of "[''mxpy.data-storage.json'']"]
        join_parent [OF assms(1,2), of "[''wallets'', ''admin.pem'']"] assms(3)
  by (simp add: storagePath_def pemWalletPath_def AdminPem_def plain_seg_def)

text \<open>
  C35: every transaction a script run sends was sent after the configuration file was
  read and parsed, to the contract address of the chosen environment in that file, and is
  signed with the key read from the key file.
\<close>

theorem script_sent_signed:
  assumes "script_run h w argv = Some (st, tr)" "tx \<in> set (sentTxs tr)"
  shows "\<exists>c cfg ecfg pem. readFile h (storagePath h) = Some c \<and> jsonParse h c = Some cfg \<and>
           loadEnvConfig cfg argv = ConfigOk ecfg \<and> scAddress ecfg = Some (JStr (tx_receiver tx)) \<and>
           readFile h (pemWalletPath h) = Some pem \<and> pemSigner h pem = Some (tx_sender tx)"
  using assms(1)
proof (cases rule: script_run_cases)
  case load_error
  with assms(2) show ?thesis by (simp add: no_trace_def)
next
  case (loaded cfg)
  have ne: "sentTxs tr \<noteq> []" using assms(2) by auto
  from main_run_sent_ok [OF loaded(2) ne] obtain ecfg a n where
    ecfg: "loadEnvConfig cfg argv = ConfigOk ecfg" and a: "getAdminSigner h = Some a"
    and ok: "sent_ok (proxyAt w (the (proxyUrl ecfg))) (the (scAddress ecfg)) \<lparr>acc_address = a, nonce = n\<rparr> (sentTxs tr)"
    by auto
  from loadEnvConfig_ok_fields [OF ecfg] obtain sc where sc: "scAddress ecfg = Some sc" by blast
  from ok assms(2) have "sc = JStr (tx_receiver tx) \<and> tx_sender tx = a" by (simp add: sent_ok_def sc)
  with loaded(1) ecfg a sc show ?thesis by (auto simp: loadMxpyConfig_Inr getAdminSigner_Some)
qed

text \<open>
  C36: a missing or unreadable configuration file and a file that is not JSON each stop
  the script before any request, with their own error, and nothing else gives these
  errors; a key file that is missing or not a valid PEM key means that no transaction is
  sent and the run does not finish.
\<close>

theorem script_run_file_errors:
  assumes "script_run h w argv = Some (st, tr)"
  shows "(st = RunCrashed ConfigFileUnreadable \<longleftrightarrow> readFile h (storagePath h) = None) \<and>
         (st = RunCrashed ConfigFileMalformed \<longleftrightarrow>
            (\<exists>c. readFile h (storagePath h) = Some c \<and> jsonParse h c = None)) \<and>
         (getAdminSigner h = None \<longrightarrow> sentTxs tr = [] \<and> st \<noteq> RunDone)"
  using assms
proof (cases rule: script_run_cases)
  case (load_error e)
  then show ?thesis by (auto simp: loadMxpyConfig_Inl no_trace_def)
next
  case (loaded cfg)
  from main_run_not_file_error [OF loaded(2)] loaded(1) main_run_no_signer [OF loaded(2)] show ?thesis
    by (auto simp: loadMxpyConfig_Inr)
qed

end
