(* ===== verification/Spec2Isabelle.thy ===== *)
theory Spec2Isabelle
  imports Scanner Helpers Submitter Config BatchLoop Run Payload Effects Host
begin

text \<open>
  \<^bold>\<open>Verification of the Itheum snapshot registration script.\<close>

  The program (\<^verbatim>\<open>src/snapshot/register-snapshot.ts\<close> with the helpers of
  \<^verbatim>\<open>src/snapshot/shared/helpers.ts\<close> and the types of \<^verbatim>\<open>src/snapshot/shared/types.ts\<close>)
  is one linear pipeline: read the environment's section of the configuration, scan the
  holders of a fungible token (with a minimum holding) and of a semi-fungible token,
  deduplicate them by address, cut the members into batches of 500, and send one signed
  contract call per batch, each with the next nonce of the administrator's account.

  \<^bold>\<open>Theories.\<close>
  \<^item> \<open>Prelude\<close>: the lemma collections and the generic facts on folds and intervals.
  \<^item> \<open>JsValues\<close>: bignumber.js numbers (\<open>numval\<close>: \<open>NaN\<close>, the two infinities, or a
    coefficient and a scale), JSON scalars (\<open>jval\<close>), \<open>shiftedBy\<close>, \<open>gte\<close> and
    JavaScript truthiness. \<open>ext_value\<close> maps a number to the extended rationals
    \<open>xnum\<close> (a \<open>linorder\<close> instance); \<open>gte\<close> and \<open>shiftedBy\<close> are proved exact against
    it. The decimal grammar \<open>[-]digits[.digits][(e|E)[+|-]digits]\<close> shared by both
    string readers is \<open>parse_decimal\<close> with \<open>parse_exponent\<close>; \<open>bn_decimal\<close> is
    bignumber.js's fast path for it.
  \<^item> \<open>BigNumberLex\<close>: the pieces of bignumber.js's \<open>parseNumeric\<close> and of its
    constructor with a base: trimming white space and a leading \<open>+\<close> (\<open>bn_strip\<close>),
    \<open>Infinity\<close>/\<open>NaN\<close> (\<open>bn_special\<close>), the \<open>0x\<close>/\<open>0b\<close>/\<open>0o\<close> prefixes
    (\<open>base_prefix\<close>), the digit check with its case change (\<open>base_chars_ok\<close>,
    \<open>base_norm\<close>), the conversion with 20 decimal places rounded half up
    (\<open>base_number\<close>), and the rewrites before a retry (\<open>dot_after\<close>, \<open>dot_before\<close>,
    \<open>bn_retry\<close>) with the measure that makes the retries terminate (\<open>retry_measure\<close>).
  \<^item> \<open>NumberReaders\<close>: \<open>new BigNumber(s)\<close> as \<open>bignumber_of_string\<close> (with
    \<open>bn_base\<close>, both \<^theory_text>\<open>function\<close>s with termination proofs) and unary \<open>+\<close> as
    JavaScript's \<open>ToNumber\<close> of a string (\<open>string_to_number\<close>: trimmed, empty is 0,
    optional sign before an unsigned decimal or \<open>Infinity\<close>, unsigned \<open>0x\<close>/\<open>0b\<close>/\<open>0o\<close>).
  \<^item> \<open>Helpers\<close>: \<open>getArg\<close>, \<open>Array.slice\<close> and the batcher \<open>chunkArray\<close>, whose
    \<open>while\<close> loop is a \<^theory_text>\<open>partial_function (option)\<close> (\<open>chunkArray_loop\<close>): it
    does not return for batch size 0, so its termination is proved, not assumed.
    \<open>chunks\<close> is the reference it is proved equal to.
  \<^item> \<open>Scanner\<close>: lines 40--92 of \<open>main\<close> and \<open>getPaginatedTokenAccounts\<close>,
    \<open>getPaginatedSftAccounts\<close>. The locals \<open>members\<close> and \<open>seenAddresses\<close> are the
    record \<open>scan_state\<close>; the body of each \<open>forEach\<close> is \<open>tokenHolderVisit\<close> /
    \<open>sftHolderVisit\<close>; a page is a fold of visits (\<open>tokenPage\<close>, \<open>sftPage\<close>); the
    \<open>for\<close> loop over pages 1 to 10 with its \<open>break\<close> is \<open>scan_pages\<close>, which also returns
    the pages it requested; \<open>takeSnapshot\<close> runs both passes from the empty state. The
    chain API is a parameter, a function from requests (\<open>api_request\<close>) to pages;
    \<open>list_api\<close> is the endpoint that serves a list of holders by \<open>from\<close> and \<open>size\<close>.
  \<^item> \<open>Encoding\<close>: the arguments of \<open>registerMembersSnapshotBatch\<close> as
    \<open>sdk-core\<close> encodes them: an address is the hex of its 32-byte public key
    (\<open>address_arg\<close>, through the chain's bech32 decoder), a weight the hex of the
    minimal big-endian bytes of a \<open>BigUIntValue\<close> (\<open>biguint_bytes\<close>, \<open>biguint_arg\<close>);
    \<open>registerPayload\<close> is the data field \<open>fn@arg@arg...\<close> of \<open>ContractFunction\<close>
    with the members' pairs flattened in order. Errors (an undecodable address, a weight
    that is not a non-negative integer) are the \<open>Inl\<close> values of \<open>submit_error\<close>.
  \<^item> \<open>Submitter\<close>: \<open>getNonceThenIncrement\<close>, the gas limit \<open>computedGasLimit\<close>,
    \<open>registerSnapshotInContract\<close> (lines 141--174: network configuration, payload,
    receiver, nonce, transaction, signature, broadcast) with the account returned updated,
    and \<open>registerBatches\<close>, the \<open>for\<close> loop of \<open>main\<close> over the batches with its
    \<open>await\<close> order: it stops at the first batch whose call throws. The signer, the
    network configuration and the broadcast are the record \<open>chain_env\<close>.
  \<^item> \<open>Config\<close>: lines 22--34 of \<open>main\<close>: the environment name from \<open>getArg\<close>, the
    section lookup that throws for a missing section (\<open>ConfigTypeError\<close>), the falsy
    check (\<open>InvalidConfig\<close>) and the fields read (\<open>readEnvConfig\<close>, \<open>loadEnvConfig\<close>).
  \<^item> \<open>BatchLoop\<close>: the same loop over the batches as a transition system
    (\<open>batch_step\<close> on \<open>loop_state\<close>, one step per iteration of lines 105--110), with
    its final states, determinism, the invariant \<open>loop_inv\<close> proved by rule induction,
    and the proof that \<open>registerBatches\<close> computes its unique final state.
  \<^item> \<open>Run\<close>: \<open>main\<close> (lines 21--113) as \<open>main_run\<close>, a function of a \<open>world\<close> (the parsed
    configuration file, the API and proxy providers at each URL, the token's decimals,
    the administrator's signer and account nonce) and of \<open>process.argv\<close>: configuration,
    token definition, \<open>snapshot_stage\<close> (both scans and \<open>chunkArray(members, 500)\<close>) and
    \<open>register_stage\<close> (signer, account, batch loop), in the code's order. It returns the
    way the run ended (\<open>run_status\<close>: rejected configuration, the step that threw
    (the section lookup, the token definition, the key, the account or a batch), or done) and the work done (\<open>run_trace\<close>: pages requested, snapshot, batches,
    transactions sent). \<open>main_run\<close> is \<open>None\<close> only when \<open>chunkArray\<close> does not
    return.
  \<^item> \<open>Effects\<close>: what a run does, in order, as a list of \<open>event\<close>s: the configuration
    read, every console line of \<open>main\<close> with its interpolations (\<open>nat_str\<close>,
    \<open>js_number_string\<close>, \<open>env_str\<close>), the pauses of \<open>timeout\<close>
    (\<^verbatim>\<open>src/snapshot/shared/helpers.ts\<close>, \<open>timeout_events\<close>), and every request to the
    chain. \<open>main_events\<close> follows \<open>main_run\<close>'s control flow stage by stage
    (\<open>scan_events\<close>, \<open>register_stage_events\<close>, \<open>register_events\<close>, \<open>call_events\<close>).
    A trace is observed through its page requests, broadcasts, progress lines
    (\<open>batch_log\<close>) and final line (\<open>done_log\<close>).
  \<^item> \<open>Payload\<close>: the contract's reading of the data field (\<open>decode_members\<close>: split at
    \<open>@\<close>, hexadecimal, pairs of key and weight), the reference for the round trip.
  \<^item> \<open>Host\<close>: the entry point \<open>main()\<close> of line 177 as \<open>script_run\<close>, over a
    \<open>host\<close> (the script's directory \<open>__dirname\<close>, the file system, \<open>JSON.parse\<close>
    and \<open>UserSigner.fromPem\<close>): \<open>loadMxpyConfig\<close> (lines 115--119) and
    \<open>getAdminSigner\<close> (lines 133--139) read their files at \<open>storagePath\<close> and
    \<open>pemWalletPath\<close>, computed with Node's \<open>path.join\<close> (\<open>path_join\<close>: join with
    \<open>/\<close>, then resolve \<open>.\<close> and \<open>..\<close>, \<open>normalize_segs\<close>); their results become the
    \<open>mxpyConfig\<close> and \<open>adminSigner\<close> of the \<open>world\<close> that \<open>main_run\<close> runs on. A
    missing file or a parse failure rejects \<open>main\<close> (\<open>ConfigFileUnreadable\<close>,
    \<open>ConfigFileMalformed\<close>; for the key, \<open>SignerFailed\<close> after the scans).
  \<^item> \<open>Spec2Isabelle\<close> (this theory): the properties that span the scanner and its
    pagination, the concrete chains, configurations and world of the scenarios, and the
    witnesses that evaluate the theorems on them.

  \<^bold>\<open>What is proved.\<close> The properties are numbered C1 to C36.
  \<^item> Scanner: the invariant (no duplicate address, seen set = member addresses) holds
    after both passes (C1); the passes compute the index-based reference
    \<open>first_occurrences\<close> of the qualifying token holders followed by the SFT holders (C2);
    every member is the first entry with its address and no address is lost (C3); the
    threshold is an exact comparison of extended rationals, equality included, \<open>Infinity\<close>
    above every threshold and \<open>NaN\<close> never qualifying (C4); with the minimum holding
    as the configuration writes it (a JSON number or a decimal string) and a balance as the
    API writes it (a string of digits), a holder qualifies exactly when
    \<open>minimum \<le> balance / 10^decimals\<close> (C5); each pass requests pages 1, 2, ...
    consecutively and stops at the first empty page or after page 10 (C6); against an
    endpoint that pages a list (\<open>list_api\<close>), each pass reads exactly the first 10000
    holders of its list, with no gap or overlap between pages (C7).
  \<^item> Batcher: termination and equality with the reference for positive sizes (C8),
    divergence for size 0 (C9), the batches concatenate back to the input with the size
    bounds (C10), and the exact size profile, e.g. 1200 members in 500, 500, 200 (C11).
  \<^item> Encoding: the payload of a batch has length exactly 28 plus, per member, 66
    (separators and the 64 hex digits of the key) and the hex length of its weight, so at
    least 28 + 66n for n members (C12).
  \<^item> Submitter: a successful call sends one transaction to the contract with the
    account's nonce and returns the account with the nonce incremented (C13); the batch
    loop, when it succeeds, sends one transaction per batch with consecutive nonces (C14),
    and when a call fails it stops there and sends nothing after it (C15); a batch of 439
    or more members always gets the maximal gas limit (C16).
  \<^item> Config: the exact conditions of the \<open>TypeError\<close>, of the rejection and of the
    acceptance (C17); a missing minimum holding passes the check as \<open>NaN\<close> and then no
    token holder is ever a member (C18).
  \<^item> Batch loop: every state reachable by the transition system satisfies the loop
    invariant (C19); \<open>registerBatches_refines_steps\<close> shows that the recursive loop
    computes its unique final state.
  \<^item> Whole run: a completed run registered the reference snapshot in batches of at most
    500, one transaction per batch with consecutive nonces (C20); the data fields of its
    transactions, decoded as the contract decodes them, are exactly the snapshot's members
    in order (C21); every transaction of any run goes to the configured contract from the
    administrator with distinct nonces, within the gas cap (C22); the run stops before any
    request exactly on a configuration or token-definition failure (C23); the key is read
    only after both scans (C24); a failing batch leaves exactly a prefix of the batches
    registered (C25); an empty snapshot sends nothing (C26).
  \<^item> Data field: decoding it gives back every member's key and weight in order (C27); it
    is the function name and pairs of even-length hexadecimal arguments, 64 digits for
    each address (C28).
  \<^item> Effects: the trace agrees with the run on the pages requested and the broadcasts
    made (C29); page requests of one pass and broadcasts are always separated by a pause
    of 500 ms (C30); a run makes at most 20 page requests and one broadcast per batch, with
    \<open>ceil(members / 500)\<close> batches (C31); the \<open>Done!\<close> line is logged exactly when the
    run completed, last, with the member count (C32); the progress lines number the
    batches attempted, so the last one of a failed run names the failing batch (C33).
  \<^item> Host: both files are read from the parent of the script's directory, whatever the
    working directory (C34); every transaction a script run sends comes after the
    configuration file was read and parsed, goes to the contract of that file and is signed
    with the key of the key file (C35); the file errors are reported as such and by nothing
    else, and without a valid key nothing is sent (C36).
  \<^item> Supporting facts about the libraries the script calls: the number readers
    (\<open>unary_plus_matches_bignumber\<close>, \<open>bignumber_literals\<close>, and
    \<open>number_readers_disagree\<close> for where they differ), the weight encoding
    (\<open>biguint_arg_roundtrip\<close>) and the printing of integers
    (\<open>decimal_string_roundtrip\<close>); the scenario of the specification as a scan
    (\<open>snapshot_spec_scenario\<close>) and as a whole run (\<open>main_run_spec_scenario\<close>).

  \<^bold>\<open>Bounds.\<close> The page loop is bounded by its own cap of 10 (measure \<open>11 - page\<close>);
  no fuel is used. The batcher is total only for a positive size, which the theorems
  take as their hypothesis; the script passes 500. \<open>biguint_bytes\<close> terminates by
  division by 256. \<open>bignumber_of_string\<close> retries only on a strictly shorter string
  (\<open>measure length\<close>) and \<open>bn_base\<close> on a string of smaller \<open>retry_measure\<close>, so both
  readers are total. Nonces and gas are natural numbers: the script computes them with
  JavaScript numbers far below \<open>2^53\<close>, so no rounding occurs for the sizes involved.
  Bytes are \<open>8 word\<close> values; the hex round trip is proved for every byte.

  \<^bold>\<open>Plan for the remaining parts.\<close> A bech32 decoder in place of the chain's decoder
  parameter (the address checksum and the 32-byte key), so that the receiver and member
  checks are computed rather than given.

  \<^bold>\<open>Not modelled.\<close> The duration of a pause and of a request (a pause is an event,
  not a delay); JavaScript's exponent notation when printing numbers below \<open>10^-6\<close> or
  from \<open>10^21\<close> and the rounding of numbers beyond 15 significant digits;
  the JSON grammar of \<open>JSON.parse\<close> and the PEM format of \<open>UserSigner.fromPem\<close>
  (library code: \<open>host\<close> takes them as functions from the file's text to the
  configuration object and to the key's address, or a failure); the file system beyond
  the text of a file at a normalised path (no symbolic links, permissions or encodings);
  the network providers beyond the values they return (the \<open>world\<close> and \<open>chain_env\<close>
  records take them as parameters); a request for a page of holders that is rejected
  (the API answers every page request; a rejection would end \<open>main\<close> with an unhandled
  rejection before the key is read, so nothing would be sent); a configuration section
  that is \<open>null\<close> or not an object (a section is a map from keys to scalars); the sign of
  a negative zero (\<open>"-0"\<close> reads as 0, which \<open>BigUIntValue\<close> would reject as
  negative); the rounding of IEEE doubles and bignumber.js's
  exponent limit of \<open>10^9\<close> (the model's numbers are exact); white space beyond ASCII
  (strings are lists of 8-bit characters); bignumber.js's \<open>DEBUG\<close> mode, which throws
  instead of returning \<open>NaN\<close> (the script does not set it).
\<close>

subsection \<open>A concrete chain for the scenarios\<close>

text \<open>
  The scenario of the specification: token \<open>ITH\<close> with two decimals, minimum holding 10,
  one page of two token holders above the threshold, one page of three SFT holders of
  \<open>TRAIL\<close>, one of which also holds the token; every later page is empty.
\<close>

definition demo_api :: api where
  "demo_api r = (case r of
      TokenAccounts _ f _ \<Rightarrow>
        if f = 0 then [\<lparr>address = ''erd1a'', balance = ''1500''\<rparr>,
                       \<lparr>address = ''erd1b'', balance = ''2000''\<rparr>] else []
    | SftAccounts _ f _ \<Rightarrow>
        if f = 0 then [\<lparr>address = ''erd1b'', balance = ''1''\<rparr>,
                       \<lparr>address = ''erd1c'', balance = ''3''\<rparr>,
                       \<lparr>address = ''erd1d'', balance = ''1''\<rparr>] else [])"

lemmas demo_eval = takeSnapshot_def tokenScan_def sftScan_def scan_pages.simps
  getPaginatedTokenAccounts_def getPaginatedSftAccounts_def demo_api_def perPage_def
  tokenPage_def sftPage_def tokenHolderVisit_def sftHolderVisit_def satisfiesMinHoldAmount_def
  to_member_def empty_scan_def bignumber_of_string_decimal bn_decimal_def parse_unsigned_def is_digit_def
  digits_value_def digit_value_def parse_decimal_def is_exp_char_def

text \<open>
  A chain for the submitter scenarios: every address decodes to a 32-byte key, the gas
  price per data byte is 1500, and the broadcast of the transaction with nonce 6 fails.
  The administrator's account starts at nonce 5.
\<close>

definition demo_chain :: chain_env where
  "demo_chain = \<lparr>networkConfig = Some \<lparr>GasPerDataByte = 1500, ChainID = ''D''\<rparr>,
                 fromBech32 = (\<lambda>a. Some (replicate 32 7)),
                 signTx = (\<lambda>tx. ''sig''),
                 broadcastAccepted = (\<lambda>tx. tx_nonce tx \<noteq> 6)\<rparr>"

definition demo_account :: account where
  "demo_account = \<lparr>acc_address = ''erd1admin'', nonce = 5\<rparr>"

definition demo_member :: member where
  "demo_member = \<lparr>member_address = ''erd1a'', weight = ''1500''\<rparr>"

text \<open>
  A configuration with a \<open>devnet\<close> section that sets every checked field and omits the
  minimum holding.
\<close>

definition demo_section :: config_section where
  "demo_section = [''api'' \<mapsto> JStr ''https://devnet-api'', ''proxy'' \<mapsto> JStr ''https://devnet-gateway'',
                   ''itheum-tokenid'' \<mapsto> JStr ''ITH'', ''trailblazer-nftid'' \<mapsto> JStr ''TRAIL'',
                   ''contract-address'' \<mapsto> JStr ''erd1sc'']"

definition demo_config :: mxpy_config where
  "demo_config = [''devnet'' \<mapsto> demo_section]"

text \<open>
  A world for whole runs: the \<open>devnet\<close> section with a minimum holding of 10, the API of
  the scenario above at every URL, two decimals for the token, the administrator
  \<open>erd1admin\<close> with nonce 5 on the network, and the chain above behind every proxy.
\<close>

definition demo_section_full :: config_section where
  "demo_section_full = demo_section(''itheum-min-hold-amount'' \<mapsto> JStr ''10'')"

definition demo_world :: world where
  "demo_world = \<lparr>mxpyConfig = [''devnet'' \<mapsto> demo_section_full],
                 apiAt = (\<lambda>_. demo_api), tokenDecimals = (\<lambda>_ _. Some 2),
                 adminSigner = Some ''erd1admin'', accountNonce = (\<lambda>_ _. Some 5),
                 proxyAt = (\<lambda>_. demo_chain)\<rparr>"

definition demo_argv :: "string list" where
  "demo_argv = [''node'', ''register-snapshot'', ''devnet'']"

text \<open>
  A checkout at \<open>/app\<close>: the script in \<open>/app/src/snapshot\<close>, its configuration file and
  key file next to \<open>src/snapshot\<close>, parsing to the configuration and the signer of
  \<^const>\<open>demo_world\<close>.
\<close>

definition demo_host :: host where
  "demo_host = \<lparr>scriptDir = ''/app/src/snapshot'',
                readFile = [FPath True [''app'', ''src'', ''mxpy.data-storage.json''] \<mapsto> ''config-json'',
                            FPath True [''app'', ''src'', ''wallets'', ''admin.pem''] \<mapsto> ''admin-pem''],
                jsonParse = (\<lambda>txt. if txt = ''config-json'' then Some (mxpyConfig demo_world) else None),
                pemSigner = (\<lambda>txt. if txt = ''admin-pem'' then adminSigner demo_world else None)\<rparr>"

lemmas weight_eval = biguint_arg_def biguint_of_string_def bignumber_of_string_decimal bn_decimal_def parse_unsigned_def
  parse_decimal_def is_exp_char_def
  is_digit_def digits_value_def digit_value_def biguint_bytes.simps hex_of_bytes_def hex_byte_def
  hex_digit_def hex_chars_def

lemmas submit_eval = registerSnapshotInContract_def demo_chain_def demo_account_def demo_member_def
  registerPayload_def address_arg_def pubkey_length_def valid_address_def receiver_address_def
  getNonceThenIncrement_def
  weight_eval Let_def

lemma demo_min_hold: "string_to_number ''10'' = Dec 10 0"
  by (simp add: string_to_number_def js_trim_def is_js_space_def nondecimal_literal_def base_of_char_def
      str_unsigned_decimal_def parse_decimal_def parse_unsigned_def is_exp_char_def is_digit_def
      digits_value_def digit_value_def Let_def)

lemmas run_eval = main_run_ok_path loadEnvConfig_def getArg_def env_key_def demo_world_def
  demo_argv_def demo_section_full_def demo_section_def config_valid_def readEnvConfig_def
  snapshot_stage_Some register_stage_def newAccount_def account_update_def demo_eval submit_eval
  demo_min_hold batchSize_def chunks.simps

lemma demo_world_done: "\<exists>tr. main_run demo_world demo_argv = Some (RunDone, tr)"
  by (simp add: run_eval)

lemma demo_host_loads:
  "loadMxpyConfig demo_host = Inr (mxpyConfig demo_world) \<and> getAdminSigner demo_host = adminSigner demo_world"
  by (simp add: loadMxpyConfig_def getAdminSigner_def storagePath_def pemWalletPath_def path_join_def
      AdminPem_def demo_host_def)

lemma demo_script_run: "script_run demo_host demo_world argv = main_run demo_world argv"
  using demo_host_loads by (simp add: script_run_def)

subsection \<open>Properties of the scanner\<close>

text \<open>
  C3: no address of the input is lost, and each member is the first entry of the input
  with its address: when an address is both a qualifying token holder and an SFT holder,
  the token entry, with the token balance as weight, is the one kept.
\<close>

theorem snapshot_first_occurrence_wins:
  "member_address ` set (members (fst (takeSnapshot provider tokenId decimals minHold nftId))) =
     member_address ` set (snapshot_input provider tokenId decimals minHold nftId) \<and>
   (\<forall>m \<in> set (members (fst (takeSnapshot provider tokenId decimals minHold nftId))).
      \<exists>i < length (snapshot_input provider tokenId decimals minHold nftId).
        snapshot_input provider tokenId decimals minHold nftId ! i = m \<and>
        (\<forall>j < i. member_address (snapshot_input provider tokenId decimals minHold nftId ! j) \<noteq>
                 member_address m))"
proof -
  let ?L = "snapshot_input provider tokenId decimals minHold nftId"
  have eq: "members (fst (takeSnapshot provider tokenId decimals minHold nftId)) =
            first_occurrences_from {} ?L"
    by (rule takeSnapshot_members_from)
  have addrs: "member_address ` set (first_occurrences_from {} ?L) = member_address ` set ?L"
    by (simp add: first_occurrences_from_addresses)
  have first: "\<forall>m \<in> set (first_occurrences_from {} ?L). \<exists>i < length ?L. ?L ! i = m \<and>
                 (\<forall>j < i. member_address (?L ! j) \<noteq> member_address m)"
    using first_occurrences_from_first [of _ "{}" ?L] by blast
  from addrs first show ?thesis by (simp only: eq)
qed

text \<open>
  C6: each pass requests the pages \<open>1, \<dots>, n\<close> in order, with \<open>1 \<le> n \<le> 10\<close>: every
  page before \<open>n\<close> was non-empty, and page \<open>n\<close> was empty or was the tenth.
\<close>

theorem snapshot_pagination:
  "(\<exists>n. 1 \<le> n \<and> n \<le> 10 \<and>
      fst (snd (takeSnapshot provider tokenId decimals minHold nftId)) = [1..<Suc n] \<and>
      (\<forall>p \<in> {1..<n}. getPaginatedTokenAccounts provider tokenId p \<noteq> []) \<and>
      (getPaginatedTokenAccounts provider tokenId n = [] \<or> n = 10)) \<and>
   (\<exists>n. 1 \<le> n \<and> n \<le> 10 \<and>
      snd (snd (takeSnapshot provider tokenId decimals minHold nftId)) = [1..<Suc n] \<and>
      (\<forall>p \<in> {1..<n}. getPaginatedSftAccounts provider nftId p \<noteq> []) \<and>
      (getPaginatedSftAccounts provider nftId n = [] \<or> n = 10))"
proof -
  let ?st1 = "fst (tokenScan provider tokenId decimals minHold empty_scan)"
  have tok: "fst (snd (takeSnapshot provider tokenId decimals minHold nftId)) =
             snd (scan_pages (getPaginatedTokenAccounts provider tokenId) (tokenPage decimals minHold) 1 empty_scan [])"
    by (simp add: takeSnapshot_def split_def Let_def tokenScan_def)
  have sft: "snd (snd (takeSnapshot provider tokenId decimals minHold nftId)) =
             snd (scan_pages (getPaginatedSftAccounts provider nftId) sftPage 1 ?st1 [])"
    by (simp add: takeSnapshot_def split_def Let_def sftScan_def)
  show ?thesis
    unfolding tok sft by (intro conjI scan_pages_requests)
qed

text \<open>
  The end-to-end scenario of the specification: the snapshot holds four members, in
  the order token1, token2, sft1, sft2; the SFT entry of the address that also holds the
  token is skipped, and each member keeps the balance of the entry that was kept.
\<close>

lemma snapshot_spec_scenario:
  "members (fst (takeSnapshot demo_api (JStr ''ITH'') 2 (Dec 10 0) (JStr ''TRAIL''))) =
     [\<lparr>member_address = ''erd1a'', weight = ''1500''\<rparr>,
      \<lparr>member_address = ''erd1b'', weight = ''2000''\<rparr>,
      \<lparr>member_address = ''erd1c'', weight = ''3''\<rparr>,
      \<lparr>member_address = ''erd1d'', weight = ''1''\<rparr>]"
  by (simp add: demo_eval)

subsection \<open>Properties of a whole run\<close>

text \<open>
  The scenario of the specification as a whole run of \<open>main\<close>: with the minimum
  holding 10 and two decimals both token holders qualify, the snapshot is token1, token2,
  sft1, sft2, it fits one batch, and one transaction is sent to the contract with the
  administrator's nonce 5 from the network.
\<close>

lemma main_run_spec_scenario:
  "\<exists>tr. main_run demo_world demo_argv = Some (RunDone, tr) \<and>
     snapshotMembers tr =
       [\<lparr>member_address = ''erd1a'', weight = ''1500''\<rparr>,
        \<lparr>member_address = ''erd1b'', weight = ''2000''\<rparr>,
        \<lparr>member_address = ''erd1c'', weight = ''3''\<rparr>,
        \<lparr>member_address = ''erd1d'', weight = ''1''\<rparr>] \<and>
     map length (batches tr) = [4] \<and>
     map tx_nonce (sentTxs tr) = [5] \<and> map tx_receiver (sentTxs tr) = [''erd1sc''] \<and>
     map tx_sender (sentTxs tr) = [''erd1admin'']"
  by (simp add: run_eval)

text \<open>
  C21: what the contract receives is the snapshot. In a completed run every transaction's
  data field decodes, as the contract reads it, to a call of
  \<open>registerMembersSnapshotBatch\<close>, and the arguments of all the calls, in the order
  the transactions were sent, are the members of the snapshot in order: each address's
  public key with the integer its weight denotes. No member is dropped, repeated or
  reordered between the scan and the chain.
\<close>

theorem main_run_registers_snapshot:
  assumes "main_run w argv = Some (RunDone, tr)"
  shows "\<exists>cfg regs. loadEnvConfig (mxpyConfig w) argv = ConfigOk cfg \<and>
           those (map (\<lambda>tx. decode_members (tx_data tx)) (sentTxs tr)) = Some regs \<and>
           (\<forall>r \<in> set regs. fst r = registerFunction) \<and>
           concat (map snd regs) =
             map (\<lambda>m. (the (fromBech32 (proxyAt w (the (proxyUrl cfg))) (member_address m)),
                       the (biguint_of_string (weight m))))
                 (snapshotMembers tr)"
proof -
  from main_run_RunDone [OF assms] obtain cfg d a n acc' where
    cfg: "loadEnvConfig (mxpyConfig w) argv = ConfigOk cfg"
    and bs: "batches tr = chunks batchSize (snapshotMembers tr)"
    and run: "registerBatches (proxyAt w (the (proxyUrl cfg))) \<lparr>acc_address = a, nonce = n\<rparr>
                (the (scAddress cfg)) (batches tr) [] = (Inr (sentTxs tr), acc')"
    by blast
  let ?dec = "fromBech32 (proxyAt w (the (proxyUrl cfg)))"
  let ?f = "\<lambda>m. (the (?dec (member_address m)), the (biguint_of_string (weight m)))"
  from registerBatches_Inr [OF run] have
    len: "length (sentTxs tr) = length (batches tr)"
    and pay: "\<forall>i < length (batches tr). registerPayload ?dec (batches tr ! i) = Inr (tx_data (sentTxs tr ! i))"
    by auto
  have decs: "map (\<lambda>tx. decode_members (tx_data tx)) (sentTxs tr) =
              map (\<lambda>b. Some (registerFunction, map ?f b)) (batches tr)"
    by (rule nth_equalityI) (simp_all add: len pay decode_members_payload)
  have "concat (map (map ?f) (batches tr)) = map ?f (snapshotMembers tr)"
    by (simp add: map_concat [symmetric] bs concat_chunks batchSize_def)
  then show ?thesis
    using cfg by (auto simp: decs those_map_Some comp_def)
qed

subsection \<open>Where the two number readers differ\<close>

text \<open>
  The minimum holding is read with unary \<open>+\<close> (line 27), the balances with
  \<open>new BigNumber\<close> (line 58). Both read exponents and \<open>0x\<close> literals alike, but a signed
  hexadecimal literal is a number only for \<open>BigNumber\<close>, and the empty string only for
  unary \<open>+\<close>.
\<close>

lemma number_readers_disagree:
  "num_value (bignumber_of_string ''15e2'') = Some 1500 \<and>
   num_value (bignumber_of_string ''15e-2'') = Some (15 / 100) \<and>
   bignumber_of_string ''0x1a'' = Dec 26 0 \<and> bignumber_of_string ''-0x1a'' = Dec (- 26) 0 \<and>
   string_to_number ''0x1a'' = Dec 26 0 \<and> string_to_number ''-0x1a'' = NaN \<and>
   string_to_number [] = Dec 0 0 \<and> bignumber_of_string [] = NaN"
proof -
  have "string_to_number [] = Dec 0 0" by (simp add: string_to_number_def js_trim_def)
  moreover have "bignumber_of_string [] = NaN"
    by (subst bignumber_of_string.simps)
       (simp add: bn_decimal_def bn_strip_def lead_plus_def bn_special_def base_prefix_def)
  moreover have "num_value (bignumber_of_string ''15e2'') = Some 1500 \<and>
   num_value (bignumber_of_string ''15e-2'') = Some (15 / 100) \<and>
   bignumber_of_string ''0x1a'' = Dec 26 0 \<and> bignumber_of_string ''-0x1a'' = Dec (- 26) 0 \<and>
   string_to_number ''0x1a'' = Dec 26 0 \<and> string_to_number ''-0x1a'' = NaN"
    using bignumber_literals [of "''15''" "''2''" "''1a''"]
    by (simp add: is_digit_def digits_value_def digit_value_def in_alphabet_def base_value_def
      base_digit_value_def)
  ultimately show ?thesis by blast
qed

subsection \<open>Witnesses\<close>

theorem snapshot_first_occurrence_wins_witness:
  "\<lparr>member_address = ''erd1c'', weight = ''3''\<rparr>
     \<in> set (members (fst (takeSnapshot demo_api (JStr ''ITH'') 2 (Dec 10 0) (JStr ''TRAIL'')))) \<and>
   (\<exists>i < length (snapshot_input demo_api (JStr ''ITH'') 2 (Dec 10 0) (JStr ''TRAIL'')).
      snapshot_input demo_api (JStr ''ITH'') 2 (Dec 10 0) (JStr ''TRAIL'') ! i =
        \<lparr>member_address = ''erd1c'', weight = ''3''\<rparr> \<and>
      (\<forall>j < i. member_address (snapshot_input demo_api (JStr ''ITH'') 2 (Dec 10 0) (JStr ''TRAIL'') ! j) \<noteq>
               ''erd1c''))"
proof -
  have mem: "\<lparr>member_address = ''erd1c'', weight = ''3''\<rparr>
     \<in> set (members (fst (takeSnapshot demo_api (JStr ''ITH'') 2 (Dec 10 0) (JStr ''TRAIL''))))"
    by (simp add: demo_eval)
  have "\<exists>i < length (snapshot_input demo_api (JStr ''ITH'') 2 (Dec 10 0) (JStr ''TRAIL'')).
      snapshot_input demo_api (JStr ''ITH'') 2 (Dec 10 0) (JStr ''TRAIL'') ! i =
        \<lparr>member_address = ''erd1c'', weight = ''3''\<rparr> \<and>
      (\<forall>j < i. member_address (snapshot_input demo_api (JStr ''ITH'') 2 (Dec 10 0) (JStr ''TRAIL'') ! j) \<noteq>
               member_address \<lparr>member_address = ''erd1c'', weight = ''3''\<rparr>)"
    by (rule bspec [OF conjunct2 [OF snapshot_first_occurrence_wins
          [of demo_api "JStr ''ITH''" 2 "Dec 10 0" "JStr ''TRAIL''"]] mem])
  with mem show ?thesis by (simp only: member.select_convs)
qed

theorem snapshot_pagination_witness:
  "fst (snd (takeSnapshot demo_api (JStr ''ITH'') 2 (Dec 10 0) (JStr ''TRAIL''))) = [1, 2] \<and>
   (\<exists>n. 1 \<le> n \<and> n \<le> 10 \<and>
      fst (snd (takeSnapshot demo_api (JStr ''ITH'') 2 (Dec 10 0) (JStr ''TRAIL''))) = [1..<Suc n] \<and>
      (\<forall>p \<in> {1..<n}. getPaginatedTokenAccounts demo_api (JStr ''ITH'') p \<noteq> []) \<and>
      (getPaginatedTokenAccounts demo_api (JStr ''ITH'') n = [] \<or> n = 10))"
proof -
  have pages: "fst (snd (takeSnapshot demo_api (JStr ''ITH'') 2 (Dec 10 0) (JStr ''TRAIL''))) = [1, 2]"
    by (simp add: demo_eval)
  with snapshot_pagination [of demo_api "JStr ''ITH''" 2 "Dec 10 0" "JStr ''TRAIL''"]
  show ?thesis by blast
qed

theorem chunkArray_chunks_witness: "0 < (2::nat) \<and> chunkArray [1, 2, 3 :: nat] 2 = Some [[1, 2], [3]]"
  using chunkArray_chunks [of 2 "[1, 2, 3 :: nat]"] by (simp add: chunks_nonempty)

theorem chunkArray_size0_witness: "[1 :: nat] \<noteq> [] \<and> chunkArray [1 :: nat] 0 = None"
  using chunkArray_size0 [of "[1 :: nat]"] by simp

theorem chunkArray_roundtrip_witness:
  "chunkArray [1, 2, 3 :: nat] 2 = Some [[1, 2], [3]] \<and> concat [[1, 2], [3 :: nat]] = [1, 2, 3]"
proof -
  have run: "chunkArray [1, 2, 3 :: nat] 2 = Some [[1, 2], [3]]"
    by (simp add: chunkArray_def chunkArray_loop.simps js_slice_def)
  from chunkArray_roundtrip [OF _ run] run show ?thesis by simp
qed

theorem chunkArray_batch_sizes_witness:
  "map_option (map length) (chunkArray (replicate 1200 (0 :: nat)) 500) = Some [500, 500, 200]"
  using chunkArray_batch_sizes [of 500 "replicate 1200 (0 :: nat)"] by (simp add: numeral_2_eq_2)

theorem registerPayload_length_witness:
  "\<exists>p. registerPayload (fromBech32 demo_chain) [demo_member] = Inr p \<and> length p = 98"
proof -
  obtain p where p: "registerPayload (fromBech32 demo_chain) [demo_member] = Inr p"
    using registerPayload_Inr [of "[demo_member]" "fromBech32 demo_chain"]
    by (auto simp: demo_chain_def demo_member_def pubkey_length_def weight_eval)
  have "length p = 98"
    using registerPayload_length [OF p] by (simp add: demo_member_def weight_eval)
  with p show ?thesis by blast
qed

theorem registerSnapshotInContract_sent_witness:
  "\<exists>tx acc'. registerSnapshotInContract demo_chain demo_account (JStr ''erd1sc'') [demo_member] = (Inr tx, acc') \<and>
     tx_nonce tx = 5 \<and> tx_value tx = 0 \<and> tx_receiver tx = ''erd1sc'' \<and> nonce acc' = 6"
proof -
  obtain tx acc' where run: "registerSnapshotInContract demo_chain demo_account (JStr ''erd1sc'') [demo_member] = (Inr tx, acc')"
    by (simp add: submit_eval)
  from registerSnapshotInContract_sent [OF run] run show ?thesis
    by (auto simp: demo_account_def)
qed

theorem registerBatches_all_sent_witness:
  "\<exists>txs acc'. registerBatches demo_chain demo_account (JStr ''erd1sc'') [[demo_member]] [] = (Inr txs, acc') \<and>
     map tx_nonce txs = [5] \<and> nonce acc' = 6"
proof -
  obtain txs acc' where run: "registerBatches demo_chain demo_account (JStr ''erd1sc'') [[demo_member]] [] = (Inr txs, acc')"
    by (simp add: submit_eval)
  from registerBatches_all_sent [OF run] run show ?thesis
    by (auto simp: demo_account_def)
qed

theorem registerBatches_halts_witness:
  "\<exists>sent acc'. registerBatches demo_chain demo_account (JStr ''erd1sc'') [[demo_member], [demo_member]] [] =
       (Inl (BroadcastFailed 6, sent), acc') \<and>
     (\<exists>k < 2. length sent = k \<and> map tx_nonce sent = [5..<5 + k])"
proof -
  obtain sent acc' where run: "registerBatches demo_chain demo_account (JStr ''erd1sc'') [[demo_member], [demo_member]] [] =
       (Inl (BroadcastFailed 6, sent), acc')"
    by (simp add: submit_eval)
  from registerBatches_halts [OF run] run show ?thesis
    by (auto simp: demo_account_def)
qed

theorem full_batch_gas_capped_witness:
  "\<exists>tx acc'. registerSnapshotInContract demo_chain demo_account (JStr ''erd1sc'') (replicate 439 demo_member) = (Inr tx, acc') \<and>
     tx_gasLimit tx = MaxBlockGasLimit"
proof -
  obtain p where p: "registerPayload (fromBech32 demo_chain) (replicate 439 demo_member) = Inr p"
    using registerPayload_Inr [of "replicate 439 demo_member" "fromBech32 demo_chain"]
    by (auto simp: demo_chain_def demo_member_def pubkey_length_def weight_eval)
  then obtain tx acc' where run: "registerSnapshotInContract demo_chain demo_account (JStr ''erd1sc'') (replicate 439 demo_member) = (Inr tx, acc')"
    by (simp add: registerSnapshotInContract_def demo_chain_def demo_account_def valid_address_def
        receiver_address_def pubkey_length_def getNonceThenIncrement_def Let_def)
  from full_batch_gas_capped [OF run] run show ?thesis by auto
qed

theorem loadEnvConfig_outcome_witness:
  "loadEnvConfig demo_config [''node'', ''register-snapshot'', ''devnet''] = ConfigOk (readEnvConfig demo_section) \<and>
   loadEnvConfig demo_config [''node'', ''register-snapshot''] = ConfigTypeError"
  using loadEnvConfig_outcome [of demo_config "[''node'', ''register-snapshot'', ''devnet'']" "readEnvConfig demo_section"]
    loadEnvConfig_outcome [of demo_config "[''node'', ''register-snapshot'']" "readEnvConfig demo_section"]
  by (simp add: getArg_def env_key_def demo_config_def demo_section_def)

theorem missing_min_hold_excludes_all_witness:
  "itheumMinHoldAmount (readEnvConfig demo_section) = NaN \<and>
   tokenHolderVisit 2 (itheumMinHoldAmount (readEnvConfig demo_section)) empty_scan demo_member = empty_scan"
proof -
  have ok: "loadEnvConfig demo_config [''node'', ''register-snapshot'', ''devnet''] = ConfigOk (readEnvConfig demo_section)"
    by (simp add: loadEnvConfig_def getArg_def env_key_def demo_config_def config_valid_def
        readEnvConfig_def demo_section_def)
  have sec: "demo_config (env_key (getArg [''node'', ''register-snapshot'', ''devnet''] 0)) = Some demo_section"
    by (simp add: getArg_def env_key_def demo_config_def)
  have none: "demo_section ''itheum-min-hold-amount'' = None"
    by (simp add: demo_section_def)
  from missing_min_hold_excludes_all [OF ok sec none]
  have nan: "itheumMinHoldAmount (readEnvConfig demo_section) = NaN"
    and all: "\<forall>d st m. tokenHolderVisit d (itheumMinHoldAmount (readEnvConfig demo_section)) st m = st"
    by blast+
  from nan all [rule_format, of 2 empty_scan demo_member] show ?thesis by simp
qed

theorem batch_loop_invariant_witness:
  "loop_inv demo_chain (JStr ''erd1sc'') demo_account
     (outcome_state (registerBatches demo_chain demo_account (JStr ''erd1sc'') [[demo_member], [demo_member]] []))"
  using batch_loop_invariant [OF registerBatches_reaches] .

theorem main_run_done_witness:
  "\<exists>tr. main_run demo_world demo_argv = Some (RunDone, tr) \<and>
     concat (batches tr) = snapshotMembers tr \<and> length (sentTxs tr) = length (batches tr)"
proof -
  from demo_world_done obtain tr where run: "main_run demo_world demo_argv = Some (RunDone, tr)" by blast
  from main_run_done [OF run] run show ?thesis by auto
qed

theorem main_run_sent_safe_witness:
  "\<exists>tr. main_run demo_world demo_argv = Some (RunDone, tr) \<and> distinct (map tx_nonce (sentTxs tr)) \<and>
     (\<forall>tx \<in> set (sentTxs tr). tx_gasLimit tx \<le> MaxBlockGasLimit)"
proof -
  from demo_world_done obtain tr where run: "main_run demo_world demo_argv = Some (RunDone, tr)" by blast
  from main_run_sent_safe [OF run] run show ?thesis by blast
qed

theorem main_run_early_exit_witness:
  "main_run demo_world [''node'', ''register-snapshot''] = Some (RunCrashed EnvSectionMissing, no_trace) \<and>
   tokenPages no_trace = []"
proof -
  have run: "main_run demo_world [''node'', ''register-snapshot''] = Some (RunCrashed EnvSectionMissing, no_trace)"
    by (simp add: main_run_def loadEnvConfig_def getArg_def env_key_def demo_world_def)
  from main_run_early_exit [OF run] run show ?thesis by simp
qed

theorem main_run_signer_after_scan_witness:
  "main_run (demo_world\<lparr>adminSigner := None\<rparr>) demo_argv =
     Some (RunCrashed SignerFailed, the (snapshot_stage demo_world (readEnvConfig demo_section_full) 2)) \<and>
   sentTxs (the (snapshot_stage demo_world (readEnvConfig demo_section_full) 2)) = []"
proof -
  have cfg: "loadEnvConfig (mxpyConfig (demo_world\<lparr>adminSigner := None\<rparr>)) demo_argv = ConfigOk (readEnvConfig demo_section_full)"
    by (simp add: loadEnvConfig_def getArg_def env_key_def demo_world_def demo_argv_def demo_section_full_def
        demo_section_def config_valid_def readEnvConfig_def)
  have d: "tokenDecimals (demo_world\<lparr>adminSigner := None\<rparr>) (the (apiUrl (readEnvConfig demo_section_full)))
             (the (itheumTokenId (readEnvConfig demo_section_full))) = Some 2"
    by (simp add: demo_world_def)
  have snap: "snapshot_stage (demo_world\<lparr>adminSigner := None\<rparr>) = snapshot_stage demo_world"
    by (intro ext) (simp add: snapshot_stage_def)
  from main_run_signer_after_scan [OF cfg d] show ?thesis by (simp add: snap)
qed

theorem main_run_batch_failure_witness:
  "main_run (demo_world\<lparr>accountNonce := (\<lambda>_ _. Some 6)\<rparr>) demo_argv =
     Some (RunCrashed (BatchFailed (BroadcastFailed 6)),
           the (snapshot_stage demo_world (readEnvConfig demo_section_full) 2)) \<and>
   (\<exists>k. k < length (batches (the (snapshot_stage demo_world (readEnvConfig demo_section_full) 2))) \<and>
      length (sentTxs (the (snapshot_stage demo_world (readEnvConfig demo_section_full) 2))) = k)"
proof -
  have run: "main_run (demo_world\<lparr>accountNonce := (\<lambda>_ _. Some 6)\<rparr>) demo_argv =
     Some (RunCrashed (BatchFailed (BroadcastFailed 6)),
           the (snapshot_stage demo_world (readEnvConfig demo_section_full) 2))"
    by (simp add: run_eval snapshot_stage_def split_def Let_def chunkArray_batchSize)
  from main_run_batch_failure [OF run] run show ?thesis by blast
qed

theorem main_run_empty_snapshot_witness:
  "\<exists>st tr. main_run (demo_world\<lparr>apiAt := (\<lambda>_ _. [])\<rparr>) demo_argv = Some (st, tr) \<and> sentTxs tr = [] \<and> st = RunDone"
proof -
  have cfg: "loadEnvConfig (mxpyConfig (demo_world\<lparr>apiAt := (\<lambda>_ _. [])\<rparr>)) demo_argv = ConfigOk (readEnvConfig demo_section_full)"
    by (simp add: loadEnvConfig_def getArg_def env_key_def demo_world_def demo_argv_def demo_section_full_def
        demo_section_def config_valid_def readEnvConfig_def)
  have d: "tokenDecimals (demo_world\<lparr>apiAt := (\<lambda>_ _. [])\<rparr>) (the (apiUrl (readEnvConfig demo_section_full)))
             (the (itheumTokenId (readEnvConfig demo_section_full))) = Some 2"
    by (simp add: demo_world_def)
  have empty: "members (fst (takeSnapshot (apiAt (demo_world\<lparr>apiAt := (\<lambda>_ _. [])\<rparr>) (the (apiUrl (readEnvConfig demo_section_full))))
                 (the (itheumTokenId (readEnvConfig demo_section_full))) 2
                 (itheumMinHoldAmount (readEnvConfig demo_section_full))
                 (the (trailblazerNftId (readEnvConfig demo_section_full))))) = []"
    by (simp add: takeSnapshot_def tokenScan_def sftScan_def scan_pages.simps getPaginatedTokenAccounts_def
        getPaginatedSftAccounts_def empty_scan_def)
  from main_run_empty_snapshot [OF cfg d empty] show ?thesis by (auto simp: demo_world_def)
qed

theorem decode_registerPayload_witness:
  "\<exists>p. registerPayload (fromBech32 demo_chain) [demo_member] = Inr p \<and>
       decode_members p = Some (registerFunction, [(replicate 32 7, 1500)])"
proof -
  obtain p where p: "registerPayload (fromBech32 demo_chain) [demo_member] = Inr p"
    using registerPayload_Inr [of "[demo_member]" "fromBech32 demo_chain"]
    by (auto simp: demo_chain_def demo_member_def pubkey_length_def weight_eval)
  have "decode_members p = Some (registerFunction, [(replicate 32 7, 1500)])"
    using decode_registerPayload [OF p] by (simp add: demo_chain_def demo_member_def weight_eval)
  with p show ?thesis by blast
qed

theorem registerPayload_well_formed_witness:
  "\<exists>p. registerPayload (fromBech32 demo_chain) [demo_member] = Inr p \<and>
       (\<exists>args. p = build_payload registerFunction args \<and> length args = 2 \<and> length (args ! 0) = 64)"
proof -
  obtain p where p: "registerPayload (fromBech32 demo_chain) [demo_member] = Inr p"
    using registerPayload_Inr [of "[demo_member]" "fromBech32 demo_chain"]
    by (auto simp: demo_chain_def demo_member_def pubkey_length_def weight_eval)
  from registerPayload_well_formed [OF p] obtain args where
    "p = build_payload registerFunction args" "length args = 2 * length [demo_member]"
    "\<forall>i < length [demo_member]. length (args ! (2 * i)) = 64"
    by blast
  then have "p = build_payload registerFunction args \<and> length args = 2 \<and> length (args ! 0) = 64"
    by simp
  with p show ?thesis by blast
qed

theorem main_events_refines_run_witness:
  "\<exists>tr evs. main_run demo_world demo_argv = Some (RunDone, tr) \<and> main_events demo_world demo_argv = Some evs \<and>
     List.map_filter broadcast_nonce evs = map tx_nonce (sentTxs tr)"
proof -
  from demo_world_done obtain tr where run: "main_run demo_world demo_argv = Some (RunDone, tr)" by blast
  from main_events_refines_run [OF run] run show ?thesis by auto
qed

theorem main_events_rate_limited_witness:
  "\<exists>evs. main_events demo_world demo_argv = Some evs \<and> spaced is_broadcast evs \<and> spaced is_token_fetch evs"
proof -
  from main_events_defined obtain evs where ev: "main_events demo_world demo_argv = Some evs" by blast
  from main_events_rate_limited [OF ev] ev show ?thesis by blast
qed

theorem main_events_request_bounds_witness:
  "\<exists>tr evs. main_run demo_world demo_argv = Some (RunDone, tr) \<and> main_events demo_world demo_argv = Some evs \<and>
     length (List.map_filter page_request evs) \<le> 20"
proof -
  from demo_world_done obtain tr where run: "main_run demo_world demo_argv = Some (RunDone, tr)" by blast
  from main_events_defined obtain evs where ev: "main_events demo_world demo_argv = Some evs" by blast
  from main_events_request_bounds [OF run ev] run ev show ?thesis by blast
qed

theorem host_file_paths_witness:
  "storagePath demo_host = FPath True [''app'', ''src'', ''mxpy.data-storage.json''] \<and>
   pemWalletPath demo_host = FPath True [''app'', ''src'', ''wallets'', ''admin.pem'']"
  using host_file_paths [of "[''app'', ''src'', ''snapshot'']" demo_host]
  by (simp add: demo_host_def dir_string_def plain_seg_def)

theorem script_sent_signed_witness:
  "\<exists>tr. script_run demo_host demo_world demo_argv = Some (RunDone, tr) \<and>
     (\<forall>tx \<in> set (sentTxs tr). tx_sender tx = ''erd1admin'')"
proof -
  from demo_world_done obtain tr where run: "script_run demo_host demo_world demo_argv = Some (RunDone, tr)"
    by (auto simp: demo_script_run)
  have "tx_sender tx = ''erd1admin''" if "tx \<in> set (sentTxs tr)" for tx
    using script_sent_signed [OF run that] demo_host_loads
    by (auto simp: getAdminSigner_Some demo_world_def)
  with run show ?thesis by blast
qed

theorem script_run_file_errors_witness:
  "script_run (demo_host\<lparr>readFile := Map.empty\<rparr>) demo_world demo_argv = Some (RunCrashed ConfigFileUnreadable, no_trace) \<and>
   (\<exists>st tr. script_run (demo_host\<lparr>pemSigner := \<lambda>_. None\<rparr>) demo_world demo_argv = Some (st, tr) \<and>
      sentTxs tr = [] \<and> st \<noteq> RunDone)"
proof -
  have "script_run (demo_host\<lparr>readFile := Map.empty\<rparr>) demo_world demo_argv = Some (RunCrashed ConfigFileUnreadable, no_trace)"
    by (simp add: script_run_def loadMxpyConfig_def demo_host_def)
  moreover have cfg: "loadMxpyConfig (demo_host\<lparr>pemSigner := \<lambda>_. None\<rparr>) = Inr (mxpyConfig demo_world)"
    using demo_host_loads by (simp add: loadMxpyConfig_pemSigner)
  have "getAdminSigner (demo_host\<lparr>pemSigner := \<lambda>_. None\<rparr>) = None"
    by (simp add: getAdminSigner_def split: option.split)
  with cfg obtain r where r: "script_run (demo_host\<lparr>pemSigner := \<lambda>_. None\<rparr>) demo_world demo_argv = Some r"
    by (simp add: script_run_def run_eval)
  obtain st tr where "r = (st, tr)" by (cases r)
  with r script_run_file_errors [of "demo_host\<lparr>pemSigner := \<lambda>_. None\<rparr>" demo_world demo_argv st tr]
  have "\<exists>st tr. script_run (demo_host\<lparr>pemSigner := \<lambda>_. None\<rparr>) demo_world demo_argv = Some (st, tr) \<and>
      sentTxs tr = [] \<and> st \<noteq> RunDone"
    by (simp add: getAdminSigner_def split: option.split)
  ultimately show ?thesis by blast
qed

theorem main_run_registers_snapshot_witness:
  "\<exists>tr regs. main_run demo_world demo_argv = Some (RunDone, tr) \<and>
     those (map (\<lambda>tx. decode_members (tx_data tx)) (sentTxs tr)) = Some regs \<and>
     concat (map snd regs) = [(replicate 32 7, 1500), (replicate 32 7, 2000), (replicate 32 7, 3), (replicate 32 7, 1)]"
proof -
  from main_run_spec_scenario obtain tr where run: "main_run demo_world demo_argv = Some (RunDone, tr)"
    and mem: "snapshotMembers tr =
       [\<lparr>member_address = ''erd1a'', weight = ''1500''\<rparr>, \<lparr>member_address = ''erd1b'', weight = ''2000''\<rparr>,
        \<lparr>member_address = ''erd1c'', weight = ''3''\<rparr>, \<lparr>member_address = ''erd1d'', weight = ''1''\<rparr>]"
    by blast
  from main_run_registers_snapshot [OF run] run mem show ?thesis
    by (auto simp: demo_world_def demo_chain_def weight_eval)
qed


theorem main_events_batch_log_witness:
  "\<exists>tr evs. main_run demo_world demo_argv = Some (RunDone, tr) \<and> main_events demo_world demo_argv = Some evs \<and>
     filter batch_log evs = [Log ''Registering members batch 1 of 1 ...'']"
proof -
  from main_run_spec_scenario obtain tr where run: "main_run demo_world demo_argv = Some (RunDone, tr)"
    and b: "map length (batches tr) = [4]" and s: "map tx_nonce (sentTxs tr) = [5]"
    by (elim exE conjE) (rule that; assumption)
  have "length (batches tr) = 1" "length (sentTxs tr) = 1"
    using arg_cong [OF b, of length] arg_cong [OF s, of length] by simp_all
  moreover from main_events_defined obtain evs where ev: "main_events demo_world demo_argv = Some evs" by blast
  ultimately have "filter batch_log evs = [Log ''Registering members batch 1 of 1 ...'']"
    using main_events_batch_log [OF run ev] by (simp add: nat_str.simps digit_char_def)
  with run ev show ?thesis by blast
qed

theorem main_events_done_log_witness:
  "\<exists>tr evs. main_run demo_world demo_argv = Some (RunDone, tr) \<and> main_events demo_world demo_argv = Some evs \<and>
     last evs = Log ''Done! Snapshot of total 4 members registered!''"
proof -
  from main_run_spec_scenario obtain tr where run: "main_run demo_world demo_argv = Some (RunDone, tr)"
    and m: "snapshotMembers tr =
       [\<lparr>member_address = ''erd1a'', weight = ''1500''\<rparr>, \<lparr>member_address = ''erd1b'', weight = ''2000''\<rparr>,
        \<lparr>member_address = ''erd1c'', weight = ''3''\<rparr>, \<lparr>member_address = ''erd1d'', weight = ''1''\<rparr>]"
    by blast
  from main_events_defined obtain evs where ev: "main_events demo_world demo_argv = Some evs" by blast
  have "last evs = Log ''Done! Snapshot of total 4 members registered!''"
    using main_events_done_log [OF run ev] m by (simp add: nat_str.simps digit_char_def)
  with run ev show ?thesis by blast
qed

end
